(* ===== verification/Shim_Prelude.thy ===== *)
theory Shim_Prelude
  imports Main "HOL-Library.Word" "HOL-Library.AList"
begin

text \<open>
  Shared material of the development: the machine integers and times of the Go source, the
  errors its functions return, the collections of simplification rules the component
  theories fill, and the generic facts on lists and association lists they share.
\<close>

named_theorems shim_defs \<open>definitions unfolded by the component proofs\<close>
named_theorems frame_simps \<open>fields an operation leaves alone\<close>

subsection \<open>Machine integers and times\<close>

text \<open>
  Go's \<open>uint32\<close> and \<open>int32\<close> are 32-bit words (\<open>int32\<close> read with \<open>sint\<close>), \<open>uint64\<close>
  and \<open>int64\<close> 64-bit words. A \<open>time.Time\<close> is an instant in nanoseconds relative to the
  Unix epoch; the zero \<open>time.Time\<close> is midnight of January 1 of year 1.
\<close>

type_synonym u32 = "32 word"
type_synonym i32 = "32 word"
type_synonym u64 = "64 word"
type_synonym i64 = "64 word"
type_synonym time = int

definition go_zero_time :: time where
  "go_zero_time = - 62135596800000000000"

definition UnixMicro :: "i64 \<Rightarrow> time" where
  "UnixMicro us = sint us * 1000"

definition timeZero :: time where
  "timeZero = UnixMicro 0"

definition After :: "time \<Rightarrow> time \<Rightarrow> bool" where
  "After t u \<longleftrightarrow> u < t"

lemma timeZero_eq [simp]: "timeZero = 0"
  by (simp add: timeZero_def UnixMicro_def)

lemma After_timeZero [simp]: "After t timeZero \<longleftrightarrow> 0 < t"
  by (simp add: After_def)

lemma After_zero [simp]: "After t 0 \<longleftrightarrow> 0 < t"
  by (simp add: After_def)

lemma go_zero_time_neg [simp]: "\<not> 0 < go_zero_time" "go_zero_time < 0"
  by (simp_all add: go_zero_time_def)

subsection \<open>Errors\<close>

text \<open>
  The error values the shim returns. The first group are the \<open>errdefs\<close> classes the code wraps
  (what \<open>errgrpc.ToGRPC\<close> maps to a status); \<open>ErrNotExist\<close> is the error \<open>os.IsNotExist\<close> accepts;
  \<open>ErrOther\<close> is any other error, by its message;
  \<open>Panic\<close> stands for a run-time panic (nil dereference, failed type assertion).
\<close>

datatype err =
    ErrNotFound
  | ErrAlreadyExists
  | ErrFailedPrecondition
  | ErrInvalidArgument
  | ErrCanceled
  | ErrNotExist
  | ErrOther string
  | Panic string

type_synonym 'a result = "err + 'a"

fun is_err :: "'a result \<Rightarrow> bool" where
  "is_err (Inl _) = True"
| "is_err (Inr _) = False"

text \<open>Early return on error: the rest of a function runs on the success value only.\<close>

definition rbind :: "'a result \<Rightarrow> ('a \<Rightarrow> 'b result) \<Rightarrow> 'b result" where
  "rbind r f = (case r of Inl e \<Rightarrow> Inl e | Inr x \<Rightarrow> f x)"

lemma rbind_simps [simp]: "rbind (Inl e) f = Inl e" "rbind (Inr x) f = f x"
  by (simp_all add: rbind_def)

lemma rbind_eq_Inr: "rbind r f = Inr y \<longleftrightarrow> (\<exists>x. r = Inr x \<and> f x = Inr y)"
  by (cases r) simp_all

subsection \<open>Association lists as Go maps\<close>

text \<open>
  A Go map is an association list: \<open>map_of\<close> looks a key up, \<open>AList.update\<close> stores,
  \<open>AList.delete\<close> removes; the order of the list is the order of one iteration over the map.
\<close>

lemma distinct_keys_update [simp]:
  "distinct (map fst xs) \<Longrightarrow> distinct (map fst (AList.update k v xs))"
  by (rule distinct_update)

lemma distinct_keys_delete [simp]:
  "distinct (map fst xs) \<Longrightarrow> distinct (map fst (AList.delete k xs))"
  by (rule distinct_delete)

lemma in_set_map_of:
  "distinct (map fst xs) \<Longrightarrow> (k, v) \<in> set xs \<longleftrightarrow> map_of xs k = Some v"
  by auto

lemma map_of_delete_other [simp]: "k \<noteq> k' \<Longrightarrow> map_of (AList.delete k xs) k' = map_of xs k'"
  by (simp add: delete_conv')

lemma map_of_delete_same [simp]: "map_of (AList.delete k xs) k = None"
  by (simp add: delete_conv')

end
