(* ===== verification/Phase.thy ===== *)
theory Phase
  imports Shim_Prelude
begin

text \<open>
  The lifecycle phase of a process (\<open>phase.go\<close>): the five phases, their order, the table of
  legal transitions and the error a rejected transition reports.
\<close>

subsection \<open>Phases and their order\<close>

datatype procPhase = phaseCreated | phaseStarting | phaseRunning | phaseExited | phaseDeleted

fun phase_rank :: "procPhase \<Rightarrow> nat" where
  "phase_rank phaseCreated = 0"
| "phase_rank phaseStarting = 1"
| "phase_rank phaseRunning = 2"
| "phase_rank phaseExited = 3"
| "phase_rank phaseDeleted = 4"

lemma phase_rank_inject: "phase_rank p = phase_rank q \<longleftrightarrow> p = q"
  by (cases p; cases q) simp_all

text \<open>The constants are numbered by \<open>iota\<close>, so comparing phases compares their numbers.\<close>

instantiation procPhase :: linorder
begin

definition less_eq_procPhase :: "procPhase \<Rightarrow> procPhase \<Rightarrow> bool" where
  "p \<le> q \<longleftrightarrow> phase_rank p \<le> phase_rank q"

definition less_procPhase :: "procPhase \<Rightarrow> procPhase \<Rightarrow> bool" where
  "p < q \<longleftrightarrow> phase_rank p < phase_rank q"

instance
  by standard (auto simp: less_eq_procPhase_def less_procPhase_def phase_rank_inject)

end

lemma before_running: "p < phaseRunning \<longleftrightarrow> p = phaseCreated \<or> p = phaseStarting"
  by (cases p) (simp_all add: less_procPhase_def)

fun phase_String :: "procPhase \<Rightarrow> string" where
  "phase_String phaseCreated = ''created''"
| "phase_String phaseStarting = ''starting''"
| "phase_String phaseRunning = ''running''"
| "phase_String phaseExited = ''exited''"
| "phase_String phaseDeleted = ''deleted''"

subsection \<open>The transition table\<close>

fun phaseTransitions :: "procPhase \<Rightarrow> procPhase list" where
  "phaseTransitions phaseCreated = [phaseCreated, phaseStarting, phaseExited, phaseDeleted]"
| "phaseTransitions phaseStarting = [phaseCreated, phaseRunning, phaseExited, phaseDeleted]"
| "phaseTransitions phaseRunning = [phaseRunning, phaseExited, phaseDeleted]"
| "phaseTransitions phaseExited = [phaseExited, phaseDeleted]"
| "phaseTransitions phaseDeleted = [phaseDeleted]"

definition canBecome :: "procPhase \<Rightarrow> procPhase \<Rightarrow> bool" where
  "canBecome p next = List.member (phaseTransitions p) next"

lemma canBecome_iff: "canBecome p q \<longleftrightarrow> q \<in> set (phaseTransitions p)"
  by (simp add: canBecome_def)

subsection \<open>The rejected transition\<close>

record invalidTransitionError =
  ite_from :: procPhase
  ite_to :: procPhase

definition ite_Error :: "invalidTransitionError \<Rightarrow> string" where
  "ite_Error e = ''cannot go from '' @ phase_String (ite_from e) @ '' to '' @ phase_String (ite_to e)"

definition ite_Unwrap :: "invalidTransitionError \<Rightarrow> err" where
  "ite_Unwrap e = ErrFailedPrecondition"

subsection \<open>What the table says\<close>

text \<open>Which phases may become a given phase, and that the table is monotone but for one edge.\<close>

lemma canBecome_deleted [simp]: "canBecome p phaseDeleted"
  by (cases p) (simp_all add: canBecome_iff)

lemma canBecome_exited_iff [simp]: "canBecome p phaseExited \<longleftrightarrow> p \<noteq> phaseDeleted"
  by (cases p) (simp_all add: canBecome_iff)

lemma canBecome_starting_iff [simp]: "canBecome p phaseStarting \<longleftrightarrow> p = phaseCreated"
  by (cases p) (simp_all add: canBecome_iff)

lemma canBecome_running_iff [simp]: "canBecome p phaseRunning \<longleftrightarrow> p = phaseStarting \<or> p = phaseRunning"
  by (cases p) (simp_all add: canBecome_iff)

lemma canBecome_created_iff [simp]: "canBecome p phaseCreated \<longleftrightarrow> p = phaseCreated \<or> p = phaseStarting"
  by (cases p) (simp_all add: canBecome_iff)

lemma canBecome_monotone: "canBecome p q \<Longrightarrow> p \<le> q \<or> (p = phaseStarting \<and> q = phaseCreated)"
  by (cases p; cases q) (simp_all add: less_eq_procPhase_def canBecome_iff)

lemmas canBecome_iffs =
  canBecome_deleted canBecome_exited_iff canBecome_starting_iff canBecome_running_iff
  canBecome_created_iff

inductive phase_path :: "procPhase \<Rightarrow> procPhase list \<Rightarrow> procPhase \<Rightarrow> bool" where
  path_nil: "phase_path p [] p"
| path_step: "canBecome p q \<Longrightarrow> phase_path q ps r \<Longrightarrow> phase_path p (q # ps) r"

inductive_cases phase_path_NilE: "phase_path p [] r"
inductive_cases phase_path_ConsE: "phase_path p (q # ps) r"

lemma phase_path_monotone_after_running:
  "phase_path p ps r \<Longrightarrow> phaseRunning \<le> p \<Longrightarrow> sorted (p # ps) \<and> p \<le> r"
proof (induction rule: phase_path.induct)
  case (path_nil p)
  then show ?case by simp
next
  case (path_step p q ps r)
  from path_step.hyps(1) path_step.prems have "p \<le> q" and q: "phaseRunning \<le> q"
    using canBecome_monotone [of p q] by (auto simp: less_eq_procPhase_def)
  with path_step.IH [OF q] show ?case by auto
qed

end
