(* ===== verification/PState.thy ===== *)
theory PState
  imports Shim_Prelude
begin

text \<open>
  What the shim knows about a process (\<open>state.go\<close>): the observation record \<open>pState\<close>, the
  containerd status it maps to, the merge \<open>CopyTo\<close>, and the two decoders of systemd properties,
  the reply of a property read (\<open>getUnitState\<close>) and the payload of a signal
  (\<open>serviceExitState\<close> of \<open>unitsignals.go\<close>).
\<close>

subsection \<open>The observation record\<close>

record pState =
  ExitedAt :: time
  ExitCode :: u32
  Pid :: u32
  Status :: string

text \<open>The zero value of the struct, and what \<open>Reset\<close> stores: they differ in the time.\<close>

definition pState_zero :: pState where
  "pState_zero = \<lparr>ExitedAt = go_zero_time, ExitCode = 0, Pid = 0, Status = ''''\<rparr>"

definition pState_Reset :: pState where
  "pState_Reset = \<lparr>ExitedAt = timeZero, ExitCode = 0, Pid = 0, Status = ''''\<rparr>"

datatype task_status =
    Status_UNKNOWN | Status_CREATED | Status_RUNNING | Status_STOPPED | Status_PAUSED | Status_PAUSING

definition exitedInit :: string where
  "exitedInit = ''exited-init''"

definition toStatus :: "string \<Rightarrow> task_status" where
  "toStatus s =
     (if s = ''created'' \<or> s = ''start-pre'' then Status_CREATED
      else if s = ''running'' \<or> s = ''start-post'' then Status_RUNNING
      else if s = ''pausing'' then Status_PAUSING
      else if s = ''paused'' then Status_PAUSED
      else if s = ''stopped'' \<or> s = ''dead'' \<or> s = ''failed'' \<or> s = ''stop-post'' \<or> s = ''exited''
           \<or> s = exitedInit \<or> s = ''exit-code'' then Status_STOPPED
      else Status_UNKNOWN)"

definition Exited :: "pState \<Rightarrow> bool" where
  "Exited s =
     (if ExitCode s > 0 then True
      else if toStatus (Status s) = Status_STOPPED then True
      else After (ExitedAt s) timeZero)"

definition Started :: "pState \<Rightarrow> bool" where
  "Started s \<longleftrightarrow> Pid s > 0"

text \<open>\<open>s.CopyTo(&other)\<close> as the new value of \<open>other\<close>: each assignment of the source in turn.\<close>

definition CopyTo :: "pState \<Rightarrow> pState \<Rightarrow> pState" where
  "CopyTo s other =
     (if Pid s = 0 \<and> \<not> Exited s then other
      else
        let o1 = (if After (ExitedAt s) timeZero \<and> \<not> After (ExitedAt other) timeZero
                  then other\<lparr>ExitedAt := ExitedAt s\<rparr> else other);
            o2 = (if ExitCode s > 0 \<and> ExitCode o1 = 0 then o1\<lparr>ExitCode := ExitCode s\<rparr> else o1);
            o3 = (if Pid o2 = 0 then o2\<lparr>Pid := Pid s\<rparr> else o2)
        in if Status s \<noteq> '''' \<and> (\<not> Exited o3 \<or> Exited s) then o3\<lparr>Status := Status s\<rparr> else o3)"

subsection \<open>systemd exit codes\<close>

definition exitSignalOffset :: u32 where
  "exitSignalOffset = 128"

definition cldExited :: i32 where "cldExited = 1"
definition cldKilled :: i32 where "cldKilled = 2"
definition cldDumped :: i32 where "cldDumped = 3"

definition exitStatusFor :: "i32 \<Rightarrow> i32 \<Rightarrow> u32" where
  "exitStatusFor mainCode mainStatus =
     (if sint mainStatus \<le> 0 then 0
      else if mainCode = cldKilled \<or> mainCode = cldDumped then mainStatus + exitSignalOffset
      else mainStatus)"

subsection \<open>D-Bus values\<close>

text \<open>
  The values a property can hold; a Go type assertion to another type panics, or gives the
  zero value and \<open>false\<close> in its two-value form.
\<close>

datatype variant =
    VStr string
  | VU32 u32
  | VI32 i32
  | VU64 u64
  | VBool bool
  | VStrs "string list"
  | VTuples "variant list list"
  | VOther

type_synonym props = "(string \<times> variant) list"

fun as_str :: "variant \<Rightarrow> string option" where
  "as_str (VStr s) = Some s" | "as_str _ = None"
fun as_u32 :: "variant \<Rightarrow> u32 option" where
  "as_u32 (VU32 w) = Some w" | "as_u32 _ = None"
fun as_i32 :: "variant \<Rightarrow> i32 option" where
  "as_i32 (VI32 w) = Some w" | "as_i32 _ = None"
fun as_u64 :: "variant \<Rightarrow> u64 option" where
  "as_u64 (VU64 w) = Some w" | "as_u64 _ = None"
fun as_strs :: "variant \<Rightarrow> string list option" where
  "as_strs (VStrs s) = Some s" | "as_strs _ = None"
fun as_tuples :: "variant \<Rightarrow> variant list list option" where
  "as_tuples (VTuples t) = Some t" | "as_tuples _ = None"

definition assert_type :: "'a option \<Rightarrow> 'a result" where
  "assert_type v = (case v of None \<Rightarrow> Inl (Panic ''interface conversion'') | Some x \<Rightarrow> Inr x)"

lemma assert_type_simps [simp]:
  "assert_type (Some x) = Inr x" "assert_type None = Inl (Panic ''interface conversion'')"
  by (simp_all add: assert_type_def)

text \<open>An element of a tuple: out of range it panics.\<close>

definition tuple_at :: "variant list \<Rightarrow> nat \<Rightarrow> variant result" where
  "tuple_at t i = (if i < length t then Inr (t ! i) else Inl (Panic ''index out of range''))"

subsection \<open>Reading a unit's properties\<close>

definition readExecStatusExit :: "variant list \<Rightarrow> (u32 \<times> time) result" where
  "readExecStatusExit i =
     rbind (tuple_at i 9) (\<lambda>v9. rbind (assert_type (as_i32 v9)) (\<lambda>code.
     rbind (tuple_at i 5) (\<lambda>v5. rbind (assert_type (as_u64 v5)) (\<lambda>t.
     Inr (code, UnixMicro t)))))"

text \<open>
  \<open>getUnitState\<close> on the reply of \<open>GetAllPropertiesContext\<close>: an error of the call is returned
  before \<open>st\<close> is touched.
\<close>

definition getUnitState :: "props result \<Rightarrow> pState \<Rightarrow> pState result" where
  "getUnitState reply st =
     rbind reply (\<lambda>state.
     rbind (case map_of state ''ExecMainPID'' of None \<Rightarrow> Inr st
            | Some p \<Rightarrow> rbind (assert_type (as_u32 p)) (\<lambda>v. Inr (st\<lparr>Pid := v\<rparr>))) (\<lambda>st.
     rbind (case map_of state ''ExecMainStatus'' of None \<Rightarrow> Inr st
            | Some c \<Rightarrow>
                rbind (case map_of state ''ExecMainCode'' of None \<Rightarrow> Inr 0
                       | Some v \<Rightarrow> assert_type (as_i32 v)) (\<lambda>mainCode.
                rbind (assert_type (as_i32 c)) (\<lambda>status.
                Inr (st\<lparr>ExitCode := exitStatusFor mainCode status\<rparr>)))) (\<lambda>st.
     rbind (if ExitCode st = 0 then
              rbind (assert_type (Option.bind (map_of state ''ExecStart'') as_tuples)) (\<lambda>execStart.
              case execStart of [] \<Rightarrow> Inr st
              | e # _ \<Rightarrow> rbind (readExecStatusExit e) (\<lambda>(code, _).
                  Inr (if code > 0 then st\<lparr>ExitCode := code\<rparr> else st)))
            else Inr st) (\<lambda>st.
     case map_of state ''SubState'' of None \<Rightarrow> Inr st
     | Some status \<Rightarrow> rbind (assert_type (as_str status)) (\<lambda>s. Inr (st\<lparr>Status := s\<rparr>))))))"

text \<open>\<open>loadExitFromUnit\<close>, with the reply of the property read and the current time.\<close>

definition loadExitFromUnit :: "props result \<Rightarrow> time \<Rightarrow> pState result" where
  "loadExitFromUnit reply now =
     rbind (getUnitState reply pState_Reset) (\<lambda>st.
     Inr (if Exited st \<and> \<not> After (ExitedAt st) timeZero then st\<lparr>ExitedAt := now\<rparr> else st))"

record execState =
  es_Path :: string
  es_Started :: time
  es_Exited :: time
  es_ExitStatus :: u32
  es_Args :: "string list"
  es_Pid :: u32
  es_StatusCode :: u32

definition parseExecStartStatus :: "variant list list \<Rightarrow> execState \<Rightarrow> execState result" where
  "parseExecStartStatus ii st =
     (case ii of [] \<Rightarrow> Inl ErrNotFound
      | i # _ \<Rightarrow>
        rbind (tuple_at i 0) (\<lambda>v. rbind (assert_type (as_str v)) (\<lambda>p.
        rbind (tuple_at i 1) (\<lambda>v. rbind (assert_type (as_strs v)) (\<lambda>args.
        rbind (tuple_at i 3) (\<lambda>v. rbind (assert_type (as_u64 v)) (\<lambda>t3.
        rbind (tuple_at i 5) (\<lambda>v. rbind (assert_type (as_u64 v)) (\<lambda>t5.
        rbind (tuple_at i 7) (\<lambda>v. rbind (assert_type (as_u32 v)) (\<lambda>pid.
        rbind (tuple_at i 8) (\<lambda>v. rbind (assert_type (as_i32 v)) (\<lambda>code.
        rbind (tuple_at i 9) (\<lambda>v. rbind (assert_type (as_i32 v)) (\<lambda>status.
        Inr (st\<lparr>es_Path := p, es_Args := args,
                es_Started := (if t3 > 0 then UnixMicro t3 else es_Started st),
                es_Exited := (if t5 > 0 then UnixMicro t5 else es_Exited st),
                es_Pid := pid, es_StatusCode := code, es_ExitStatus := status\<rparr>))))))))))))))))"

subsection \<open>Decoding a signal's payload\<close>

definition serviceExitState :: "props \<Rightarrow> pState option" where
  "serviceExitState changed =
     (case Option.bind (map_of changed ''ExecMainPID'') as_u32 of None \<Rightarrow> None | Some pid \<Rightarrow>
      if pid = 0 then None else
      (case Option.bind (map_of changed ''ExecMainStatus'') as_i32 of None \<Rightarrow> None | Some status \<Rightarrow>
      if sint status < 0 then None else
      (case Option.bind (map_of changed ''ExecMainCode'') as_i32 of None \<Rightarrow> None | Some code \<Rightarrow>
      (case Option.bind (map_of changed ''ExecMainExitTimestamp'') as_u64 of None \<Rightarrow> None | Some exitedAt \<Rightarrow>
      if exitedAt = 0 then None else
      Some \<lparr>ExitedAt = UnixMicro exitedAt, ExitCode = exitStatusFor code status, Pid = pid,
            Status = ''exited''\<rparr>))))"

definition unitEventIsExit :: "props \<Rightarrow> bool" where
  "unitEventIsExit changed =
     (case map_of changed ''ActiveState'' of None \<Rightarrow> False
      | Some v \<Rightarrow> (let s = (case as_str v of None \<Rightarrow> '''' | Some s \<Rightarrow> s)
                   in s = ''inactive'' \<or> s = ''failed''))"

subsection \<open>Facts about single observations\<close>

lemma Exited_iff:
  "Exited s \<longleftrightarrow> ExitCode s \<noteq> 0 \<or> toStatus (Status s) = Status_STOPPED \<or> 0 < ExitedAt s"
  by (auto simp: Exited_def word_gt_0)

lemma toStatus_empty [simp]: "toStatus '''' = Status_UNKNOWN"
  by (simp add: toStatus_def exitedInit_def)

lemma toStatus_created [simp]: "toStatus ''created'' = Status_CREATED"
  by (simp add: toStatus_def)

lemma toStatus_running [simp]: "toStatus ''running'' = Status_RUNNING"
  by (simp add: toStatus_def)

lemma toStatus_exited [simp]:
  "toStatus ''exited'' = Status_STOPPED" "toStatus ''failed'' = Status_STOPPED"
  "toStatus exitedInit = Status_STOPPED"
  by (simp_all add: toStatus_def exitedInit_def)

lemma Exited_zero [simp]: "\<not> Exited pState_zero" "\<not> Exited pState_Reset"
  by (simp_all add: Exited_iff pState_zero_def pState_Reset_def)

lemma Exited_Pid_update [simp]: "Exited (s\<lparr>Pid := x\<rparr>) = Exited s"
  by (simp add: Exited_iff)

lemma ExitCode_pos: "ExitCode s \<noteq> 0 \<Longrightarrow> Exited s"
  by (simp add: Exited_iff)

text \<open>The fields of a merge, one at a time.\<close>

lemma CopyTo_ExitedAt:
  "ExitedAt (CopyTo s x) =
     (if 0 < ExitedAt s \<and> \<not> 0 < ExitedAt x then ExitedAt s else ExitedAt x)"
  by (auto simp: CopyTo_def Let_def Exited_iff)

lemma CopyTo_ExitCode:
  "ExitCode (CopyTo s x) = (if ExitCode x = 0 then ExitCode s else ExitCode x)"
  by (auto simp: CopyTo_def Let_def Exited_iff word_gt_0)

lemma CopyTo_Pid:
  "Pid (CopyTo s x) = (if Pid x = 0 then Pid s else Pid x)"
  by (auto simp: CopyTo_def Let_def)

lemma CopyTo_Status:
  "Status (CopyTo s x) =
     (if (Pid s = 0 \<and> \<not> Exited s) \<or> Status s = '''' \<or> (Exited x \<and> \<not> Exited s)
      then Status x else Status s)"
  by (auto simp: CopyTo_def Let_def Exited_iff word_gt_0)

lemma CopyTo_Exited [simp]: "Exited (CopyTo s x) \<longleftrightarrow> Exited s \<or> Exited x"
  by (cases "Pid s = 0 \<and> \<not> Exited s")
     (auto simp: CopyTo_def Let_def Exited_iff word_gt_0)

lemma CopyTo_idem: "CopyTo s (CopyTo s x) = CopyTo s x"
  by (rule pState.equality)
     (auto simp: CopyTo_ExitedAt CopyTo_ExitCode CopyTo_Pid CopyTo_Status)

lemma CopyTo_uninformative [simp]: "Pid s = 0 \<Longrightarrow> \<not> Exited s \<Longrightarrow> CopyTo s x = x"
  by (simp add: CopyTo_def)

text \<open>
  Every reader copies the process's state into a zero struct: what it gets is the state itself,
  but for an uninformative one and for a time that was never set.
\<close>

lemma CopyTo_zero:
  "ExitCode (CopyTo s pState_zero) = ExitCode s" "Pid (CopyTo s pState_zero) = Pid s"
  "Exited (CopyTo s pState_zero) = Exited s"
  "Status (CopyTo s pState_zero) = (if Pid s = 0 \<and> \<not> Exited s then '''' else Status s)"
  "ExitedAt (CopyTo s pState_zero) = (if 0 < ExitedAt s then ExitedAt s else go_zero_time)"
  by (auto simp: CopyTo_ExitCode CopyTo_Pid CopyTo_Status CopyTo_ExitedAt pState_zero_def Exited_iff)

text \<open>The first of a list of values that passes a test.\<close>

definition first_or :: "'a \<Rightarrow> ('a \<Rightarrow> bool) \<Rightarrow> 'a list \<Rightarrow> 'a" where
  "first_or d P xs = (case find P xs of None \<Rightarrow> d | Some v \<Rightarrow> v)"

lemma first_or_simps [simp]:
  "first_or d P [] = d" "first_or d P (x # xs) = (if P x then x else first_or d P xs)"
  by (simp_all add: first_or_def)

lemma uint_eq_sint_if_nonneg:
  fixes w :: "'a::len word"
  assumes "0 \<le> sint w"
  shows "uint w = sint w"
proof -
  have "sint w < 2 ^ (LENGTH('a) - 1)" by (rule sint_lt)
  also have "\<dots> \<le> 2 ^ LENGTH('a)" by (rule power_increasing) simp_all
  finally show ?thesis using assms by (simp add: uint_sint take_bit_int_eq_self)
qed

lemma exitStatusFor_unat:
  "unat (exitStatusFor code status) =
     (if sint status \<le> 0 then 0
      else if code = cldKilled \<or> code = cldDumped then nat (sint status) + 128 else nat (sint status))"
proof (cases "sint status \<le> 0")
  case True
  then show ?thesis by (simp add: exitStatusFor_def)
next
  case False
  then have u: "unat status = nat (sint status)"
    using uint_eq_sint_if_nonneg [of status] by (simp add: unat_eq_nat_uint)
  have "sint status < 2 ^ 31" using sint_lt [of status] by simp
  with u False have "unat status + 128 < 2 ^ 32" by simp
  then have "unat (status + 128) = unat status + 128"
    by (subst unat_add_lem [THEN iffD1]) simp_all
  with False u show ?thesis by (simp add: exitStatusFor_def exitSignalOffset_def)
qed

subsection \<open>Properties\<close>

text \<open>
  Merging observations. After any sequence of observations has been merged into a state, the
  process counts as exited exactly if it did before or one of them was terminal, and the exit code,
  the pid and the exit time are those of the first observation that carried one: nothing later
  overwrites them and a terminal state never reverts.
\<close>

theorem merge_history:
  "Exited (fold CopyTo obs x) = (Exited x \<or> list_ex Exited obs)
   \<and> ExitCode (fold CopyTo obs x) = first_or 0 (\<lambda>c. c \<noteq> 0) (ExitCode x # map ExitCode obs)
   \<and> Pid (fold CopyTo obs x) = first_or 0 (\<lambda>p. p \<noteq> 0) (Pid x # map Pid obs)
   \<and> ExitedAt (fold CopyTo obs x) = first_or (ExitedAt x) (\<lambda>t. 0 < t) (ExitedAt x # map ExitedAt obs)"
proof (induction obs arbitrary: x)
  case Nil
  show ?case by simp
next
  case (Cons s obs)
  show ?case
    using Cons.IH [of "CopyTo s x"] by (auto simp: CopyTo_ExitCode CopyTo_Pid CopyTo_ExitedAt)
qed

text \<open>
  \<open>exitStatusFor\<close> reports a process killed by signal \<open>s\<close> (with or without a core dump) as
  128 plus \<open>s\<close> and any other positive status as itself; the 32-bit addition never wraps around.
\<close>

theorem exitStatusFor_correct:
  "unat (exitStatusFor code status) =
     (if sint status \<le> 0 then 0
      else if code = cldKilled \<or> code = cldDumped then nat (sint status) + 128
      else nat (sint status))"
  by (rule exitStatusFor_unat)

lemma getUnitState_main:
  assumes "map_of state ''ExecMainPID'' = Some (VU32 pid)"
    and "map_of state ''ExecMainStatus'' = Some (VI32 status)"
    and "map_of state ''ExecMainCode'' = Some (VI32 code)"
    and "exitStatusFor code status \<noteq> 0"
    and "getUnitState (Inr state) st0 = Inr st"
  shows "Pid st = pid \<and> ExitCode st = exitStatusFor code status \<and> ExitedAt st = ExitedAt st0"
  using assms by (auto simp: getUnitState_def rbind_eq_Inr split: option.splits)

lemma bind_as_Some:
  "Option.bind (map_of m k) as_u32 = Some x32 \<longleftrightarrow> map_of m k = Some (VU32 x32)"
  "Option.bind (map_of m k) as_i32 = Some y32 \<longleftrightarrow> map_of m k = Some (VI32 y32)"
  "Option.bind (map_of m k) as_u64 = Some x64 \<longleftrightarrow> map_of m k = Some (VU64 x64)"
  by (cases "map_of m k"; simp; cases "the (map_of m k)"; simp)+

lemma serviceExitState_Some:
  "serviceExitState changed = Some st \<longleftrightarrow> (\<exists>pid status code t.
     map_of changed ''ExecMainPID'' = Some (VU32 pid) \<and> pid \<noteq> 0
     \<and> map_of changed ''ExecMainStatus'' = Some (VI32 status) \<and> 0 \<le> sint status
     \<and> map_of changed ''ExecMainCode'' = Some (VI32 code)
     \<and> map_of changed ''ExecMainExitTimestamp'' = Some (VU64 t) \<and> t \<noteq> 0
     \<and> st = \<lparr>ExitedAt = UnixMicro t, ExitCode = exitStatusFor code status, Pid = pid, Status = ''exited''\<rparr>)"
  unfolding serviceExitState_def bind_as_Some [symmetric]
  by (auto split: option.splits if_splits)

text \<open>
  C28: the two ways the shim learns an exit from systemd agree. If a signal's payload decodes to an
  exit with a non-zero status, then a property read that shows the same main-process properties
  reports the same pid and the same exit code.
\<close>

theorem exit_decoders_agree:
  assumes "serviceExitState changed = Some st" and "ExitCode st \<noteq> 0"
    and "map_of state ''ExecMainPID'' = map_of changed ''ExecMainPID''"
    and "map_of state ''ExecMainStatus'' = map_of changed ''ExecMainStatus''"
    and "map_of state ''ExecMainCode'' = map_of changed ''ExecMainCode''"
    and "getUnitState (Inr state) st0 = Inr st'"
  shows "Pid st' = Pid st \<and> ExitCode st' = ExitCode st"
  using assms getUnitState_main [of state _ _ _ st0 st'] by (auto simp: serviceExitState_Some)

theorem exit_decoders_agree_witness:
  "Pid \<lparr>ExitedAt = 0, ExitCode = 137, Pid = 42, Status = ''dead''\<rparr> = (42 :: u32)
   \<and> exitStatusFor 2 9 = 137"
proof -
  let ?ps = "[(''ExecMainPID'', VU32 42), (''ExecMainStatus'', VI32 9), (''ExecMainCode'', VI32 2),
              (''ExecMainExitTimestamp'', VU64 5), (''SubState'', VStr ''dead'')]"
  have 1: "serviceExitState ?ps = Some \<lparr>ExitedAt = 5000, ExitCode = 137, Pid = 42, Status = ''exited''\<rparr>"
    by (simp add: serviceExitState_def exitStatusFor_def exitSignalOffset_def cldKilled_def UnixMicro_def)
  have 2: "getUnitState (Inr ?ps) pState_Reset
             = Inr \<lparr>ExitedAt = 0, ExitCode = 137, Pid = 42, Status = ''dead''\<rparr>"
    by (simp add: getUnitState_def pState_Reset_def exitStatusFor_def exitSignalOffset_def cldKilled_def)
  show ?thesis
    using exit_decoders_agree [OF 1 _ refl refl refl 2]
    by (simp add: exitStatusFor_def exitSignalOffset_def cldKilled_def)
qed

text \<open>
  The property-read fallback does not go through \<open>exitStatusFor\<close> for the \<open>ExecStart\<close> tuple: when
  the main status is absent, a control process killed by signal \<open>s\<close> is recorded with the bare
  signal number as its exit code, where \<open>exitStatusFor\<close> would report 128 plus the signal.
\<close>

theorem execstart_fallback_bare_signal:
  assumes "0 < sint s"
  shows "getUnitState (Inr [(''ExecStart'', VTuples [[VStr p, VStrs args, VBool False, VU64 t1, VU64 t2,
            VU64 t3, VU64 t4, VU32 pid, VI32 cldKilled, VI32 s]])]) pState_Reset
         = Inr (pState_Reset\<lparr>ExitCode := s\<rparr>)
       \<and> exitStatusFor cldKilled s = s + 128 \<and> s + 128 \<noteq> s"
proof -
  have "s \<noteq> 0" using assms by auto
  then have "s > 0" by (simp add: word_gt_0)
  with assms show ?thesis
    by (simp add: getUnitState_def readExecStatusExit_def tuple_at_def pState_Reset_def
        exitStatusFor_def exitSignalOffset_def)
qed

theorem execstart_fallback_bare_signal_witness:
  "getUnitState (Inr [(''ExecStart'', VTuples [[VStr ''/bin/shim'', VStrs [], VBool False, VU64 1, VU64 1,
      VU64 2, VU64 2, VU32 7, VI32 cldKilled, VI32 9]])]) pState_Reset
   = Inr (pState_Reset\<lparr>ExitCode := 9\<rparr>) \<and> exitStatusFor cldKilled 9 = 137"
  using execstart_fallback_bare_signal [of 9 "''/bin/shim''" "[]" 1 1 2 2 7] by simp

text \<open>A property read never sets the exit time.\<close>

lemma getUnitState_ExitedAt:
  assumes "getUnitState reply st0 = Inr st"
  shows "ExitedAt st = ExitedAt st0"
proof -
  obtain state s1 s2 s3 where
    1: "(case map_of state ''ExecMainPID'' of None \<Rightarrow> Inr st0
         | Some p \<Rightarrow> rbind (assert_type (as_u32 p)) (\<lambda>v. Inr (st0\<lparr>Pid := v\<rparr>))) = Inr s1"
    and 2: "(case map_of state ''ExecMainStatus'' of None \<Rightarrow> Inr s1
         | Some c \<Rightarrow> rbind (case map_of state ''ExecMainCode'' of None \<Rightarrow> Inr 0
                           | Some v \<Rightarrow> assert_type (as_i32 v)) (\<lambda>mainCode.
                    rbind (assert_type (as_i32 c)) (\<lambda>status.
                    Inr (s1\<lparr>ExitCode := exitStatusFor mainCode status\<rparr>)))) = Inr s2"
    and 3: "(if ExitCode s2 = 0 then
              rbind (assert_type (Option.bind (map_of state ''ExecStart'') as_tuples)) (\<lambda>execStart.
              case execStart of [] \<Rightarrow> Inr s2
              | e # _ \<Rightarrow> rbind (readExecStatusExit e) (\<lambda>(code, _).
                  Inr (if code > 0 then s2\<lparr>ExitCode := code\<rparr> else s2)))
            else Inr s2) = Inr s3"
    and 4: "(case map_of state ''SubState'' of None \<Rightarrow> Inr s3
             | Some status \<Rightarrow> rbind (assert_type (as_str status)) (\<lambda>s. Inr (s3\<lparr>Status := s\<rparr>))) = Inr st"
    using assms unfolding getUnitState_def rbind_eq_Inr by blast
  have "ExitedAt s1 = ExitedAt st0" using 1 by (auto simp: rbind_eq_Inr split: option.splits)
  moreover have "ExitedAt s2 = ExitedAt s1" using 2 by (auto simp: rbind_eq_Inr split: option.splits)
  moreover have "ExitedAt s3 = ExitedAt s2"
  proof (cases "assert_type (Option.bind (map_of state ''ExecStart'') as_tuples)")
    case (Inl e)
    with 3 show ?thesis by (simp split: if_splits)
  next
    case (Inr x)
    with 3 show ?thesis by (cases x) (auto simp: rbind_eq_Inr split: if_splits)
  qed
  moreover have "ExitedAt st = ExitedAt s3" using 4 by (auto simp: rbind_eq_Inr split: option.splits)
  ultimately show ?thesis by simp
qed

text \<open>
  An exit recovered by reading the unit always carries an exit time: a state returned by
  \<open>loadExitFromUnit\<close> is terminal exactly if its exit time is set.
\<close>

theorem loadExitFromUnit_stamps:
  assumes "loadExitFromUnit reply now = Inr st" and "0 < now"
  shows "Exited st \<longleftrightarrow> 0 < ExitedAt st"
proof -
  from assms(1) obtain s where s: "getUnitState reply pState_Reset = Inr s"
    and st: "st = (if Exited s \<and> \<not> 0 < ExitedAt s then s\<lparr>ExitedAt := now\<rparr> else s)"
    by (auto simp: loadExitFromUnit_def rbind_eq_Inr)
  from getUnitState_ExitedAt [OF s] have "ExitedAt s = 0" by (simp add: pState_Reset_def)
  with st assms(2) show ?thesis by (auto simp: Exited_iff)
qed

theorem loadExitFromUnit_stamps_witness:
  "Exited \<lparr>ExitedAt = 77, ExitCode = 0, Pid = 0, Status = ''dead''\<rparr>"
proof -
  have "loadExitFromUnit (Inr [(''ExecStart'', VTuples []), (''SubState'', VStr ''dead'')]) 77
          = Inr \<lparr>ExitedAt = 77, ExitCode = 0, Pid = 0, Status = ''dead''\<rparr>"
    by (simp add: loadExitFromUnit_def getUnitState_def pState_Reset_def Exited_iff toStatus_def)
  from loadExitFromUnit_stamps [OF this] show ?thesis by simp
qed

end
