(* ===== verification/Outbox.thy ===== *)
theory Outbox
  imports Shim_Prelude "HOL-Library.Multiset"
begin

text \<open>
  Task events and their publication (\<open>events.go\<close>): the per-process outbox that holds an event
  until containerd can make sense of it, the hand-over to the shared channel (\<open>Service.send\<close>)
  and the loop that forwards the channel to containerd.
\<close>

subsection \<open>Task events\<close>

record task_mount =
  m_Type :: string
  m_Source :: string
  m_Target :: string
  m_Options :: "string list"

record task_io =
  io_Stdin :: string
  io_Stdout :: string
  io_Stderr :: string
  io_Terminal :: bool

text \<open>
  The message types of \<open>eventsapi\<close> the shim distinguishes, with the fields it sets, in order:
  container id, then exec id, bundle, rootfs, stdio, checkpoint, pid, exit status and exit time
  where the message has them. \<open>OtherEvent\<close> is any other value of the interface type.
\<close>

datatype task_event =
    TaskCreate string string "task_mount list" task_io string u32
  | TaskStart string u32
  | TaskOOM string
  | TaskExit string string u32 u32 time
  | TaskDelete string u32 u32 time
  | TaskExecAdded string string
  | TaskExecStarted string string u32
  | TaskPaused string
  | TaskResumed string
  | TaskCheckpointed string
  | OtherEvent

fun is_exit_event :: "task_event \<Rightarrow> bool" where
  "is_exit_event (TaskExit _ _ _ _ _) = True" | "is_exit_event _ = False"
fun is_delete_event :: "task_event \<Rightarrow> bool" where
  "is_delete_event (TaskDelete _ _ _ _) = True" | "is_delete_event _ = False"
fun is_create_event :: "task_event \<Rightarrow> bool" where
  "is_create_event (TaskCreate _ _ _ _ _ _) = True"
| "is_create_event (TaskExecAdded _ _) = True"
| "is_create_event _ = False"
fun is_start_event :: "task_event \<Rightarrow> bool" where
  "is_start_event (TaskStart _ _) = True"
| "is_start_event (TaskExecStarted _ _ _) = True"
| "is_start_event _ = False"

subsection \<open>The outbox\<close>

record eventOutbox =
  ob_ns :: string
  ob_known :: bool
  ob_started :: bool
  ob_deleted :: bool
  ob_held :: "task_event list"

definition newEventOutbox :: "string \<Rightarrow> eventOutbox" where
  "newEventOutbox ns =
     \<lparr>ob_ns = ns, ob_known = False, ob_started = False, ob_deleted = False, ob_held = []\<rparr>"

text \<open>
  The \<open>send\<close> the outbox is created with: handing one event over may fail; \<open>'c\<close> is the state
  of whatever is on the other side.
\<close>

type_synonym 'c sender = "string \<Rightarrow> task_event \<Rightarrow> 'c \<Rightarrow> bool \<times> 'c"

definition publishable :: "eventOutbox \<Rightarrow> task_event \<Rightarrow> bool" where
  "publishable ob evt =
     (if ob_deleted ob then False
      else case evt of
        TaskExit _ _ _ _ _ \<Rightarrow> ob_started ob
      | TaskDelete _ _ _ _ \<Rightarrow> ob_known ob
      | _ \<Rightarrow> True)"

definition ob_record :: "eventOutbox \<Rightarrow> task_event \<Rightarrow> eventOutbox" where
  "ob_record ob evt =
     (case evt of
        TaskCreate _ _ _ _ _ _ \<Rightarrow> ob\<lparr>ob_known := True\<rparr>
      | TaskExecAdded _ _ \<Rightarrow> ob\<lparr>ob_known := True\<rparr>
      | TaskStart _ _ \<Rightarrow> ob\<lparr>ob_started := True\<rparr>
      | TaskExecStarted _ _ _ \<Rightarrow> ob\<lparr>ob_started := True\<rparr>
      | TaskDelete _ _ _ _ \<Rightarrow> ob\<lparr>ob_deleted := True\<rparr>
      | _ \<Rightarrow> ob)"

text \<open>
  One pass of \<open>flush\<close> over the held events: what stays held, whether anything was sent,
  whether a send failed (which ends the pass and keeps the rest).
\<close>

fun flush_pass ::
  "'c sender \<Rightarrow> eventOutbox \<Rightarrow> task_event list \<Rightarrow> task_event list \<Rightarrow> bool \<Rightarrow> 'c
   \<Rightarrow> eventOutbox \<times> task_event list \<times> bool \<times> bool \<times> 'c" where
  "flush_pass send ob [] held sent c = (ob, held, sent, False, c)"
| "flush_pass send ob (evt # rest) held sent c =
     (if \<not> publishable ob evt then flush_pass send ob rest (held @ [evt]) sent c
      else case send (ob_ns ob) evt c of
             (False, c') \<Rightarrow> (ob, held @ evt # rest, sent, True, c')
           | (True, c') \<Rightarrow> flush_pass send (ob_record ob evt) rest held True c')"

lemma flush_pass_length:
  "flush_pass send ob evts held sent c = (ob', held', sent', stalled, c')
   \<Longrightarrow> length held' \<le> length held + length evts
     \<and> (sent' \<and> \<not> sent \<longrightarrow> length held' < length held + length evts)"
  by (induction send ob evts held sent c rule: flush_pass.induct)
     (fastforce split: if_splits prod.splits bool.splits)+

function flush :: "'c sender \<Rightarrow> eventOutbox \<Rightarrow> 'c \<Rightarrow> eventOutbox \<times> 'c" where
  "flush send ob c =
     (case flush_pass send ob (ob_held ob) [] False c of
        (ob', held, sent, stalled, c') \<Rightarrow>
          (let ob'' = ob'\<lparr>ob_held := held\<rparr>
           in if \<not> sent \<or> stalled then (ob'', c') else flush send ob'' c'))"
  by pat_completeness auto
termination
  by (relation "measure (\<lambda>(send, ob, c). length (ob_held ob))")
     (auto dest: flush_pass_length [OF sym])

declare flush.simps [simp del]

definition Send :: "'c sender \<Rightarrow> eventOutbox \<Rightarrow> task_event \<Rightarrow> 'c \<Rightarrow> eventOutbox \<times> 'c" where
  "Send send ob evt c = flush send (ob\<lparr>ob_held := ob_held ob @ [evt]\<rparr>) c"

subsection \<open>The shared channel and its consumer\<close>

type_synonym envelope = "string \<times> task_event"

text \<open>
  \<open>Service.send\<close>: the select either hands the envelope to the channel or gives up when the
  bounded wait ends; which of the two happens is decided by \<open>room\<close> on the outside state.
\<close>

definition Service_send ::
  "('w \<Rightarrow> bool \<times> 'w) \<Rightarrow> string \<Rightarrow> task_event \<Rightarrow> envelope list \<times> 'w \<Rightarrow> bool \<times> envelope list \<times> 'w" where
  "Service_send room ns e c =
     (case c of (chan, w) \<Rightarrow>
       (case room w of
          (True, w') \<Rightarrow> (True, chan @ [(ns, e)], w')
        | (False, w') \<Rightarrow> (False, chan, w')))"

datatype topic =
    TaskCreateEventTopic | TaskStartEventTopic | TaskOOMEventTopic | TaskExitEventTopic
  | TaskDeleteEventTopic | TaskExecAddedEventTopic | TaskExecStartedEventTopic
  | TaskPausedEventTopic | TaskResumedEventTopic | TaskCheckpointedEventTopic | TaskUnknownTopic

fun GetTopic :: "task_event \<Rightarrow> topic" where
  "GetTopic (TaskCreate _ _ _ _ _ _) = TaskCreateEventTopic"
| "GetTopic (TaskStart _ _) = TaskStartEventTopic"
| "GetTopic (TaskOOM _) = TaskOOMEventTopic"
| "GetTopic (TaskExit _ _ _ _ _) = TaskExitEventTopic"
| "GetTopic (TaskDelete _ _ _ _) = TaskDeleteEventTopic"
| "GetTopic (TaskExecAdded _ _) = TaskExecAddedEventTopic"
| "GetTopic (TaskExecStarted _ _ _) = TaskExecStartedEventTopic"
| "GetTopic (TaskPaused _) = TaskPausedEventTopic"
| "GetTopic (TaskResumed _) = TaskResumedEventTopic"
| "GetTopic (TaskCheckpointed _) = TaskCheckpointedEventTopic"
| "GetTopic OtherEvent = TaskUnknownTopic"

text \<open>
  \<open>Forward\<close> over the envelopes received until the channel is closed: every one is published in
  its namespace under its topic, an error of \<open>Publish\<close> is logged and does not stop the loop.
\<close>

fun Forward ::
  "(string \<Rightarrow> topic \<Rightarrow> task_event \<Rightarrow> 'p \<Rightarrow> err option \<times> 'p) \<Rightarrow> envelope list \<Rightarrow> 'p \<Rightarrow> 'p" where
  "Forward publish [] p = p"
| "Forward publish ((ns, e) # es) p =
     (case publish ns (GetTopic e) e p of (_, p') \<Rightarrow> Forward publish es p')"

subsection \<open>What a stream containerd can follow looks like\<close>

text \<open>
  \<open>legal ob evts\<close>: published one after the other from \<open>ob\<close>, every event has its precondition.
  \<open>containerd_order\<close> is the same requirement without the outbox: an exit follows a start, a
  delete follows a create, nothing follows a delete.
\<close>

fun legal :: "eventOutbox \<Rightarrow> task_event list \<Rightarrow> bool" where
  "legal ob [] \<longleftrightarrow> True"
| "legal ob (e # es) \<longleftrightarrow> publishable ob e \<and> legal (ob_record ob e) es"

definition containerd_order :: "task_event list \<Rightarrow> bool" where
  "containerd_order evts \<longleftrightarrow>
     (\<forall>pre e post. evts = pre @ e # post \<longrightarrow>
        list_all (\<lambda>x. \<not> is_delete_event x) pre
        \<and> (is_exit_event e \<longrightarrow> list_ex is_start_event pre)
        \<and> (is_delete_event e \<longrightarrow> list_ex is_create_event pre))"

abbreviation record_all :: "eventOutbox \<Rightarrow> task_event list \<Rightarrow> eventOutbox" where
  "record_all ob evts \<equiv> foldl ob_record ob evts"

lemma ob_record_fields [simp]:
  "ob_known (ob_record ob e) \<longleftrightarrow> ob_known ob \<or> is_create_event e"
  "ob_started (ob_record ob e) \<longleftrightarrow> ob_started ob \<or> is_start_event e"
  "ob_deleted (ob_record ob e) \<longleftrightarrow> ob_deleted ob \<or> is_delete_event e"
  "ob_ns (ob_record ob e) = ob_ns ob"
  "ob_held (ob_record ob e) = ob_held ob"
  by (auto simp: ob_record_def split: task_event.split)

lemma ob_record_held [simp]: "ob_record (ob\<lparr>ob_held := h\<rparr>) e = (ob_record ob e)\<lparr>ob_held := h\<rparr>"
  by (simp add: ob_record_def split: task_event.split)

lemma publishable_iff:
  "publishable ob e \<longleftrightarrow>
     \<not> ob_deleted ob \<and> (is_exit_event e \<longrightarrow> ob_started ob) \<and> (is_delete_event e \<longrightarrow> ob_known ob)"
  by (auto simp: publishable_def split: task_event.split)

lemma publishable_held [simp]: "publishable (ob\<lparr>ob_held := h\<rparr>) e = publishable ob e"
  by (simp add: publishable_iff)

lemma record_all_fields:
  "ob_known (record_all ob es) \<longleftrightarrow> ob_known ob \<or> list_ex is_create_event es"
  "ob_started (record_all ob es) \<longleftrightarrow> ob_started ob \<or> list_ex is_start_event es"
  "ob_deleted (record_all ob es) \<longleftrightarrow> ob_deleted ob \<or> list_ex is_delete_event es"
  "ob_ns (record_all ob es) = ob_ns ob"
  by (induction es arbitrary: ob) auto

lemma record_all_held [simp]:
  "record_all (ob\<lparr>ob_held := h\<rparr>) es = (record_all ob es)\<lparr>ob_held := h\<rparr>"
  by (induction es arbitrary: ob) auto

lemma legal_held [simp]: "legal (ob\<lparr>ob_held := h\<rparr>) es = legal ob es"
  by (induction es arbitrary: ob) auto

lemma legal_append: "legal ob (xs @ ys) \<longleftrightarrow> legal ob xs \<and> legal (record_all ob xs) ys"
  by (induction xs arbitrary: ob) auto

lemma legal_iff:
  "legal ob es \<longleftrightarrow>
     (\<forall>pre e post. es = pre @ e # post \<longrightarrow> publishable (record_all ob pre) e)"
proof (induction es rule: rev_induct)
  case Nil
  show ?case by simp
next
  case (snoc x xs)
  have "(\<forall>pre e post. xs @ [x] = pre @ e # post \<longrightarrow> publishable (record_all ob pre) e)
        \<longleftrightarrow> (\<forall>pre e post. xs = pre @ e # post \<longrightarrow> publishable (record_all ob pre) e)
            \<and> publishable (record_all ob xs) x"
    (is "?L \<longleftrightarrow> ?R")
  proof
    assume ?L
    then show ?R by (metis append.assoc append_Cons)
  next
    assume R: ?R
    show ?L
    proof (intro allI impI)
      fix pre e post
      assume "xs @ [x] = pre @ e # post"
      then show "publishable (record_all ob pre) e"
        using R by (cases post rule: rev_cases) auto
    qed
  qed
  then show ?case using snoc by (simp add: legal_append)
qed

lemma legal_new_iff: "legal (newEventOutbox ns) es \<longleftrightarrow> containerd_order es"
  unfolding legal_iff containerd_order_def
  by (simp add: publishable_iff record_all_fields newEventOutbox_def list_all_iff list_ex_iff)

subsection \<open>The contract of a sender, and what the outbox guarantees over it\<close>

text \<open>
  \<open>log\<close> is what has been handed over so far. A send that reports success appended exactly its
  event, one that reports failure appended nothing.
\<close>

locale publisher =
  fixes send :: "'c sender" and log :: "'c \<Rightarrow> envelope list"
  assumes send_ok: "send ns e c = (True, c') \<Longrightarrow> log c' = log c @ [(ns, e)]"
    and send_fail: "send ns e c = (False, c') \<Longrightarrow> log c' = log c"
begin

lemma flush_pass_spec:
  "flush_pass send ob evts held sent c = (ob', held', sent', stalled, c') \<Longrightarrow>
   \<exists>pub. log c' = log c @ map (Pair (ob_ns ob)) pub \<and> ob' = record_all ob pub \<and> legal ob pub
     \<and> mset held' + mset pub = mset held + mset evts \<and> (sent' \<longleftrightarrow> sent \<or> pub \<noteq> [])
     \<and> (pub = [] \<and> \<not> stalled \<longrightarrow> held' = held @ evts \<and> list_all (\<lambda>e. \<not> publishable ob e) evts)"
proof (induction evts arbitrary: ob held sent c)
  case Nil
  then show ?case by (auto intro: exI [of _ "[]"])
next
  case (Cons evt rest)
  show ?case
  proof (cases "publishable ob evt")
    case False
    with Cons.prems have "flush_pass send ob rest (held @ [evt]) sent c = (ob', held', sent', stalled, c')"
      by simp
    from Cons.IH [OF this] False show ?thesis by fastforce
  next
    case True
    obtain ok d where sd: "send (ob_ns ob) evt c = (ok, d)" by (cases "send (ob_ns ob) evt c")
    show ?thesis
    proof (cases ok)
      case False
      with sd True Cons.prems send_fail [of "ob_ns ob" evt c d] show ?thesis
        by (auto intro: exI [of _ "[]"])
    next
      case ok: True
      with sd True Cons.prems
      have "flush_pass send (ob_record ob evt) rest held True d = (ob', held', sent', stalled, c')"
        by simp
      from Cons.IH [OF this]
      obtain pub where pub: "log c' = log d @ map (Pair (ob_ns ob)) pub"
        "ob' = record_all (ob_record ob evt) pub" "legal (ob_record ob evt) pub"
        "mset held' + mset pub = mset held + mset rest" "sent'"
        by auto
      with True sd ok send_ok [of "ob_ns ob" evt c d] show ?thesis
        by (auto intro!: exI [of _ "evt # pub"])
    qed
  qed
qed

lemma flush_spec:
  "flush send ob c = (ob', c') \<Longrightarrow>
   \<exists>pub. log c' = log c @ map (Pair (ob_ns ob)) pub
     \<and> ob' = (record_all ob pub)\<lparr>ob_held := ob_held ob'\<rparr> \<and> legal ob pub
     \<and> mset (ob_held ob') + mset pub = mset (ob_held ob)"
proof (induction "length (ob_held ob)" arbitrary: ob c rule: less_induct)
  case less
  obtain o1 held sent stalled d
    where pass: "flush_pass send ob (ob_held ob) [] False c = (o1, held, sent, stalled, d)"
    by (metis prod_cases5)
  from flush_pass_spec [OF pass] obtain p1
    where p1: "log d = log c @ map (Pair (ob_ns ob)) p1" "o1 = record_all ob p1" "legal ob p1"
      "mset held + mset p1 = mset (ob_held ob)" by auto
  show ?case
  proof (cases "\<not> sent \<or> stalled")
    case True
    with less.prems pass p1 show ?thesis
      by (auto simp: flush.simps [of send ob c] intro!: exI [of _ p1])
  next
    case False
    with less.prems pass have "flush send (o1\<lparr>ob_held := held\<rparr>) d = (ob', c')"
      by (simp add: flush.simps [of send ob c])
    from less.hyps [OF _ this] flush_pass_length [OF pass] False p1
    obtain p2 where p2: "log c' = log d @ map (Pair (ob_ns ob)) p2"
      "ob' = (record_all ob (p1 @ p2))\<lparr>ob_held := ob_held ob'\<rparr>" "legal (record_all ob p1) p2"
      "mset (ob_held ob') + mset p2 = mset held"
      by (auto simp: record_all_fields)
    moreover from p1(4) p2(4) have "mset (ob_held ob') + mset (p1 @ p2) = mset (ob_held ob)"
      by (simp flip: p1(4) add: ac_simps)
    ultimately show ?thesis using p1
      by (auto intro!: exI [of _ "p1 @ p2"] simp: legal_append)
  qed
qed

lemma Send_spec:
  assumes "Send send ob e c = (ob', c')"
  obtains pub where "log c' = log c @ map (Pair (ob_ns ob)) pub"
    "ob' = (record_all ob pub)\<lparr>ob_held := ob_held ob'\<rparr>" "legal ob pub"
    "mset (ob_held ob') + mset pub = mset (ob_held ob) + {#e#}"
  using flush_spec [OF assms [unfolded Send_def]] that by auto

end

text \<open>A sender that always succeeds leaves nothing behind that could have been published.\<close>

locale live_publisher = publisher +
  assumes always_ok: "fst (send ns e c)"
begin

lemma flush_pass_live:
  "flush_pass send ob evts held sent c = (ob', held', sent', stalled, c') \<Longrightarrow> \<not> stalled"
proof (induction evts arbitrary: ob held sent c)
  case Nil
  then show ?case by simp
next
  case (Cons evt rest)
  then show ?case
    using always_ok [of "ob_ns ob" evt c]
    by (cases "send (ob_ns ob) evt c") (auto split: if_splits)
qed

lemma flush_live:
  "flush send ob c = (ob', c') \<Longrightarrow> list_all (\<lambda>e. \<not> publishable ob' e) (ob_held ob')"
proof (induction "length (ob_held ob)" arbitrary: ob c rule: less_induct)
  case less
  obtain o1 held sent stalled d
    where pass: "flush_pass send ob (ob_held ob) [] False c = (o1, held, sent, stalled, d)"
    by (metis prod_cases5)
  from flush_pass_live [OF pass] have ns: "\<not> stalled" .
  show ?case
  proof (cases sent)
    case True
    with less.prems pass ns have "flush send (o1\<lparr>ob_held := held\<rparr>) d = (ob', c')"
      by (simp add: flush.simps [of send ob c])
    with less.hyps [OF _ this] flush_pass_length [OF pass] True show ?thesis by simp
  next
    case False
    with flush_pass_spec [OF pass] ns
    have "held = ob_held ob" "o1 = ob" "list_all (\<lambda>e. \<not> publishable ob e) (ob_held ob)" by auto
    with less.prems pass False show ?thesis
      by (auto simp: flush.simps [of send ob c])
  qed
qed

end

lemma Service_send_publisher: "publisher (Service_send room) fst"
  by unfold_locales (auto simp: Service_send_def split: prod.splits bool.splits)

interpretation svc: publisher "Service_send room" fst for room
  by (rule Service_send_publisher)

interpretation svc_live: live_publisher "Service_send (Pair True)" fst
  by unfold_locales (simp add: Service_send_def split: prod.splits)

subsection \<open>Every interleaving of sends\<close>

text \<open>
  A process's outbox starts empty; any goroutine may send any event through it, and between two
  sends the rest of the shim and the outside change the channel state at will. The second
  component is what this outbox has published so far.
\<close>

inductive outbox_reach ::
  "('w \<Rightarrow> bool \<times> 'w) \<Rightarrow> string \<Rightarrow> eventOutbox \<Rightarrow> task_event list \<Rightarrow> envelope list \<times> 'w \<Rightarrow> bool"
  for room :: "'w \<Rightarrow> bool \<times> 'w" and ns :: string where
  fresh: "outbox_reach room ns (newEventOutbox ns) [] c"
| sends: "outbox_reach room ns ob pub c \<Longrightarrow> Send (Service_send room) ob e c = (ob', c') \<Longrightarrow>
     outbox_reach room ns ob' (pub @ map snd (drop (length (fst c)) (fst c'))) c'"
| others: "outbox_reach room ns ob pub c \<Longrightarrow> outbox_reach room ns ob pub c'"

lemma outbox_reach_legal:
  "outbox_reach room ns ob pub c \<Longrightarrow>
   (\<exists>h. ob = (record_all (newEventOutbox ns) pub)\<lparr>ob_held := h\<rparr>) \<and> legal (newEventOutbox ns) pub"
proof (induction rule: outbox_reach.induct)
  case (fresh c)
  show ?case by (auto simp: newEventOutbox_def)
next
  case (sends ob pub c e ob' c')
  from svc.Send_spec [OF sends.hyps(2)] obtain p h'
    where p: "fst c' = fst c @ map (Pair (ob_ns ob)) p"
      "ob' = (record_all ob p)\<lparr>ob_held := h'\<rparr>" "legal ob p" by metis
  from sends.IH obtain h where ob: "ob = (record_all (newEventOutbox ns) pub)\<lparr>ob_held := h\<rparr>"
    and l: "legal (newEventOutbox ns) pub" by auto
  from ob p(2) have "ob' = (record_all (newEventOutbox ns) (pub @ p))\<lparr>ob_held := h'\<rparr>" by simp
  moreover from ob p(3) have "legal (record_all (newEventOutbox ns) pub) p" by simp
  moreover have "map snd (drop (length (fst c)) (fst c')) = p"
    using p(1) by (simp add: comp_def)
  ultimately show ?case using l by (auto simp: legal_append)
next
  case (others ob pub c c')
  then show ?case by simp
qed

subsection \<open>Properties\<close>

text \<open>
  C13: whatever goroutines send through a process's outbox, in whatever order, and whichever of the
  hand-overs fail, the events it publishes form a stream containerd can follow: an exit only after a
  start, a delete only after a create, nothing after a delete.
\<close>

theorem outbox_stream_order:
  assumes "outbox_reach room ns ob pub c"
  shows "containerd_order pub"
  using outbox_reach_legal [OF assms] by (simp add: legal_new_iff)

text \<open>Witness: the exit observed before its start is published after it.\<close>

lemma exit_before_start_example:
  "Send (Service_send (Pair True)) (newEventOutbox ''ns'') (TaskExit ''c'' ''c'' 7 0 1) ([], ())
     = ((newEventOutbox ''ns'')\<lparr>ob_held := [TaskExit ''c'' ''c'' 7 0 1]\<rparr>, [], ())"
  "Send (Service_send (Pair True)) ((newEventOutbox ''ns'')\<lparr>ob_held := [TaskExit ''c'' ''c'' 7 0 1]\<rparr>)
       (TaskStart ''c'' 7) ([], ())
     = ((newEventOutbox ''ns'')\<lparr>ob_started := True\<rparr>,
        [(''ns'', TaskStart ''c'' 7), (''ns'', TaskExit ''c'' ''c'' 7 0 1)], ())"
  by (simp_all add: Send_def flush.simps newEventOutbox_def publishable_def ob_record_def Service_send_def)

theorem outbox_stream_order_witness:
  "containerd_order [TaskStart ''c'' 7, TaskExit ''c'' ''c'' 7 0 1]"
proof -
  have "outbox_reach (Pair True) ''ns'' ((newEventOutbox ''ns'')\<lparr>ob_started := True\<rparr>)
          [TaskStart ''c'' 7, TaskExit ''c'' ''c'' 7 0 1]
          ([(''ns'', TaskStart ''c'' 7), (''ns'', TaskExit ''c'' ''c'' 7 0 1)], ())"
    using outbox_reach.sends [OF outbox_reach.sends [OF outbox_reach.fresh
        exit_before_start_example(1)] exit_before_start_example(2)] by simp
  then show ?thesis by (rule outbox_stream_order)
qed

text \<open>
  One send neither loses nor duplicates an event: what it handed to the channel together with
  what is held afterwards is exactly what was held before together with the new event, and only
  this outbox's namespace is written to.
\<close>

theorem outbox_send_conserves:
  assumes "Send (Service_send room) ob e c = (ob', c')"
  shows "\<exists>pub. fst c' = fst c @ map (Pair (ob_ns ob)) pub
          \<and> mset (ob_held ob') + mset pub = mset (ob_held ob) + {#e#}"
  using svc.Send_spec [OF assms] by metis

theorem outbox_send_conserves_witness:
  "\<exists>pub. [(''ns'', TaskStart ''c'' 7), (''ns'', TaskExit ''c'' ''c'' 7 0 1)] = map (Pair ''ns'') pub
     \<and> mset pub = {# TaskStart ''c'' 7, TaskExit ''c'' ''c'' 7 0 1 #}"
  using outbox_send_conserves [OF exit_before_start_example(2)]
  by (simp add: newEventOutbox_def)

text \<open>
  When hand-overs succeed, a send publishes everything that has become publishable: no event
  that is still held afterwards meets its precondition.
\<close>

theorem outbox_send_complete:
  assumes "Send (Service_send (Pair True)) ob e c = (ob', c')" and "x \<in> set (ob_held ob')"
  shows "\<not> publishable ob' x"
  using svc_live.flush_live [OF assms(1) [unfolded Send_def]] assms(2)
  by (simp add: list_all_iff)

theorem outbox_send_complete_witness:
  "\<not> publishable ((newEventOutbox ''ns'')\<lparr>ob_held := [TaskExit ''c'' ''c'' 7 0 1]\<rparr>)
       (TaskExit ''c'' ''c'' 7 0 1)"
  by (rule outbox_send_complete [OF exit_before_start_example(1)]) simp

end
