(* ===== verification/Go_Strings.thy ===== *)
theory Go_Strings
  imports Shim_Prelude
begin

text \<open>
  The parts of Go's \<open>strconv\<close>, \<open>strings\<close> and \<open>path\<close> packages the shim uses: decimal formatting and
  parsing, trimming, and lexical path joining.
\<close>

subsection \<open>Decimal numbers\<close>

definition digit_char :: "nat \<Rightarrow> char" where
  "digit_char d = char_of (48 + d)"

fun show_nat :: "nat \<Rightarrow> string" where
  "show_nat n = (if n < 10 then [digit_char n] else show_nat (n div 10) @ [digit_char (n mod 10)])"

declare show_nat.simps [simp del]

definition show_int :: "int \<Rightarrow> string" where
  "show_int i = (if i < 0 then CHR ''-'' # show_nat (nat (- i)) else show_nat (nat i))"

definition FormatBool :: "bool \<Rightarrow> string" where
  "FormatBool b = (if b then ''true'' else ''false'')"

definition is_digit :: "char \<Rightarrow> bool" where
  "is_digit c \<longleftrightarrow> 48 \<le> (of_char c :: nat) \<and> (of_char c :: nat) \<le> 57"

definition digit_val :: "char \<Rightarrow> nat" where
  "digit_val c = of_char c - 48"

definition nat_of_digits :: "string \<Rightarrow> nat" where
  "nat_of_digits s = foldl (\<lambda>n c. 10 * n + digit_val c) 0 s"

text \<open>\<open>strconv.ParseUint(s, 10, bits)\<close>: digits only, not empty, in range.\<close>

definition ParseUint :: "nat \<Rightarrow> string \<Rightarrow> nat option" where
  "ParseUint bits s =
     (if s \<noteq> [] \<and> list_all is_digit s \<and> nat_of_digits s < 2 ^ bits then Some (nat_of_digits s) else None)"

text \<open>\<open>strconv.Atoi\<close> on a 64-bit platform: an optional sign, then digits, in the range of \<open>int64\<close>.\<close>

definition Atoi :: "string \<Rightarrow> int option" where
  "Atoi s =
     (let (neg, ds) = (case s of [] \<Rightarrow> (False, [])
                       | c # cs \<Rightarrow> if c = CHR ''-'' then (True, cs) else if c = CHR ''+'' then (False, cs)
                                 else (False, s));
          v = (if neg then - int (nat_of_digits ds) else int (nat_of_digits ds))
      in if ds \<noteq> [] \<and> list_all is_digit ds \<and> - (2 ^ 63) \<le> v \<and> v < 2 ^ 63 then Some v else None)"

lemma of_char_digit: "d < 10 \<Longrightarrow> (of_char (digit_char d) :: nat) = 48 + d"
  by (simp add: digit_char_def)

lemma digit_char_simps [simp]:
  "d < 10 \<Longrightarrow> is_digit (digit_char d)" "d < 10 \<Longrightarrow> digit_val (digit_char d) = d"
  by (simp_all add: is_digit_def digit_val_def of_char_digit)

lemma show_nat_digits: "list_all is_digit (show_nat n) \<and> show_nat n \<noteq> [] \<and> nat_of_digits (show_nat n) = n"
proof (induction n rule: show_nat.induct)
  case (1 n)
  show ?case
  proof (cases "n < 10")
    case True
    then show ?thesis by (simp add: show_nat.simps [of n] nat_of_digits_def)
  next
    case False
    with "1.IH" show ?thesis
      by (simp add: show_nat.simps [of n] nat_of_digits_def)
  qed
qed

lemma ParseUint_show_nat: "n < 2 ^ bits \<Longrightarrow> ParseUint bits (show_nat n) = Some n"
  using show_nat_digits [of n] by (simp add: ParseUint_def)

lemma show_nat_inject: "show_nat m = show_nat n \<longleftrightarrow> m = n"
  using show_nat_digits by metis

subsection \<open>Trimming\<close>

text \<open>The white space of ASCII text, which is all the shim trims.\<close>

definition is_space :: "char \<Rightarrow> bool" where
  "is_space c \<longleftrightarrow> c = CHR '' '' \<or> (9 \<le> (of_char c :: nat) \<and> (of_char c :: nat) \<le> 13)"

definition TrimRight :: "string \<Rightarrow> (char \<Rightarrow> bool) \<Rightarrow> string" where
  "TrimRight s P = rev (dropWhile P (rev s))"

definition TrimSpace :: "string \<Rightarrow> string" where
  "TrimSpace s = TrimRight (dropWhile is_space s) is_space"

text \<open>\<open>strings.HasPrefix\<close> and \<open>strings.Contains\<close>.\<close>

fun HasPrefix :: "string \<Rightarrow> string \<Rightarrow> bool" where
  "HasPrefix s [] = True"
| "HasPrefix [] (c # cs) = False"
| "HasPrefix (d # ds) (c # cs) = (d = c \<and> HasPrefix ds cs)"

fun Contains :: "string \<Rightarrow> string \<Rightarrow> bool" where
  "Contains [] sub = HasPrefix [] sub"
| "Contains (c # s) sub = (HasPrefix (c # s) sub \<or> Contains s sub)"

lemma HasPrefix_append [simp]: "HasPrefix (p @ s) p"
  by (induction p) simp_all

subsection \<open>Paths\<close>

fun split_slash :: "string \<Rightarrow> string \<Rightarrow> string list" where
  "split_slash acc [] = [rev acc]"
| "split_slash acc (c # cs) = (if c = CHR ''/'' then rev acc # split_slash [] cs else split_slash (c # acc) cs)"

text \<open>The elements a lexical \<open>path.Clean\<close> keeps; \<open>out\<close> is in reverse order.\<close>

fun clean_elems :: "bool \<Rightarrow> string list \<Rightarrow> string list \<Rightarrow> string list" where
  "clean_elems rooted out [] = rev out"
| "clean_elems rooted out (e # es) =
     (if e = '''' \<or> e = ''.'' then clean_elems rooted out es
      else if e = ''..'' then
        (case out of
           [] \<Rightarrow> if rooted then clean_elems rooted [] es else clean_elems rooted [''..''] es
         | x # xs \<Rightarrow> if x = ''..'' then clean_elems rooted (''..'' # out) es else clean_elems rooted xs es)
      else clean_elems rooted (e # out) es)"

fun join_slash :: "string list \<Rightarrow> string" where
  "join_slash [] = ''''"
| "join_slash [e] = e"
| "join_slash (e # es) = e @ ''/'' @ join_slash es"

definition path_Clean :: "string \<Rightarrow> string" where
  "path_Clean p =
     (if p = '''' then ''.''
      else let rooted = (hd p = CHR ''/'');
               body = join_slash (clean_elems rooted [] (split_slash [] p))
           in if rooted then ''/'' @ body else if body = '''' then ''.'' else body)"

definition path_Join :: "string list \<Rightarrow> string" where
  "path_Join es =
     (let ne = filter (\<lambda>e. e \<noteq> '''') es in if ne = [] then '''' else path_Clean (join_slash ne))"

text \<open>\<open>path.Base\<close>: the last element, trailing slashes removed.\<close>

definition path_Base :: "string \<Rightarrow> string" where
  "path_Base p =
     (if p = '''' then ''.''
      else let q = TrimRight p (\<lambda>c. c = CHR ''/'')
           in if q = '''' then ''/'' else last (split_slash [] q))"

text \<open>\<open>filepath.Dir\<close>: everything up to the last slash, cleaned.\<close>

definition path_Dir :: "string \<Rightarrow> string" where
  "path_Dir p = path_Clean (rev (dropWhile (\<lambda>c. c \<noteq> CHR ''/'') (rev p)))"

lemma split_slash_plain:
  "CHR ''/'' \<notin> set s \<Longrightarrow> split_slash acc s = [rev acc @ s]"
  by (induction s arbitrary: acc) auto

lemma split_slash_append:
  "CHR ''/'' \<notin> set s \<Longrightarrow> split_slash acc (s @ CHR ''/'' # t) = (rev acc @ s) # split_slash [] t"
  by (induction s arbitrary: acc) auto

text \<open>A path element that joining leaves as it is.\<close>

definition plain_elem :: "string \<Rightarrow> bool" where
  "plain_elem e \<longleftrightarrow> e \<noteq> '''' \<and> e \<noteq> ''.'' \<and> e \<noteq> ''..'' \<and> CHR ''/'' \<notin> set e"

lemma path_Join_plain2:
  assumes "plain_elem a" "plain_elem b"
  shows "path_Join [a, b] = a @ ''/'' @ b"
proof -
  have a: "a \<noteq> []" "b \<noteq> []" using assms by (simp_all add: plain_elem_def)
  have hd: "hd (a @ CHR ''/'' # b) \<noteq> CHR ''/''"
    using assms(1) by (cases a) (auto simp: plain_elem_def)
  have "split_slash [] (a @ CHR ''/'' # b) = [a, b]"
    using assms by (simp add: plain_elem_def split_slash_append split_slash_plain)
  moreover have "clean_elems False [] [a, b] = [a, b]"
    using assms by (simp add: plain_elem_def)
  ultimately have "path_Clean (a @ CHR ''/'' # b) = a @ CHR ''/'' # b"
    using a hd by (simp only: path_Clean_def Let_def) simp
  with a show ?thesis by (simp add: path_Join_def)
qed

lemma path_Join_inject:
  assumes "plain_elem a" "plain_elem b" "plain_elem c" "plain_elem d"
    and "path_Join [a, b] = path_Join [c, d]"
  shows "a = c \<and> b = d"
proof -
  have s: "split_slash [] (a @ CHR ''/'' # b) = [a, b]" "split_slash [] (c @ CHR ''/'' # d) = [c, d]"
    using assms by (simp_all add: plain_elem_def split_slash_append split_slash_plain)
  have "a @ CHR ''/'' # b = c @ CHR ''/'' # d"
    using assms(5) unfolding path_Join_plain2 [OF assms(1,2)] path_Join_plain2 [OF assms(3,4)] by simp
  then have "[a, b] = [c, d]" unfolding s [symmetric] by (rule arg_cong)
  then show ?thesis by simp
qed

end
