(* ===== verification/Process.thy ===== *)
theory Process
  imports Phase PState Outbox Go_Strings
begin

text \<open>
  A process of the shim (\<open>process.go\<close>, type \<open>process\<close>): its fields, the transitions of its
  lifecycle, the merge of an observation (\<open>applyState\<close>), and the guarantee that whatever goroutines
  observe an exit, in whatever order, exactly one of them reports it.
\<close>

subsection \<open>Fields\<close>

record CreateOptions =
  co_LogMode :: string
  co_SdNotifyEnable :: bool
  co_BinaryName :: string
  co_Root :: string
  co_NoPivotRoot :: bool
  co_OpenTcp :: bool
  co_ExternalUnixSockets :: bool
  co_Terminal :: bool
  co_FileLocks :: bool
  co_EmptyNamespaces :: "string list"
  co_CgroupsMode :: string
  co_NoNewKeyring :: bool
  co_IoUid :: u32
  co_IoGid :: u32
  co_CriuWorkPath :: string
  co_CriuImagePath :: string
  co_SystemdCgroup :: bool
  co_ShimCgroup :: string

text \<open>The fields of \<open>runc.Runc\<close> the shim sets.\<close>

record runc_config =
  rc_Debug :: bool
  rc_Command :: string
  rc_SystemdCgroup :: bool
  rc_Root :: string
  rc_Log :: string
  rc_WorkDir :: string

text \<open>
  The struct \<open>process\<close> is split in two: \<open>process_conf\<close> holds the fields the code assigns once, when it
  builds the value, and \<open>process\<close> the fields it changes afterwards. \<open>c_pinned\<close> says whether
  \<open>pinConn\<close> is set; the connections themselves are the outside the handlers talk to.
  \<open>p_ttyControl\<close> is the address of the tty control client, if there is one.
\<close>

record process_conf =
  c_ns :: string
  c_id :: string
  c_root :: string
  c_pathName :: string
  c_exe :: string
  c_Stdin :: string
  c_Stdout :: string
  c_Stderr :: string
  c_runc :: runc_config
  c_pinned :: bool
  c_shimCgroup :: string

record process =
  p_Terminal :: bool
  p_opts :: CreateOptions
  p_ttyControl :: "nat option"
  p_phase :: procPhase
  p_state :: pState
  p_deleting :: bool
  p_events :: eventOutbox
  p_systemdExitState :: pState
  p_hasSystemdExitState :: bool

subsection \<open>Lifecycle\<close>

definition advanceLocked :: "process \<Rightarrow> procPhase \<Rightarrow> (invalidTransitionError + bool) \<times> process" where
  "advanceLocked p next =
     (if \<not> canBecome (p_phase p) next
      then (Inl \<lparr>ite_from = p_phase p, ite_to = next\<rparr>, p)
      else if p_phase p = next then (Inr False, p)
      else (Inr True, p\<lparr>p_phase := next\<rparr>))"

text \<open>
  \<open>advance\<close> also wakes every waiter; a waiter re-reads the state when it wakes, so the broadcast
  leaves no trace in the state.
\<close>

definition advance :: "process \<Rightarrow> procPhase \<Rightarrow> (invalidTransitionError + bool) \<times> process" where
  "advance p next = advanceLocked p next"

definition beginStart :: "process \<Rightarrow> invalidTransitionError option \<times> process" where
  "beginStart p =
     (case advance p phaseStarting of (Inl e, p') \<Rightarrow> (Some e, p') | (Inr _, p') \<Rightarrow> (None, p'))"

definition abortStart :: "process \<Rightarrow> process" where
  "abortStart p = snd (advance p phaseCreated)"

definition currentPhase :: "process \<Rightarrow> procPhase" where
  "currentPhase p = p_phase p"

definition RecordSystemdExitState :: "process \<Rightarrow> pState \<Rightarrow> process" where
  "RecordSystemdExitState p state =
     (if \<not> p_hasSystemdExitState p \<or> After (ExitedAt state) (ExitedAt (p_systemdExitState p))
      then p\<lparr>p_systemdExitState := state, p_hasSystemdExitState := True\<rparr>
      else p)"

definition clearRecordedSystemdExitState :: "process \<Rightarrow> process" where
  "clearRecordedSystemdExitState p =
     p\<lparr>p_systemdExitState := pState_Reset, p_hasSystemdExitState := False\<rparr>"

definition loadRecordedSystemdExitState :: "process \<Rightarrow> pState \<times> bool" where
  "loadRecordedSystemdExitState p = (p_systemdExitState p, p_hasSystemdExitState p)"

definition ProcessState :: "process \<Rightarrow> pState" where
  "ProcessState p = CopyTo (p_state p) pState_zero"

definition process_Pid :: "process \<Rightarrow> u32" where
  "process_Pid p = Pid (p_state p)"

definition markDeleting :: "process \<Rightarrow> process" where
  "markDeleting p = p\<lparr>p_deleting := True\<rparr>"

definition isDeleting :: "process \<Rightarrow> bool" where
  "isDeleting p = p_deleting p"

subsection \<open>Merging an observation\<close>

record stateUpdate =
  su_state :: pState
  su_from :: procPhase
  su_to :: procPhase

definition justExited :: "stateUpdate \<Rightarrow> bool" where
  "justExited u \<longleftrightarrow> su_to u = phaseExited \<and> su_from u \<noteq> su_to u"

definition wasRunning :: "stateUpdate \<Rightarrow> bool" where
  "wasRunning u \<longleftrightarrow> su_from u = phaseRunning"

text \<open>\<open>now\<close> is the clock reading of the stamping branch.\<close>

definition applyState :: "process \<Rightarrow> time \<Rightarrow> pState \<Rightarrow> stateUpdate \<times> process" where
  "applyState p now state =
     (let fromPhase = p_phase p;
          state1 = (if p_phase p < phaseRunning \<and> toStatus (Status state) = Status_RUNNING
                    then state\<lparr>Status := ''created''\<rparr> else state);
          p1 = p\<lparr>p_state := CopyTo state1 (p_state p)\<rparr>;
          p2 = (if ExitCode (p_state p1) > 0 \<and> \<not> Exited (p_state p1)
                then p1\<lparr>p_state := (p_state p1)\<lparr>ExitedAt := now\<rparr>\<rparr> else p1);
          p3 = (if Exited (p_state p2) then snd (advanceLocked p2 phaseExited) else p2)
      in (\<lparr>su_state = CopyTo (p_state p3) state1, su_from = fromPhase, su_to = p_phase p3\<rparr>, p3))"

subsection \<open>Facts about the single operations\<close>

lemma advanceLocked_phase:
  "p_phase (snd (advanceLocked p q)) = (if canBecome (p_phase p) q then q else p_phase p)"
  "p_state (snd (advanceLocked p q)) = p_state p"
  "p_events (snd (advanceLocked p q)) = p_events p"
  "p_deleting (snd (advanceLocked p q)) = p_deleting p"
  by (simp_all add: advanceLocked_def)

lemma advance_frame [frame_simps]:
  "p_state (snd (advance p q)) = p_state p" "p_events (snd (advance p q)) = p_events p"
  "p_deleting (snd (advance p q)) = p_deleting p" "p_opts (snd (advance p q)) = p_opts p"
  "p_Terminal (snd (advance p q)) = p_Terminal p"
  by (simp_all add: advance_def advanceLocked_def)

lemma advance_phase:
  "p_phase (snd (advance p q)) = (if canBecome (p_phase p) q then q else p_phase p)"
  by (simp add: advance_def advanceLocked_phase)

lemma ProcessState_simps [simp]:
  "Exited (ProcessState p) = Exited (p_state p)" "Pid (ProcessState p) = Pid (p_state p)"
  "ExitCode (ProcessState p) = ExitCode (p_state p)"
  by (simp_all add: ProcessState_def CopyTo_zero)

lemma Exited_created [simp]:
  "toStatus (Status s) = Status_RUNNING \<Longrightarrow> Exited (s\<lparr>Status := ''created''\<rparr>) = Exited s"
  by (simp add: Exited_iff)

text \<open>The stamping branch is unreachable: a state with an exit code already counts as exited.\<close>

lemma applyState_eq:
  "applyState p now state =
     (let state1 = (if p_phase p < phaseRunning \<and> toStatus (Status state) = Status_RUNNING
                    then state\<lparr>Status := ''created''\<rparr> else state);
          st = CopyTo state1 (p_state p);
          ends = (Exited st \<and> p_phase p \<noteq> phaseDeleted)
      in (\<lparr>su_state = CopyTo st state1, su_from = p_phase p,
            su_to = (if ends then phaseExited else p_phase p)\<rparr>,
          if ends then p\<lparr>p_state := st, p_phase := phaseExited\<rparr> else p\<lparr>p_state := st\<rparr>))"
proof -
  define s1 where "s1 = (if p_phase p < phaseRunning \<and> toStatus (Status state) = Status_RUNNING
                         then state\<lparr>Status := ''created''\<rparr> else state)"
  have dead: "(ExitCode s > 0 \<and> \<not> Exited s) = False" for s
    by (simp add: Exited_iff word_gt_0)
  have adv: "p_phase q = phaseExited \<Longrightarrow> q\<lparr>p_phase := phaseExited\<rparr> = q" for q :: process
    by simp
  show ?thesis
    unfolding applyState_def Let_def s1_def [symmetric] dead if_False
    by (cases "p_phase p = phaseExited"; cases "p_phase p = phaseDeleted")
       (simp_all add: advanceLocked_def adv [symmetric])
qed

lemma applyState_Exited:
  "Exited (p_state (snd (applyState p now st))) \<longleftrightarrow> Exited (p_state p) \<or> Exited st"
  by (auto simp: applyState_eq Let_def)

lemma applyState_justExited:
  "justExited (fst (applyState p now st)) \<longleftrightarrow>
     (Exited (p_state p) \<or> Exited st) \<and> p_phase p \<noteq> phaseExited \<and> p_phase p \<noteq> phaseDeleted"
  by (auto simp: applyState_eq Let_def justExited_def)

lemma applyState_phase:
  "p_phase (snd (applyState p now st)) =
     (if (Exited (p_state p) \<or> Exited st) \<and> p_phase p \<noteq> phaseDeleted then phaseExited else p_phase p)"
  by (auto simp: applyState_eq Let_def)

lemma applyState_frame [frame_simps]:
  "p_events (snd (applyState p now st)) = p_events p" "p_deleting (snd (applyState p now st)) = p_deleting p"
  "p_opts (snd (applyState p now st)) = p_opts p" "p_Terminal (snd (applyState p now st)) = p_Terminal p"
  by (simp_all add: applyState_eq Let_def)

subsection \<open>Any interleaving of goroutines on one process\<close>

text \<open>
  Every method above runs under the process's lock, so a run of the shim is, for one process, a
  sequence of these atomic actions by any goroutines: the reactor's workers and the \<open>Wait\<close>,
  \<open>Start\<close> and \<open>Delete\<close> handlers merging observations, a start claiming, finishing or aborting, a
  delete marking and finishing. An action that has something to tell containerd leaves an event in
  \<open>ps_todo\<close>, which its goroutine hands to the outbox at some later point. \<open>ps_pub\<close> is what the
  outbox has published; \<open>ps_chan\<close> the channel and the outside, which others change at will.

  \<open>report\<close> is what \<open>SetState\<close> sends for the update that ended the process: one exit event, or
  nothing for an init helper that exited before its task existed.
\<close>

definition init_exit_report :: "string \<Rightarrow> pState \<Rightarrow> task_event list" where
  "init_exit_report pid_id st =
     (if Status st \<noteq> exitedInit then [TaskExit pid_id pid_id (Pid st) (ExitCode st) (ExitedAt st)] else [])"

definition exec_exit_report :: "string \<Rightarrow> string \<Rightarrow> pState \<Rightarrow> task_event list" where
  "exec_exit_report parent_id exec_id st =
     [TaskExit parent_id exec_id (Pid st) (ExitCode st) (ExitedAt st)]"

record 'w psys =
  ps_proc :: process
  ps_todo :: "task_event list"
  ps_pub :: "task_event list"
  ps_chan :: "envelope list \<times> 'w"

datatype paction =
    AObserve time pState
  | ABeginStart | AAbortStart | AFinishStart
  | AMarkDeleting | AFinishDelete "string"
  | ARecord pState | AClear | ASetPid u32
  | AAnnounce task_event
  | AHandOver nat
  | AOthers

inductive proc_step ::
  "('w \<Rightarrow> bool \<times> 'w) \<Rightarrow> (pState \<Rightarrow> task_event list) \<Rightarrow> 'w psys \<Rightarrow> paction \<Rightarrow> 'w psys \<Rightarrow> bool"
  for room :: "'w \<Rightarrow> bool \<times> 'w" and report :: "pState \<Rightarrow> task_event list" where
  observe: "applyState (ps_proc s) now st = (u, p') \<Longrightarrow>
     proc_step room report s (AObserve now st)
       (s\<lparr>ps_proc := p', ps_todo := ps_todo s @ (if justExited u then report (su_state u) else [])\<rparr>)"
| begin_start: "beginStart (ps_proc s) = (e, p') \<Longrightarrow> proc_step room report s ABeginStart (s\<lparr>ps_proc := p'\<rparr>)"
| abort_start: "proc_step room report s AAbortStart (s\<lparr>ps_proc := abortStart (ps_proc s)\<rparr>)"
| finish_start: "proc_step room report s AFinishStart (s\<lparr>ps_proc := snd (advance (ps_proc s) phaseRunning)\<rparr>)"
| mark_deleting: "proc_step room report s AMarkDeleting (s\<lparr>ps_proc := markDeleting (ps_proc s)\<rparr>)"
| finish_delete: "advance (ps_proc s) phaseDeleted = (r, p') \<Longrightarrow>
     proc_step room report s (AFinishDelete cid)
       (s\<lparr>ps_proc := p', ps_todo := ps_todo s @
            (if r = Inr True then [TaskDelete cid (Pid (ProcessState p')) (ExitCode (ProcessState p'))
                                     (ExitedAt (ProcessState p'))] else [])\<rparr>)"
| record_exit: "proc_step room report s (ARecord st) (s\<lparr>ps_proc := RecordSystemdExitState (ps_proc s) st\<rparr>)"
| clear_exit: "proc_step room report s AClear (s\<lparr>ps_proc := clearRecordedSystemdExitState (ps_proc s)\<rparr>)"
| set_pid: "proc_step room report s (ASetPid pid)
     (s\<lparr>ps_proc := (ps_proc s)\<lparr>p_state := (p_state (ps_proc s))\<lparr>Pid := pid\<rparr>\<rparr>\<rparr>)"
| announce: "is_create_event e \<or> is_start_event e \<Longrightarrow>
     proc_step room report s (AAnnounce e) (s\<lparr>ps_todo := ps_todo s @ [e]\<rparr>)"
| hand_over: "i < length (ps_todo s) \<Longrightarrow>
     Send (Service_send room) (p_events (ps_proc s)) (ps_todo s ! i) (ps_chan s) = (ob', c') \<Longrightarrow>
     proc_step room report s (AHandOver i)
       (s\<lparr>ps_proc := (ps_proc s)\<lparr>p_events := ob'\<rparr>, ps_chan := c',
          ps_todo := take i (ps_todo s) @ drop (Suc i) (ps_todo s),
          ps_pub := ps_pub s @ map snd (drop (length (fst (ps_chan s))) (fst c'))\<rparr>)"
| others: "proc_step room report s AOthers (s\<lparr>ps_chan := c'\<rparr>)"

text \<open>A process begins in the created phase with a zero state and an empty outbox.\<close>

definition fresh_process :: "string \<Rightarrow> process \<Rightarrow> bool" where
  "fresh_process ns p \<longleftrightarrow> p_phase p = phaseCreated \<and> p_state p = pState_zero
     \<and> p_events p = newEventOutbox ns"

inductive proc_reach ::
  "('w \<Rightarrow> bool \<times> 'w) \<Rightarrow> (pState \<Rightarrow> task_event list) \<Rightarrow> 'w psys \<Rightarrow> bool"
  for room :: "'w \<Rightarrow> bool \<times> 'w" and report :: "pState \<Rightarrow> task_event list" where
  init: "fresh_process ns p \<Longrightarrow>
     proc_reach room report \<lparr>ps_proc = p, ps_todo = [], ps_pub = [], ps_chan = c\<rparr>"
| step: "proc_reach room report s \<Longrightarrow> proc_step room report s a s' \<Longrightarrow> proc_reach room report s'"

text \<open>All events of a kind that exist anywhere between the process and the channel.\<close>

definition in_flight :: "'w psys \<Rightarrow> task_event multiset" where
  "in_flight s = mset (ps_todo s) + mset (ob_held (p_events (ps_proc s))) + mset (ps_pub s)"

definition count_kind :: "(task_event \<Rightarrow> bool) \<Rightarrow> 'w psys \<Rightarrow> nat" where
  "count_kind P s = size (filter_mset P (in_flight s))"

definition lifecycle_inv :: "'w psys \<Rightarrow> bool" where
  "lifecycle_inv s \<longleftrightarrow>
     (let p = ps_proc s in
      (Exited (p_state p) \<longrightarrow> p_phase p = phaseExited \<or> p_phase p = phaseDeleted)
      \<and> (p_phase p = phaseExited \<longrightarrow> Exited (p_state p))
      \<and> count_kind is_exit_event s \<le> (if p_phase p = phaseExited \<or> p_phase p = phaseDeleted then 1 else 0)
      \<and> count_kind is_delete_event s \<le> (if p_phase p = phaseDeleted then 1 else 0))"

definition exit_report :: "(pState \<Rightarrow> task_event list) \<Rightarrow> bool" where
  "exit_report report \<longleftrightarrow> (\<forall>st. length (report st) \<le> 1 \<and> list_all is_exit_event (report st))"

lemma exit_report_init: "exit_report (init_exit_report i)"
  and exit_report_exec: "exit_report (exec_exit_report i j)"
  by (simp_all add: exit_report_def init_exit_report_def exec_exit_report_def)

lemma kinds_disjoint:
  "is_exit_event e \<Longrightarrow> \<not> is_delete_event e" "is_create_event e \<Longrightarrow> \<not> is_exit_event e \<and> \<not> is_delete_event e"
  "is_start_event e \<Longrightarrow> \<not> is_exit_event e \<and> \<not> is_delete_event e"
  by (cases e; simp)+

lemma report_counts:
  assumes "exit_report report"
  shows "size (filter_mset is_exit_event (mset (report st))) \<le> 1"
    "filter_mset is_delete_event (mset (report st)) = {#}"
proof -
  from assms have l: "length (report st) \<le> 1" "list_all is_exit_event (report st)"
    by (simp_all add: exit_report_def)
  show "size (filter_mset is_exit_event (mset (report st))) \<le> 1"
    using l(1) size_filter_mset_lesseq [of is_exit_event "mset (report st)"] by simp
  show "filter_mset is_delete_event (mset (report st)) = {#}"
    using l(2) by (auto simp: filter_empty_conv list_all_iff dest: kinds_disjoint(1) simp flip: mset_filter)
qed

lemma count_kind_todo [simp]:
  "count_kind P (s\<lparr>ps_todo := ps_todo s @ es\<rparr>) = count_kind P s + size (filter_mset P (mset es))"
  by (simp add: count_kind_def in_flight_def)

lemma count_kind_proc [simp]:
  "p_events p' = p_events (ps_proc s) \<Longrightarrow> count_kind P (s\<lparr>ps_proc := p'\<rparr>) = count_kind P s"
  by (simp add: count_kind_def in_flight_def)

lemma count_kind_proc_todo [simp]:
  "p_events p' = p_events (ps_proc s) \<Longrightarrow>
   count_kind P (s\<lparr>ps_proc := p', ps_todo := ps_todo s @ es\<rparr>) = count_kind P s + size (filter_mset P (mset es))"
  by (simp add: count_kind_def in_flight_def)

lemma hand_over_in_flight:
  assumes "i < length (ps_todo s)"
    and "Send (Service_send room) (p_events (ps_proc s)) (ps_todo s ! i) (ps_chan s) = (ob', c')"
  shows "in_flight (s\<lparr>ps_proc := (ps_proc s)\<lparr>p_events := ob'\<rparr>, ps_chan := c',
          ps_todo := take i (ps_todo s) @ drop (Suc i) (ps_todo s),
          ps_pub := ps_pub s @ map snd (drop (length (fst (ps_chan s))) (fst c'))\<rparr>) = in_flight s"
proof -
  from svc.Send_spec [OF assms(2)] obtain pub
    where c: "fst c' = fst (ps_chan s) @ map (Pair (ob_ns (p_events (ps_proc s)))) pub"
      and m: "mset (ob_held ob') + mset pub = mset (ob_held (p_events (ps_proc s))) + {#ps_todo s ! i#}"
    by metis
  have t: "mset (ps_todo s) = mset (take i (ps_todo s) @ drop (Suc i) (ps_todo s)) + {#ps_todo s ! i#}"
    using arg_cong [OF id_take_nth_drop [OF assms(1)], of mset] by simp
  have "map snd (drop (length (fst (ps_chan s))) (fst c')) = pub" using c by (simp add: comp_def)
  with m t show ?thesis by (simp add: in_flight_def ac_simps)
qed

lemma advance_deleted: "advance p phaseDeleted = (r, p') \<Longrightarrow>
  p' = p\<lparr>p_phase := phaseDeleted\<rparr> \<and> (r = Inr True \<longleftrightarrow> p_phase p \<noteq> phaseDeleted)"
  by (auto simp: advance_def advanceLocked_def split: if_splits)

lemma RecordSystemdExitState_frame [frame_simps]:
  "p_phase (RecordSystemdExitState p st) = p_phase p" "p_state (RecordSystemdExitState p st) = p_state p"
  "p_events (RecordSystemdExitState p st) = p_events p"
  by (simp_all add: RecordSystemdExitState_def)

lemma beginStart_proc: "beginStart p = (e, p') \<Longrightarrow> p' = snd (advance p phaseStarting)"
  by (auto simp: beginStart_def split: prod.splits sum.splits)

lemma lifecycle_step_inv:
  assumes "proc_step room report s a s'" and "exit_report report" and "lifecycle_inv s"
  shows "lifecycle_inv s'"
  using assms
proof (induction rule: proc_step.induct)
  case (observe s now st u p')
  have p': "p' = snd (applyState (ps_proc s) now st)" and u: "u = fst (applyState (ps_proc s) now st)"
    using observe.hyps by simp_all
  have je: "justExited u \<longleftrightarrow> (Exited (p_state (ps_proc s)) \<or> Exited st)
      \<and> p_phase (ps_proc s) \<noteq> phaseExited \<and> p_phase (ps_proc s) \<noteq> phaseDeleted"
    by (simp add: u applyState_justExited)
  show ?case
    using observe.prems report_counts [OF observe.prems(1), of "su_state u"] je
    by (auto simp: lifecycle_inv_def Let_def p' frame_simps applyState_phase applyState_Exited)
next
  case (begin_start s e p')
  then show ?case
    by (auto simp: beginStart_proc [OF begin_start.hyps] lifecycle_inv_def Let_def frame_simps advance_phase)
next
  case (finish_delete s r p' cid)
  from advance_deleted [OF finish_delete.hyps] finish_delete.prems show ?case
    by (auto simp: lifecycle_inv_def Let_def)
next
  case (announce e s)
  then show ?case by (auto simp: lifecycle_inv_def Let_def dest: kinds_disjoint)
next
  case (hand_over i s ob' c')
  then show ?case by (simp add: lifecycle_inv_def Let_def count_kind_def hand_over_in_flight)
next
  case (others s c')
  then show ?case by (simp add: lifecycle_inv_def Let_def count_kind_def in_flight_def)
qed (auto simp: lifecycle_inv_def Let_def frame_simps advance_phase abortStart_def markDeleting_def
      clearRecordedSystemdExitState_def)

lemma lifecycle_reachable_inv:
  assumes "proc_reach room report s" and "exit_report report"
  shows "lifecycle_inv s"
  using assms
proof (induction rule: proc_reach.induct)
  case (init ns p c)
  then show ?case
    by (simp add: lifecycle_inv_def fresh_process_def count_kind_def in_flight_def newEventOutbox_def)
next
  case (step s a s')
  then show ?case using lifecycle_step_inv by blast
qed

text \<open>The process's outbox only ever moves by sends, so its published stream is an outbox stream.\<close>

lemma keeps_events:
  "applyState p now st = (u, p') \<Longrightarrow> p_events p' = p_events p"
  "beginStart p = (e, p') \<Longrightarrow> p_events p' = p_events p"
  "advance p q = (r, p') \<Longrightarrow> p_events p' = p_events p"
  using applyState_frame(1) [of p now st] beginStart_proc [of p e p'] advance_frame(2) [of p]
  by (metis snd_conv)+


lemma proc_reach_outbox:
  "proc_reach room report s \<Longrightarrow>
   \<exists>ns. outbox_reach room ns (p_events (ps_proc s)) (ps_pub s) (ps_chan s)"
proof (induction rule: proc_reach.induct)
  case (init ns p c)
  then show ?case by (auto simp: fresh_process_def intro: outbox_reach.fresh)
next
  case (step s a s')
  then obtain ns where ns: "outbox_reach room ns (p_events (ps_proc s)) (ps_pub s) (ps_chan s)" by blast
  from step.hyps(2) show ?case
  proof cases
    case (hand_over i ob' c')
    with outbox_reach.sends [OF ns hand_over(4)] show ?thesis by auto
  next
    case (others c')
    with outbox_reach.others [OF ns, of c'] show ?thesis by auto
  next
    case (observe now st u p')
    with ns keeps_events(1) show ?thesis by fastforce
  next
    case (begin_start e p')
    with ns keeps_events(2) show ?thesis by fastforce
  next
    case (finish_delete r p' cid)
    with ns keeps_events(3) show ?thesis by fastforce
  qed (use ns in \<open>auto simp: frame_simps abortStart_def markDeleting_def clearRecordedSystemdExitState_def\<close>)
qed

text \<open>A process that has ended stays ended.\<close>

lemma proc_step_ended:
  "proc_step room report s a s' \<Longrightarrow>
   (p_phase (ps_proc s) = phaseDeleted \<longrightarrow> p_phase (ps_proc s') = phaseDeleted)
   \<and> (p_phase (ps_proc s) = phaseExited \<longrightarrow>
        p_phase (ps_proc s') = phaseExited \<or> p_phase (ps_proc s') = phaseDeleted)"
proof (induction rule: proc_step.induct)
  case (observe s now st u p')
  then have "p' = snd (applyState (ps_proc s) now st)" by simp
  then show ?case by (simp add: applyState_phase)
next
  case (begin_start s e p')
  show ?case by (simp add: beginStart_proc [OF begin_start] advance_phase)
next
  case (finish_delete s r p' cid)
  from advance_deleted [OF finish_delete.hyps] show ?case by simp
qed (simp_all add: frame_simps advance_phase abortStart_def markDeleting_def clearRecordedSystemdExitState_def)

inductive proc_steps ::
  "('w \<Rightarrow> bool \<times> 'w) \<Rightarrow> (pState \<Rightarrow> task_event list) \<Rightarrow> 'w psys \<Rightarrow> 'w psys \<Rightarrow> bool"
  for room :: "'w \<Rightarrow> bool \<times> 'w" and report :: "pState \<Rightarrow> task_event list" where
  steps_refl: "proc_steps room report s s"
| steps_step: "proc_step room report s a t \<Longrightarrow> proc_steps room report t u \<Longrightarrow> proc_steps room report s u"

lemma proc_steps_ended:
  "proc_steps room report s t \<Longrightarrow> p_phase (ps_proc s) = phaseExited \<or> p_phase (ps_proc s) = phaseDeleted
   \<Longrightarrow> p_phase (ps_proc t) = phaseExited \<or> p_phase (ps_proc t) = phaseDeleted"
  by (induction rule: proc_steps.induct) (use proc_step_ended in blast)+

lemma beginStart_ok: "fst (beginStart p) = None \<longleftrightarrow> p_phase p = phaseCreated"
  by (auto simp: beginStart_def advance_def advanceLocked_def)

text \<open>A concrete run: the exit of the workload is observed before its start is announced.\<close>

definition blank_options :: CreateOptions where
  "blank_options = \<lparr>co_LogMode = '''', co_SdNotifyEnable = False, co_BinaryName = '''', co_Root = '''',
     co_NoPivotRoot = False, co_OpenTcp = False, co_ExternalUnixSockets = False, co_Terminal = False,
     co_FileLocks = False, co_EmptyNamespaces = [], co_CgroupsMode = '''', co_NoNewKeyring = False,
     co_IoUid = 0, co_IoGid = 0, co_CriuWorkPath = '''', co_CriuImagePath = '''',
     co_SystemdCgroup = False, co_ShimCgroup = ''''\<rparr>"

definition blank_process :: "string \<Rightarrow> process" where
  "blank_process ns = \<lparr>p_Terminal = False, p_opts = blank_options, p_ttyControl = None,
     p_phase = phaseCreated, p_state = pState_zero, p_deleting = False, p_events = newEventOutbox ns,
     p_systemdExitState = pState_zero, p_hasSystemdExitState = False\<rparr>"

abbreviation exit_obs :: pState where
  "exit_obs \<equiv> \<lparr>ExitedAt = 1, ExitCode = 0, Pid = 7, Status = ''exited''\<rparr>"

lemma early_exit_observe:
  "applyState (blank_process ''ns'') 0 exit_obs =
     (\<lparr>su_state = exit_obs, su_from = phaseCreated, su_to = phaseExited\<rparr>,
      (blank_process ''ns'')\<lparr>p_state := exit_obs, p_phase := phaseExited\<rparr>)"
  by (simp add: applyState_eq blank_process_def pState_zero_def CopyTo_def Let_def toStatus_def Exited_iff
      go_zero_time_def)

lemma early_exit_run:
  "proc_reach (Pair True) (init_exit_report ''c'')
     \<lparr>ps_proc = (blank_process ''ns'')\<lparr>p_state := exit_obs, p_phase := phaseExited,
                   p_events := (newEventOutbox ''ns'')\<lparr>ob_started := True\<rparr>\<rparr>,
      ps_todo = [], ps_pub = [TaskStart ''c'' 7, TaskExit ''c'' ''c'' 7 0 1],
      ps_chan = ([(''ns'', TaskStart ''c'' 7), (''ns'', TaskExit ''c'' ''c'' 7 0 1)], ())\<rparr>"
proof -
  let ?R = "proc_reach (Pair True) (init_exit_report ''c'')"
  let ?p = "(blank_process ''ns'')\<lparr>p_state := exit_obs, p_phase := phaseExited\<rparr>"
  let ?ob = "(newEventOutbox ''ns'')\<lparr>ob_held := [TaskExit ''c'' ''c'' 7 0 1]\<rparr>"
  have "?R \<lparr>ps_proc = blank_process ''ns'', ps_todo = [], ps_pub = [], ps_chan = ([], ())\<rparr>"
    by (rule proc_reach.init) (simp add: fresh_process_def blank_process_def)
  from proc_reach.step [OF this proc_step.observe, of 0 exit_obs]
  have "?R \<lparr>ps_proc = ?p, ps_todo = [TaskExit ''c'' ''c'' 7 0 1], ps_pub = [], ps_chan = ([], ())\<rparr>"
    by (simp add: early_exit_observe justExited_def init_exit_report_def exitedInit_def)
  from proc_reach.step [OF this proc_step.hand_over, of 0 ?ob "([], ())"]
  have "?R \<lparr>ps_proc = ?p\<lparr>p_events := ?ob\<rparr>, ps_todo = [], ps_pub = [], ps_chan = ([], ())\<rparr>"
    using exit_before_start_example(1) by (simp add: blank_process_def)
  from proc_reach.step [OF this proc_step.announce, of "TaskStart ''c'' 7"]
  have "?R \<lparr>ps_proc = ?p\<lparr>p_events := ?ob\<rparr>, ps_todo = [TaskStart ''c'' 7], ps_pub = [], ps_chan = ([], ())\<rparr>"
    by simp
  from proc_reach.step [OF this proc_step.hand_over, of 0 "(newEventOutbox ''ns'')\<lparr>ob_started := True\<rparr>"
      "([(''ns'', TaskStart ''c'' 7), (''ns'', TaskExit ''c'' ''c'' 7 0 1)], ())"]
  show ?thesis using exit_before_start_example(2) by (simp add: blank_process_def)
qed

subsection \<open>Properties\<close>

text \<open>
  C1: whatever goroutines do to a task's init process, in any order, containerd is told of at most
  one exit and at most one delete of it, and the whole published stream is one containerd can
  follow (exit after start, delete after create, nothing after delete).
\<close>

theorem exit_published_once:
  assumes "proc_reach room (init_exit_report i) s"
  shows "length (filter is_exit_event (ps_pub s)) \<le> 1
       \<and> length (filter is_delete_event (ps_pub s)) \<le> 1 \<and> containerd_order (ps_pub s)"
proof -
  have bound: "length (filter P (ps_pub s)) \<le> count_kind P s" for P
    by (simp add: count_kind_def in_flight_def flip: size_mset mset_filter)
  from lifecycle_reachable_inv [OF assms exit_report_init]
  have "count_kind is_exit_event s \<le> 1" "count_kind is_delete_event s \<le> 1"
    by (auto simp: lifecycle_inv_def Let_def split: if_splits)
  with bound [of is_exit_event] bound [of is_delete_event] proc_reach_outbox [OF assms]
  show ?thesis using outbox_reach_legal legal_new_iff by fastforce
qed

theorem exit_published_once_witness:
  "length (filter is_exit_event [TaskStart ''c'' 7, TaskExit ''c'' ''c'' 7 0 1]) \<le> 1
   \<and> length (filter is_delete_event [TaskStart ''c'' 7, TaskExit ''c'' ''c'' 7 0 1]) \<le> 1
   \<and> containerd_order [TaskStart ''c'' 7, TaskExit ''c'' ''c'' 7 0 1]"
  using exit_published_once [OF early_exit_run] by simp

text \<open>
  The observation and the phase never disagree. In every reachable state, a process whose merged
  state is terminal is in the exited or the deleted phase, and one in the exited phase has a terminal
  state.
\<close>

theorem terminal_iff_phase:
  assumes "proc_reach room (init_exit_report i) s"
  shows "(Exited (p_state (ps_proc s)) \<longrightarrow> phaseExited \<le> p_phase (ps_proc s))
       \<and> (p_phase (ps_proc s) = phaseExited \<longrightarrow> Exited (p_state (ps_proc s)))"
  using lifecycle_reachable_inv [OF assms exit_report_init]
  by (auto simp: lifecycle_inv_def Let_def less_eq_procPhase_def)

theorem terminal_iff_phase_witness: "Exited exit_obs \<and> phaseExited \<le> phaseExited"
  using terminal_iff_phase [OF early_exit_run] by simp

text \<open>
  C18: the start gate. A start is admitted exactly in the created phase; it leaves the process claimed,
  so a second start is refused until the claim is handed back; and once the process has exited or
  been deleted, no later start is admitted, whatever happens in between. A refusal is a failed
  precondition and changes nothing.
\<close>

theorem start_gate:
  "(beginStart p = (None, p') \<longrightarrow>
      p_phase p = phaseCreated \<and> p_phase p' = phaseStarting \<and> fst (beginStart p') \<noteq> None
      \<and> fst (beginStart (abortStart p')) = None)
   \<and> (p_phase p = phaseCreated \<longrightarrow> fst (beginStart p) = None)
   \<and> (beginStart p = (Some e, p') \<longrightarrow> p' = p \<and> ite_Unwrap e = ErrFailedPrecondition)
   \<and> (proc_steps room report s t \<and> phaseExited \<le> p_phase (ps_proc s) \<longrightarrow>
        fst (beginStart (ps_proc t)) \<noteq> None)"
proof -
  have "fst (beginStart (ps_proc t)) \<noteq> None"
    if "proc_steps room report s t" "phaseExited \<le> p_phase (ps_proc s)"
  proof -
    from that(2) have "p_phase (ps_proc s) = phaseExited \<or> p_phase (ps_proc s) = phaseDeleted"
      by (cases "p_phase (ps_proc s)") (simp_all add: less_eq_procPhase_def)
    from proc_steps_ended [OF that(1) this] show ?thesis by (auto simp: beginStart_ok)
  qed
  then show ?thesis
    by (auto simp: beginStart_def abortStart_def advance_def advanceLocked_def ite_Unwrap_def split: if_splits)
qed

theorem start_gate_witness:
  "p_phase (snd (beginStart (blank_process ''ns''))) = phaseStarting
   \<and> fst (beginStart (snd (beginStart (blank_process ''ns'')))) \<noteq> None"
  using start_gate [of "blank_process ''ns''" "snd (beginStart (blank_process ''ns''))"]
  by (simp add: beginStart_def advance_def advanceLocked_def blank_process_def)

end
