(* ===== verification/WorkQueue.thy ===== *)
theory WorkQueue
  imports Shim_Prelude
begin

text \<open>
  The work queue of the event reactor (\<open>unitworkqueue.go\<close>): the concrete operations, the
  set-level queue they implement, the interface the reactor relies on, and the guarantees over
  every interleaving of producers, workers and retry timers.
\<close>

subsection \<open>State and operations\<close>

record unitWorkQueue =
  wq_queue :: "string list"
  wq_dirty :: "string set"
  wq_processing :: "string set"
  wq_failures :: "(string \<times> int) list"
  wq_shutdown :: bool
  wq_timers :: "(string \<times> i64) list"

text \<open>
  \<open>wq_timers\<close> are the goroutines \<open>AddAfter\<close> has started and that still wait for their delay.
\<close>

definition newUnitWorkQueue :: unitWorkQueue where
  "newUnitWorkQueue =
     \<lparr>wq_queue = [], wq_dirty = {}, wq_processing = {}, wq_failures = [], wq_shutdown = False,
      wq_timers = []\<rparr>"

definition wq_Add :: "unitWorkQueue \<Rightarrow> string \<Rightarrow> unitWorkQueue" where
  "wq_Add q name =
     (if wq_shutdown q then q
      else if name \<in> wq_dirty q then q
      else let q1 = q\<lparr>wq_dirty := insert name (wq_dirty q)\<rparr>
           in if name \<in> wq_processing q1 then q1
              else q1\<lparr>wq_queue := wq_queue q1 @ [name]\<rparr>)"

definition wq_AddAfter :: "unitWorkQueue \<Rightarrow> string \<Rightarrow> i64 \<Rightarrow> unitWorkQueue" where
  "wq_AddAfter q name delay =
     (if sint delay \<le> 0 then wq_Add q name
      else q\<lparr>wq_timers := wq_timers q @ [(name, delay)]\<rparr>)"

text \<open>The goroutine's select: its timer fires, or the queue was shut down first.\<close>

definition wq_timer_fires :: "unitWorkQueue \<Rightarrow> nat \<Rightarrow> unitWorkQueue" where
  "wq_timer_fires q i =
     (if i < length (wq_timers q)
      then wq_Add (q\<lparr>wq_timers := take i (wq_timers q) @ drop (Suc i) (wq_timers q)\<rparr>)
                  (fst (wq_timers q ! i))
      else q)"

definition wq_timer_abandoned :: "unitWorkQueue \<Rightarrow> nat \<Rightarrow> unitWorkQueue" where
  "wq_timer_abandoned q i = q\<lparr>wq_timers := take i (wq_timers q) @ drop (Suc i) (wq_timers q)\<rparr>"

text \<open>\<open>backoff\<close> on \<open>int64\<close> nanoseconds: the shift wraps as Go's does.\<close>

definition backoff :: "int \<Rightarrow> i64 \<Rightarrow> i64 \<Rightarrow> i64" where
  "backoff attempts base mx =
     (let attempts = (if attempts < 0 then 0 else attempts)
      in if attempts > 62 then mx
         else let d = push_bit (nat attempts) base
              in if sint d \<le> 0 \<or> sint d > sint mx then mx else d)"

definition wq_attempts :: "unitWorkQueue \<Rightarrow> string \<Rightarrow> int" where
  "wq_attempts q name = (case map_of (wq_failures q) name of None \<Rightarrow> 0 | Some n \<Rightarrow> n)"

text \<open>
  \<open>Retry\<close> leaves its critical section before it calls \<open>AddAfter\<close>. For a positive backoff, the only kind the reactor asks for, that call takes no lock: it
  starts a goroutine, whose \<open>Add\<close> is the step of the timer. So \<open>Retry\<close> is one step here.
\<close>

definition wq_Retry :: "unitWorkQueue \<Rightarrow> string \<Rightarrow> int \<Rightarrow> i64 \<Rightarrow> i64 \<Rightarrow> bool \<times> unitWorkQueue" where
  "wq_Retry q name maxRetries base mx =
     (if wq_shutdown q then (False, q)
      else let attempts = wq_attempts q name
           in if attempts \<ge> maxRetries then (False, q)
              else let q1 = q\<lparr>wq_failures := AList.update name (attempts + 1) (wq_failures q)\<rparr>
                   in (True, wq_AddAfter q1 name (backoff attempts base mx)))"

definition wq_Forget :: "unitWorkQueue \<Rightarrow> string \<Rightarrow> unitWorkQueue" where
  "wq_Forget q name = q\<lparr>wq_failures := AList.delete name (wq_failures q)\<rparr>"

text \<open>\<open>Get\<close> blocks on an empty queue that is not shut down: \<open>Waits\<close>.\<close>

datatype get_result = Waits | Shutdown | Got string

definition wq_Get :: "unitWorkQueue \<Rightarrow> get_result \<times> unitWorkQueue" where
  "wq_Get q =
     (case wq_queue q of
        [] \<Rightarrow> (if wq_shutdown q then Shutdown else Waits, q)
      | name # rest \<Rightarrow>
          (Got name, q\<lparr>wq_queue := rest, wq_dirty := wq_dirty q - {name},
                       wq_processing := insert name (wq_processing q)\<rparr>))"

definition wq_Done :: "unitWorkQueue \<Rightarrow> string \<Rightarrow> unitWorkQueue" where
  "wq_Done q name =
     (let q1 = q\<lparr>wq_processing := wq_processing q - {name}\<rparr>
      in if name \<in> wq_dirty q1 then q1\<lparr>wq_queue := wq_queue q1 @ [name]\<rparr> else q1)"

definition wq_ShutDown :: "unitWorkQueue \<Rightarrow> unitWorkQueue" where
  "wq_ShutDown q = (if wq_shutdown q then q else q\<lparr>wq_shutdown := True\<rparr>)"

lemmas wq_defs = wq_Add_def wq_AddAfter_def wq_timer_fires_def wq_timer_abandoned_def wq_Retry_def
  wq_Forget_def wq_Get_def wq_Done_def wq_ShutDown_def Let_def

subsection \<open>The invariant of the queue\<close>

definition wq_inv :: "unitWorkQueue \<Rightarrow> bool" where
  "wq_inv q \<longleftrightarrow> distinct (wq_queue q) \<and> set (wq_queue q) = wq_dirty q - wq_processing q"

lemma wq_inv_new [simp]: "wq_inv newUnitWorkQueue"
  by (simp add: wq_inv_def newUnitWorkQueue_def)

lemma wq_inv_Add [simp]: "wq_inv q \<Longrightarrow> wq_inv (wq_Add q n)"
  by (auto simp: wq_inv_def wq_defs)

lemma wq_inv_timers [simp]: "wq_inv (q\<lparr>wq_timers := ts\<rparr>) = wq_inv q"
  and wq_inv_failures [simp]: "wq_inv (q\<lparr>wq_failures := fs\<rparr>) = wq_inv q"
  by (simp_all add: wq_inv_def)

lemma wq_inv_AddAfter [simp]: "wq_inv q \<Longrightarrow> wq_inv (wq_AddAfter q n d)"
  by (simp add: wq_AddAfter_def)

lemma wq_inv_timer_fires [simp]: "wq_inv q \<Longrightarrow> wq_inv (wq_timer_fires q i)"
  by (simp add: wq_timer_fires_def)

lemma wq_inv_timer_abandoned [simp]: "wq_inv q \<Longrightarrow> wq_inv (wq_timer_abandoned q i)"
  by (simp add: wq_timer_abandoned_def)

lemma wq_inv_Forget [simp]: "wq_inv q \<Longrightarrow> wq_inv (wq_Forget q n)"
  by (simp add: wq_Forget_def)

lemma wq_inv_ShutDown [simp]: "wq_inv q \<Longrightarrow> wq_inv (wq_ShutDown q)"
  by (simp add: wq_ShutDown_def wq_inv_def)

lemma wq_inv_Retry [simp]: "wq_inv q \<Longrightarrow> wq_inv (snd (wq_Retry q n m b mx))"
  by (simp add: wq_Retry_def Let_def)

lemma wq_inv_Get: "wq_inv q \<Longrightarrow> wq_inv (snd (wq_Get q))"
  by (cases "wq_queue q") (simp_all add: wq_inv_def wq_Get_def set_eq_iff, metis)

lemma wq_inv_Done: "wq_inv q \<Longrightarrow> n \<in> wq_processing q \<Longrightarrow> wq_inv (wq_Done q n)"
  by (auto simp: wq_inv_def wq_Done_def Let_def)

subsection \<open>The interface the reactor relies on\<close>

text \<open>
  The set-level view: names that are \<open>pending\<close>, names a worker is \<open>busy\<close> with, and whether the
  queue is \<open>closed\<close>. \<open>get\<close> takes some pending name nobody is busy with, if there is one.
\<close>

locale work_queue =
  fixes add :: "'q \<Rightarrow> string \<Rightarrow> 'q" and get :: "'q \<Rightarrow> get_result \<times> 'q"
    and finish :: "'q \<Rightarrow> string \<Rightarrow> 'q"
    and pending :: "'q \<Rightarrow> string set" and busy :: "'q \<Rightarrow> string set" and closed :: "'q \<Rightarrow> bool"
    and invar :: "'q \<Rightarrow> bool"
  assumes add_pending: "pending (add q n) = (if closed q then pending q else insert n (pending q))"
    and add_busy: "busy (add q n) = busy q" and add_closed: "closed (add q n) = closed q"
    and get_Got: "invar q \<Longrightarrow> get q = (Got n, q') \<Longrightarrow> n \<in> pending q - busy q
          \<and> pending q' = pending q - {n} \<and> busy q' = insert n (busy q) \<and> closed q' = closed q"
    and get_Waits: "invar q \<Longrightarrow> get q = (Waits, q') \<Longrightarrow> q' = q \<and> pending q \<subseteq> busy q \<and> \<not> closed q"
    and get_Shutdown: "invar q \<Longrightarrow> get q = (Shutdown, q') \<Longrightarrow> q' = q \<and> pending q \<subseteq> busy q \<and> closed q"
    and finish_pending: "pending (finish q n) = pending q"
    and finish_busy: "busy (finish q n) = busy q - {n}"
    and finish_closed: "closed (finish q n) = closed q"
    and invar_add: "invar q \<Longrightarrow> invar (add q n)"
    and invar_get: "invar q \<Longrightarrow> invar (snd (get q))"
    and invar_finish: "invar q \<Longrightarrow> n \<in> busy q \<Longrightarrow> invar (finish q n)"
begin

lemma get_exclusive: "invar q \<Longrightarrow> get q = (Got n, q') \<Longrightarrow> n \<notin> busy q"
  using get_Got by blast

lemma readd_while_busy:
  assumes "n \<in> busy q" "\<not> closed q"
  shows "n \<in> pending (finish (add q n) n) - busy (finish (add q n) n)"
  using assms by (simp add: add_pending add_busy finish_pending finish_busy)

lemma get_serves_when_ready:
  assumes "invar q" "n \<in> pending q - busy q"
  shows "\<exists>m q'. get q = (Got m, q')"
proof (cases "get q")
  case (Pair r q')
  with assms get_Waits get_Shutdown show ?thesis by (cases r) blast+
qed

end

lemma dirty_Add: "wq_dirty (wq_Add q n) = (if wq_shutdown q then wq_dirty q else insert n (wq_dirty q))"
  by (auto simp: wq_Add_def Let_def)

lemma Add_frame [simp]:
  "wq_processing (wq_Add q n) = wq_processing q" "wq_shutdown (wq_Add q n) = wq_shutdown q"
  "wq_failures (wq_Add q n) = wq_failures q" "wq_timers (wq_Add q n) = wq_timers q"
  by (simp_all add: wq_Add_def Let_def)

lemma Done_frame [simp]:
  "wq_processing (wq_Done q n) = wq_processing q - {n}" "wq_dirty (wq_Done q n) = wq_dirty q"
  "wq_shutdown (wq_Done q n) = wq_shutdown q"
  by (simp_all add: wq_Done_def Let_def)

lemma Get_Got:
  "wq_Get q = (Got n, q') \<longleftrightarrow> (\<exists>rest. wq_queue q = n # rest
     \<and> q' = q\<lparr>wq_queue := rest, wq_dirty := wq_dirty q - {n}, wq_processing := insert n (wq_processing q)\<rparr>)"
  by (auto simp: wq_Get_def split: list.splits)

lemma Get_empty:
  "wq_Get q = (Waits, q') \<longleftrightarrow> wq_queue q = [] \<and> \<not> wq_shutdown q \<and> q' = q"
  "wq_Get q = (Shutdown, q') \<longleftrightarrow> wq_queue q = [] \<and> wq_shutdown q \<and> q' = q"
  by (auto simp: wq_Get_def split: list.splits if_splits)

interpretation wq: work_queue wq_Add wq_Get wq_Done wq_dirty wq_processing wq_shutdown wq_inv
proof (unfold_locales, goal_cases)
  case (4 q n q')
  then obtain rest where q: "wq_queue q = n # rest"
    "q' = q\<lparr>wq_queue := rest, wq_dirty := wq_dirty q - {n}, wq_processing := insert n (wq_processing q)\<rparr>"
    by (auto simp: Get_Got)
  from 4(1) q(1) have "n \<in> wq_dirty q - wq_processing q"
    unfolding wq_inv_def by (metis list.set_intros(1))
  with q(2) show ?case by simp
next
  case (5 q q')
  then show ?case by (simp add: Get_empty wq_inv_def)
next
  case (6 q q')
  then show ?case by (simp add: Get_empty wq_inv_def)
qed (simp_all add: dirty_Add wq_inv_Get wq_inv_Done)

subsection \<open>Producers, workers and timers in any order\<close>

text \<open>
  \<open>hold w\<close> is the name worker \<open>w\<close> got and has not yet called \<open>Done\<close> for. A worker calls \<open>Get\<close>
  only when it holds nothing and \<open>Done\<close> only for what it holds (\<open>reconcileWorker\<close>).
\<close>

datatype wq_label =
    LAdd string | LGet nat string | LDone nat | LRetry string int i64 i64 | LForget string
  | LFire nat | LAbandon nat | LShutDown

inductive wq_step ::
  "unitWorkQueue \<times> (nat \<rightharpoonup> string) \<Rightarrow> wq_label \<Rightarrow> unitWorkQueue \<times> (nat \<rightharpoonup> string) \<Rightarrow> bool" where
  step_add: "wq_step (q, hold) (LAdd n) (wq_Add q n, hold)"
| step_get: "hold w = None \<Longrightarrow> wq_Get q = (Got n, q') \<Longrightarrow> wq_step (q, hold) (LGet w n) (q', hold(w \<mapsto> n))"
| step_done: "hold w = Some n \<Longrightarrow> wq_step (q, hold) (LDone w) (wq_Done q n, hold(w := None))"
| step_retry: "wq_step (q, hold) (LRetry n m b mx) (snd (wq_Retry q n m b mx), hold)"
| step_forget: "wq_step (q, hold) (LForget n) (wq_Forget q n, hold)"
| step_fire: "wq_step (q, hold) (LFire i) (wq_timer_fires q i, hold)"
| step_abandon: "wq_shutdown q \<Longrightarrow> wq_step (q, hold) (LAbandon i) (wq_timer_abandoned q i, hold)"
| step_shutdown: "wq_step (q, hold) LShutDown (wq_ShutDown q, hold)"

inductive_cases wq_stepE: "wq_step s l s'"

inductive wq_run ::
  "unitWorkQueue \<times> (nat \<rightharpoonup> string) \<Rightarrow> wq_label list \<Rightarrow> unitWorkQueue \<times> (nat \<rightharpoonup> string) \<Rightarrow> bool" where
  run_nil: "wq_run s [] s"
| run_cons: "wq_step s l t \<Longrightarrow> wq_run t ls u \<Longrightarrow> wq_run s (l # ls) u"

definition wq_start :: "unitWorkQueue \<times> (nat \<rightharpoonup> string)" where
  "wq_start = (newUnitWorkQueue, Map.empty)"

fun wq_sys_inv :: "unitWorkQueue \<times> (nat \<rightharpoonup> string) \<Rightarrow> bool" where
  "wq_sys_inv (q, hold) \<longleftrightarrow> wq_inv q \<and> wq_processing q = ran hold \<and> inj_on hold (dom hold)"

lemma processing_frame [simp]:
  "wq_processing (wq_AddAfter q n d) = wq_processing q"
  "wq_processing (snd (wq_Retry q n m b mx)) = wq_processing q"
  "wq_processing (wq_Forget q n) = wq_processing q"
  "wq_processing (wq_timer_fires q i) = wq_processing q"
  "wq_processing (wq_timer_abandoned q i) = wq_processing q"
  "wq_processing (wq_ShutDown q) = wq_processing q"
  by (simp_all add: wq_AddAfter_def wq_Retry_def wq_Forget_def wq_timer_fires_def
      wq_timer_abandoned_def wq_ShutDown_def Let_def)

lemma wq_step_inv: "wq_step s l s' \<Longrightarrow> wq_sys_inv s \<Longrightarrow> wq_sys_inv s'"
proof (induction rule: wq_step.induct)
  case (step_get hold w q n q')
  then have iv: "wq_inv q" "wq_processing q = ran hold" "inj_on hold (dom hold)" by auto
  from wq.get_Got [OF iv(1) step_get(2)] have n: "n \<notin> ran hold" "wq_processing q' = insert n (ran hold)"
    using iv(2) by auto
  moreover have "wq_inv q'" using wq_inv_Get [OF iv(1)] step_get(2) by simp
  moreover have "inj_on (hold(w \<mapsto> n)) (dom (hold(w \<mapsto> n)))"
    using iv(3) n(1) step_get(1) by (auto simp: inj_on_def ran_def dom_def)
  ultimately show ?case using step_get(1) by simp
next
  case (step_done hold w n q)
  then have iv: "wq_inv q" "wq_processing q = ran hold" "inj_on hold (dom hold)" by auto
  have n: "n \<in> wq_processing q" using step_done(1) iv(2) by (auto intro: ranI)
  have "ran (hold(w := None)) = ran hold - {n}"
    using iv(3) step_done(1) by (force simp: ran_def inj_on_def dom_def)
  moreover have "inj_on (hold(w := None)) (dom (hold(w := None)))"
    using iv(3) by (auto simp: inj_on_def)
  ultimately show ?case using iv wq_inv_Done [OF iv(1) n] by simp
qed simp_all

lemma wq_run_inv: "wq_run s ls u \<Longrightarrow> wq_sys_inv s \<Longrightarrow> wq_sys_inv u"
  by (induction rule: wq_run.induct) (auto dest: wq_step_inv)

lemma wq_start_inv: "wq_sys_inv wq_start"
  by (simp add: wq_start_def newUnitWorkQueue_def wq_inv_def)

lemmas wq_reachable_inv = wq_run_inv [OF _ wq_start_inv]

text \<open>A pending name stays pending until some worker gets it.\<close>

lemma dirty_mono:
  "wq_dirty q \<subseteq> wq_dirty (wq_AddAfter q n d)"
  "wq_dirty q \<subseteq> wq_dirty (snd (wq_Retry q n m b mx))"
  "wq_dirty q \<subseteq> wq_dirty (wq_timer_fires q i)"
  by (auto simp: wq_AddAfter_def wq_Retry_def wq_timer_fires_def Let_def dirty_Add)

lemma wq_step_dirty:
  "wq_step s l s' \<Longrightarrow> n \<in> wq_dirty (fst s) \<Longrightarrow>
   n \<in> wq_dirty (fst s') \<or> (\<exists>w. l = LGet w n)"
proof (induction rule: wq_step.induct)
  case (step_get hold w q m q')
  then show ?case by (auto simp: Get_Got)
next
  case (step_retry q hold m k b mx)
  then show ?case using dirty_mono(2) by fastforce
next
  case (step_fire q hold i)
  then show ?case using dirty_mono(3) by fastforce
qed (auto simp: dirty_Add wq_Forget_def wq_timer_abandoned_def wq_ShutDown_def)

subsection \<open>Bounded retries, drained shutdown\<close>

fun wq_gets :: "nat \<Rightarrow> unitWorkQueue \<Rightarrow> get_result list" where
  "wq_gets 0 q = []"
| "wq_gets (Suc k) q = (case wq_Get q of (r, q') \<Rightarrow> r # wq_gets k q')"

lemma wq_gets_Cons:
  "wq_queue q = n # rest \<Longrightarrow> wq_gets (Suc k) q =
     Got n # wq_gets k (q\<lparr>wq_queue := rest, wq_dirty := wq_dirty q - {n},
                         wq_processing := insert n (wq_processing q)\<rparr>)"
  by (simp add: wq_Get_def)

lemma wq_gets_closed: "wq_queue q = [] \<Longrightarrow> wq_shutdown q \<Longrightarrow> wq_gets k q = replicate k Shutdown"
  by (induction k) (simp_all add: wq_Get_def)

fun wq_retries :: "nat \<Rightarrow> unitWorkQueue \<Rightarrow> string \<Rightarrow> int \<Rightarrow> i64 \<Rightarrow> i64 \<Rightarrow> bool list" where
  "wq_retries 0 q n m b mx = []"
| "wq_retries (Suc k) q n m b mx = (case wq_Retry q n m b mx of (ok, q') \<Rightarrow> ok # wq_retries k q' n m b mx)"

lemma failures_AddAfter [simp]:
  "wq_failures (wq_AddAfter q n d) = wq_failures q" "wq_shutdown (wq_AddAfter q n d) = wq_shutdown q"
  by (simp_all add: wq_AddAfter_def)

lemma wq_Retry_ok:
  assumes "wq_Retry q n m b mx = (ok, q')" "\<not> wq_shutdown q"
  shows "ok \<longleftrightarrow> wq_attempts q n < m" "\<not> wq_shutdown q'"
    "wq_attempts q' n = (if ok then wq_attempts q n + 1 else wq_attempts q n)"
  using assms by (auto simp: wq_Retry_def Let_def wq_attempts_def update_conv' split: if_splits)

lemma wq_retries_count:
  "\<not> wq_shutdown q \<Longrightarrow> wq_retries k q n m b mx =
     map (\<lambda>i. wq_attempts q n + int i < m) [0..<k]"
proof (induction k arbitrary: q)
  case 0
  then show ?case by simp
next
  case (Suc k)
  obtain ok q' where r: "wq_Retry q n m b mx = (ok, q')" by fastforce
  note ok = wq_Retry_ok [OF r Suc.prems]
  have "map (\<lambda>i. wq_attempts q' n + int i < m) [0..<k]
        = map (\<lambda>i. wq_attempts q n + int i < m) (map Suc [0..<k])"
    using ok(1,3) by auto
  with Suc.IH [OF ok(2)] r ok(1) show ?case
    by (simp add: upt_conv_Cons map_Suc_upt del: upt_Suc)
qed

subsection \<open>Properties\<close>

text \<open>
  Exclusivity. In every state reached by producers, workers, retries and timers in any order, no
  two workers hold the same unit, and nothing a worker holds is queued.
\<close>

theorem wq_exclusive:
  assumes "wq_run wq_start ls (q, hold)" and "hold w = Some n"
  shows "n \<notin> set (wq_queue q) \<and> (hold v = Some n \<longrightarrow> v = w)"
proof -
  from wq_reachable_inv [OF assms(1)]
  have "wq_inv q" "wq_processing q = ran hold" "inj_on hold (dom hold)" by auto
  with assms(2) show ?thesis
    by (auto simp: wq_inv_def ran_def inj_on_def dom_def)
qed

lemma wq_example_run:
  "wq_run wq_start [LAdd ''a'', LGet 0 ''a'', LAdd ''a'']
     (newUnitWorkQueue\<lparr>wq_dirty := {''a''}, wq_processing := {''a''}\<rparr>, [0 \<mapsto> ''a''])"
proof -
  let ?q1 = "newUnitWorkQueue\<lparr>wq_queue := [''a''], wq_dirty := {''a''}\<rparr>"
  let ?q2 = "newUnitWorkQueue\<lparr>wq_processing := {''a''}\<rparr>"
  let ?q3 = "newUnitWorkQueue\<lparr>wq_dirty := {''a''}, wq_processing := {''a''}\<rparr>"
  have 1: "wq_step wq_start (LAdd ''a'') (?q1, Map.empty)"
    using step_add [of newUnitWorkQueue Map.empty "''a''"]
    by (simp add: wq_start_def wq_Add_def newUnitWorkQueue_def)
  have 2: "wq_step (?q1, Map.empty) (LGet 0 ''a'') (?q2, [0 \<mapsto> ''a''])"
    by (rule step_get) (simp_all add: wq_Get_def newUnitWorkQueue_def)
  have 3: "wq_step (?q2, [0 \<mapsto> ''a'']) (LAdd ''a'') (?q3, [0 \<mapsto> ''a''])"
    using step_add [of ?q2 "[0 \<mapsto> ''a'']" "''a''"]
    by (simp add: wq_Add_def newUnitWorkQueue_def)
  show ?thesis by (rule run_cons [OF 1 run_cons [OF 2 run_cons [OF 3 run_nil]]])
qed

theorem wq_exclusive_witness:
  "''a'' \<notin> set (wq_queue (newUnitWorkQueue\<lparr>wq_dirty := {''a''}, wq_processing := {''a''}\<rparr>))
   \<and> [0 \<mapsto> ''a''] (1::nat) \<noteq> Some ''a''"
  using wq_exclusive [OF wq_example_run, of 0 "''a''" 1] by simp

lemma wq_run_keeps_pending:
  "wq_run s ls u \<Longrightarrow> n \<in> wq_dirty (fst s) \<Longrightarrow> (\<And>w. LGet w n \<notin> set ls) \<Longrightarrow> n \<in> wq_dirty (fst u)"
proof (induction rule: wq_run.induct)
  case (run_nil s)
  then show ?case by simp
next
  case (run_cons s l t ls u)
  then show ?case using wq_step_dirty [OF run_cons.hyps(1), of n] by auto
qed

text \<open>
  C17: no lost updates. A unit added to a running queue stays pending through any further steps in
  which no worker gets it; and as long as it is pending and no worker holds it, it is queued exactly
  once and \<open>Get\<close> does not block.
\<close>

theorem wq_no_lost_update:
  assumes "wq_run wq_start ls (q, hold)" and "\<not> wq_shutdown q"
    and "wq_run (wq_Add q n, hold) ls' (q', hold')" and "\<And>w. LGet w n \<notin> set ls'"
  shows "n \<in> wq_dirty q' \<and> ((\<forall>w. hold' w \<noteq> Some n) \<longrightarrow>
           distinct (wq_queue q') \<and> n \<in> set (wq_queue q') \<and> (\<exists>m q''. wq_Get q' = (Got m, q'')))"
proof -
  have "wq_sys_inv (q', hold')"
    using wq_run_inv [OF assms(3) wq_step_inv [OF step_add wq_reachable_inv [OF assms(1)]]] .
  moreover have "n \<in> wq_dirty (fst (q', hold'))"
    by (rule wq_run_keeps_pending [OF assms(3) _ assms(4)]) (simp add: dirty_Add assms(2))
  ultimately show ?thesis
    using wq.get_serves_when_ready [of q' n] by (auto simp: wq_inv_def ran_def)
qed

theorem wq_no_lost_update_witness:
  "''a'' \<in> wq_dirty (newUnitWorkQueue\<lparr>wq_dirty := {''a''}, wq_queue := [''a'']\<rparr>)"
proof -
  let ?q = "newUnitWorkQueue\<lparr>wq_dirty := {''a''}, wq_processing := {''a''}\<rparr>"
  have "wq_run (wq_Add ?q ''a'', [0 \<mapsto> ''a'']) [LDone 0]
          (newUnitWorkQueue\<lparr>wq_dirty := {''a''}, wq_queue := [''a'']\<rparr>, Map.empty)"
    using run_cons [OF step_done [of "[0 \<mapsto> ''a'']" 0 "''a''" "wq_Add ?q ''a''"] run_nil]
    by (simp add: wq_Add_def wq_Done_def newUnitWorkQueue_def)
  from wq_no_lost_update [OF wq_example_run _ this] show ?thesis
    by (simp add: newUnitWorkQueue_def)
qed

lemma wq_gets_drain:
  "wq_shutdown q \<Longrightarrow>
   wq_gets (length (wq_queue q) + k) q = map Got (wq_queue q) @ replicate k Shutdown"
proof (induction "wq_queue q" arbitrary: q)
  case Nil
  then show ?case by (simp add: wq_gets_closed flip: Nil(1))
next
  case (Cons n rest)
  let ?q' = "q\<lparr>wq_queue := rest, wq_dirty := wq_dirty q - {n}, wq_processing := insert n (wq_processing q)\<rparr>"
  have "wq_gets (length rest + k) ?q' = map Got rest @ replicate k Shutdown"
    using Cons.hyps(1) [of ?q'] Cons.prems by simp
  then show ?case
    using wq_gets_Cons [OF Cons.hyps(2) [symmetric], of "length rest + k"]
    by (simp flip: Cons.hyps(2))
qed

text \<open>
  Shutdown drains. Once the queue is shut down, \<open>Get\<close> hands out what is queued in order and then
  reports the shutdown every time; it never blocks.
\<close>

theorem wq_shutdown_drains:
  "wq_gets (length (wq_queue q) + k) (wq_ShutDown q) = map Got (wq_queue q) @ replicate k Shutdown"
  using wq_gets_drain [of "wq_ShutDown q" k]
  by (cases "wq_shutdown q") (simp_all add: wq_ShutDown_def)

text \<open>
  Retries are bounded. Of any number of consecutive failures of a unit since it was last
  forgotten, exactly the first \<open>maxRetries\<close> are granted a retry.
\<close>

theorem wq_retry_bounded:
  assumes "\<not> wq_shutdown q" and "0 \<le> m"
  shows "wq_retries k (wq_Forget q n) n m b mx =
           replicate (min k (nat m)) True @ replicate (k - nat m) False"
proof -
  have "wq_retries k (wq_Forget q n) n m b mx = map (\<lambda>i. int i < m) [0..<k]"
    using wq_retries_count [of "wq_Forget q n" k n m b mx] assms(1)
    by (simp add: wq_Forget_def wq_attempts_def)
  also have "\<dots> = replicate (min k (nat m)) True @ replicate (k - nat m) False"
    by (rule nth_equalityI) (auto simp: nth_append)
  finally show ?thesis .
qed

theorem wq_retry_bounded_witness:
  "wq_retries 7 (wq_Forget newUnitWorkQueue ''a'') ''a'' 5 200000000 10000000000
     = replicate 5 True @ replicate 2 False"
  using wq_retry_bounded [of newUnitWorkQueue 5 7 "''a''" 200000000 10000000000]
  by (simp add: newUnitWorkQueue_def)

lemma sint_push_bit:
  fixes w :: i64
  assumes "0 \<le> sint w" and "sint w * 2 ^ n < 2 ^ 63"
  shows "sint (push_bit n w) = sint w * 2 ^ n"
proof -
  have "push_bit n w = word_of_int (sint w * 2 ^ n)"
    by (simp add: push_bit_eq_mult)
  then have "sint (push_bit n w) = signed_take_bit 63 (sint w * 2 ^ n)"
    by (simp only: sint_sbintrunc') simp
  also have "\<dots> = sint w * 2 ^ n"
    using assms by (intro signed_take_bit_int_eq_self) (auto intro: order_trans [of _ 0])
  finally show ?thesis .
qed

text \<open>
  The backoff before a retry. For a positive cap it is always positive and at most the cap,
  even where the 64-bit shift wraps around, and it is exactly \<open>base\<close> doubled \<open>attempts\<close> times,
  capped, whenever that product fits into 63 bits.
\<close>

theorem backoff_correct:
  assumes "0 < sint mx"
  shows "0 < sint (backoff attempts base mx) \<and> sint (backoff attempts base mx) \<le> sint mx
    \<and> (0 \<le> attempts \<and> 0 < sint base \<and> sint base * 2 ^ nat attempts < 2 ^ 63 \<longrightarrow>
         sint (backoff attempts base mx) = min (sint base * 2 ^ nat attempts) (sint mx))"
proof -
  have "sint (backoff attempts base mx) = min (sint base * 2 ^ nat attempts) (sint mx)"
    if h: "0 \<le> attempts" "0 < sint base" "sint base * 2 ^ nat attempts < 2 ^ 63"
  proof -
    have "(2::int) ^ nat attempts \<le> sint base * 2 ^ nat attempts" using h(2) by simp
    with h(3) have "(2::int) ^ nat attempts < 2 ^ 63" by linarith
    then have "nat attempts < 63" by (subst (asm) power_strict_increasing_iff) simp_all
    then have "attempts \<le> 62" by simp
    moreover have "sint (push_bit (nat attempts) base) = sint base * 2 ^ nat attempts"
      using sint_push_bit [of base "nat attempts"] h by simp
    moreover have "0 < sint base * 2 ^ nat attempts" using h(2) by simp
    ultimately show ?thesis using h(1) by (auto simp: backoff_def Let_def)
  qed
  with assms show ?thesis by (auto simp: backoff_def Let_def)
qed

theorem backoff_correct_witness:
  "sint (backoff 3 200000000 10000000000) = 1600000000
   \<and> sint (backoff 9 200000000 10000000000) = 10000000000"
  using backoff_correct [of 10000000000 3 200000000] backoff_correct [of 10000000000 9 200000000]
  by simp

end
