(* ===== verification/World.thy ===== *)
theory World
  imports Process WorkQueue "HOL-Library.State_Monad"
begin

text \<open>
  The state the shim's goroutines share and the outside they talk to. A handler is a program of the
  state monad over the record \<open>shim\<close>. Systemd, runc, the file system, the clock and all
  other goroutines are one parameter, the record \<open>env\<close>: a call to the outside may change the whole
  shim state, because other goroutines run meanwhile, and every acquisition of a lock is preceded by such
  an interference. So what is proved of a handler holds under every interleaving at lock granularity
  and for every behaviour of the outside.
\<close>

subsection \<open>Values passed to the outside\<close>

record anypb =
  any_TypeUrl :: string
  any_Value :: string

record execCommand =
  ec_Path :: string
  ec_Args :: "string list"
  ec_IgnoreFail :: bool

text \<open>
  Properties of a transient unit: the constructors of go-systemd the code uses, and literal
  name/value pairs.
\<close>

datatype property =
    PropType string
  | PropRemainAfterExit bool
  | PropExecStart "string list" bool
  | PropStr string string
  | PropBool string bool
  | PropStrs string "string list"
  | PropExecs string "execCommand list"

datatype kill_who = KillMain | KillAll

text \<open>The context a call is made with: the request's, or one \<open>cleanupContext\<close> detached from it.\<close>

datatype ctx = ReqCtx | CleanupCtx

definition cleanupContext :: "ctx \<Rightarrow> ctx" where
  "cleanupContext c = CleanupCtx"

record checkpoint_opts =
  ck_AllowOpenTCP :: bool
  ck_AllowExternalUnixSockets :: bool
  ck_AllowTerminal :: bool
  ck_FileLocks :: bool
  ck_EmptyNamespaces :: "string list"
  ck_Cgroups :: string
  ck_ImagePath :: string
  ck_WorkDir :: string

text \<open>The calls on the log pipe of a bundle.\<close>

datatype log_call = OpenLog string | MkfifoLog string | RemoveLog string

text \<open>
  The calls that leave the process. \<open>JobResult\<close> is the select on the channel systemd reports the end of
  a unit's job on and on the context; it ends with whichever comes first. A call that never returns, be it a request to systemd or runc or a select where neither
  comes, blocks its goroutine for good. What is said here of a program is said of its runs in which every call to the outside has returned.
\<close>

datatype call =
    StartTransientUnit ctx bool string string "property list"
  | StopUnit ctx string string
  | JobResult ctx string
  | KillUnit ctx string i32
  | KillUnitWithTarget ctx string kill_who i32
  | ResetFailedUnit ctx string
  | UnrefUnit ctx string
  | GetAllProperties ctx string
  | ListUnitsByNames ctx "string list"
  | RuncState ctx runc_config string
  | RuncStart ctx runc_config string
  | RuncKill ctx runc_config string i32 bool
  | RuncDelete ctx runc_config string bool
  | RuncPause ctx runc_config string
  | RuncResume ctx runc_config string
  | RuncPs ctx runc_config string
  | RuncUpdate ctx runc_config string string
  | RuncCheckpoint ctx runc_config string checkpoint_opts bool
  | ReadFile string
  | WriteFile string string
  | MkdirAll string
  | MkdirTemp string
  | RemoveAll string
  | OpenRdWr string
  | LookPath string
  | CgroupStats u32
  | SockDial string
  | SockClose nat
  | SockDeadline ctx nat
  | SockWrite nat string
  | SockRead nat nat
  | UmountDetach string
  | WriteStdout string
  | ShimLog log_call
  | DialSystemd
  | DialMessageBus
  | CloseSystemdConn
  | CloseMessageBus

subsection \<open>Processes\<close>

text \<open>
  A pointer to a process carries the fields that never change after construction; the address
  names the part that does.
\<close>

record init_ptr =
  ip_addr :: nat
  ip_conf :: process_conf
  ip_Bundle :: string
  ip_Rootfs :: "task_mount list"
  ip_checkpoint :: string
  ip_parentCheckpoint :: string
  ip_noNewNamespace :: bool
  ip_killAllOnExit :: bool

record exec_ptr =
  ep_addr :: nat
  ep_conf :: process_conf
  ep_Spec :: anypb
  ep_parent :: init_ptr
  ep_execID :: string

text \<open>The values of the interface type \<open>Process\<close>.\<close>

datatype ptr = InitP init_ptr | ExecP exec_ptr

fun ptr_addr :: "ptr \<Rightarrow> nat" where
  "ptr_addr (InitP p) = ip_addr p" | "ptr_addr (ExecP p) = ep_addr p"

fun ptr_conf :: "ptr \<Rightarrow> process_conf" where
  "ptr_conf (InitP p) = ip_conf p" | "ptr_conf (ExecP p) = ep_conf p"

text \<open>
  The tables of the source hold \<open>Process\<close> values; only \<open>Service.Exec\<close> adds to an exec table and only
  \<open>Service.Create\<close> to the process table, so their entries are execs and inits by type here
  and the type assertions on them cannot fail.
\<close>

record init_data =
  i_unitProps :: "property list"
  i_execs :: "(string \<times> exec_ptr) list"

record ttyControlClient =
  tc_sockPath :: string
  tc_conn :: "nat option"
  tc_buffered :: string

record 'w shim =
  sh_world :: 'w
  sh_chan :: "envelope list"
  sh_procs :: "nat \<Rightarrow> process"
  sh_inits :: "nat \<Rightarrow> init_data"
  sh_ttys :: "nat \<Rightarrow> ttyControlClient"
  sh_next :: nat
  sh_processes :: "(string \<times> init_ptr) list"
  sh_units :: "(string \<times> ptr) list"
  sh_metrics :: "string \<Rightarrow> nat"
  sh_calls :: "call list"

text \<open>
  The outside, by the type of the answer. \<open>e_others\<close> is what other goroutines do between two steps;
  \<open>e_done\<close> asks whether a context has ended, \<open>e_room\<close> whether an event could be handed to the
  channel in time. The fields from \<open>e_json_state\<close> on are functions of libraries: the JSON decoding of a state
  file and of a spec, go-systemd's escaping of unit names, the decoding of runc options and of
  typed option messages, the encoding of a mount configuration, and the rewriting of an exec's process
  spec with its terminal flag set.
\<close>

record spec_info =
  si_linux :: bool
  si_rootfsPropagation :: string
  si_namespaces :: "(string \<times> string) list"
  si_process :: bool
  si_terminal :: bool

text \<open>The option messages a request can carry.\<close>

record runc_opts =
  ro_NoPivotRoot :: bool
  ro_NoNewKeyring :: bool
  ro_IoUid :: u32
  ro_IoGid :: u32
  ro_BinaryName :: string
  ro_Root :: string
  ro_SystemdCgroup :: bool
  ro_CriuImagePath :: string
  ro_CriuWorkPath :: string
  ro_ShimCgroup :: string

record ckpt_opts =
  cko_Exit :: bool
  cko_OpenTcp :: bool
  cko_ExternalUnixSockets :: bool
  cko_Terminal :: bool
  cko_FileLocks :: bool
  cko_EmptyNamespaces :: "string list"
  cko_CgroupsMode :: string
  cko_ImagePath :: string
  cko_WorkPath :: string

datatype options_msg =
    ShimOptions string bool
  | RuncOptions runc_opts
  | CheckpointOptions ckpt_opts
  | OtherOptions

record 'w env =
  e_others :: "'w shim \<Rightarrow> 'w shim"
  e_now :: "'w shim \<Rightarrow> time \<times> 'w shim"
  e_done :: "ctx \<Rightarrow> 'w shim \<Rightarrow> bool \<times> 'w shim"
  e_room :: "'w shim \<Rightarrow> bool \<times> 'w shim"
  e_err :: "call \<Rightarrow> 'w shim \<Rightarrow> err option \<times> 'w shim"
  e_str :: "call \<Rightarrow> 'w shim \<Rightarrow> string result \<times> 'w shim"
  e_props :: "call \<Rightarrow> 'w shim \<Rightarrow> props result \<times> 'w shim"
  e_job :: "call \<Rightarrow> 'w shim \<Rightarrow> string option \<times> 'w shim"
  e_list :: "call \<Rightarrow> 'w shim \<Rightarrow> (string \<times> string) list result \<times> 'w shim"
  e_pids :: "call \<Rightarrow> 'w shim \<Rightarrow> int list result \<times> 'w shim"
  e_fd :: "call \<Rightarrow> 'w shim \<Rightarrow> nat result \<times> 'w shim"
  e_json_state :: "string \<Rightarrow> pState result"
  e_json_spec :: "string \<Rightarrow> spec_info result"
  e_PathBusEscape :: "string \<Rightarrow> string"
  e_proto_runc_opts :: "string \<Rightarrow> runc_opts result"
  e_typeurl :: "anypb \<Rightarrow> options_msg result"
  e_proto_mounts :: "string \<Rightarrow> task_mount list \<Rightarrow> string result"
  e_json_terminal :: "string \<Rightarrow> string result"

type_synonym ('w, 'a) go = "('w shim, 'a) state"

subsection \<open>Steps\<close>

text \<open>
  \<open>sh_calls\<close> is the list of calls the goroutine under consideration has made; interference by others
  does not show in it.
\<close>

abbreviation return_go :: "'a \<Rightarrow> ('s, 'a) state" where
  "return_go \<equiv> State_Monad.return"

definition interfere :: "'w env \<Rightarrow> 'w shim \<Rightarrow> 'w shim" where
  "interfere x s = (e_others x s)\<lparr>sh_calls := sh_calls s\<rparr>"

definition ext :: "call list \<Rightarrow> ('w shim \<Rightarrow> 'a \<times> 'w shim) \<Rightarrow> ('w, 'a) go" where
  "ext cs f = State (\<lambda>s. case f s of (r, s') \<Rightarrow> (r, s'\<lparr>sh_calls := sh_calls s @ cs\<rparr>))"

definition atomic :: "'w env \<Rightarrow> ('w shim \<Rightarrow> 'a \<times> 'w shim) \<Rightarrow> ('w, 'a) go" where
  "atomic x f = State (\<lambda>s. case f (interfere x s) of (r, s') \<Rightarrow> (r, s'\<lparr>sh_calls := sh_calls s\<rparr>))"

definition locked :: "'w env \<Rightarrow> nat \<Rightarrow> (process \<Rightarrow> 'a \<times> process) \<Rightarrow> ('w, 'a) go" where
  "locked x a f = atomic x (\<lambda>s. case f (sh_procs s a) of
     (r, p') \<Rightarrow> (r, s\<lparr>sh_procs := (sh_procs s)(a := p')\<rparr>))"

definition reading :: "'w env \<Rightarrow> nat \<Rightarrow> (process \<Rightarrow> 'a) \<Rightarrow> ('w, 'a) go" where
  "reading x a f = atomic x (\<lambda>s. (f (sh_procs s a), s))"

definition now :: "'w env \<Rightarrow> ('w, time) go" where "now x = ext [] (e_now x)"
definition ctxDone :: "'w env \<Rightarrow> ctx \<Rightarrow> ('w, bool) go" where "ctxDone x c = ext [] (e_done x c)"
definition callE :: "'w env \<Rightarrow> call \<Rightarrow> ('w, err option) go" where "callE x c = ext [c] (e_err x c)"
definition callS :: "'w env \<Rightarrow> call \<Rightarrow> ('w, string result) go" where "callS x c = ext [c] (e_str x c)"
definition callProps :: "'w env \<Rightarrow> call \<Rightarrow> ('w, props result) go" where
  "callProps x c = ext [c] (e_props x c)"
definition callJob :: "'w env \<Rightarrow> call \<Rightarrow> ('w, string option) go" where
  "callJob x c = ext [c] (e_job x c)"
definition callList :: "'w env \<Rightarrow> call \<Rightarrow> ('w, (string \<times> string) list result) go" where
  "callList x c = ext [c] (e_list x c)"
definition callPids :: "'w env \<Rightarrow> call \<Rightarrow> ('w, int list result) go" where
  "callPids x c = ext [c] (e_pids x c)"
definition callFd :: "'w env \<Rightarrow> call \<Rightarrow> ('w, nat result) go" where
  "callFd x c = ext [c] (e_fd x c)"

lemmas call_defs = now_def ctxDone_def callE_def callS_def callProps_def callJob_def callList_def
  callPids_def callFd_def

text \<open>Early return on error, and a call whose result is dropped.\<close>

definition try_go :: "('w, 'a result) go \<Rightarrow> ('a \<Rightarrow> ('w, 'b result) go) \<Rightarrow> ('w, 'b result) go" where
  "try_go m f = do { r \<leftarrow> m; case r of Inl e \<Rightarrow> return_go (Inl e) | Inr v \<Rightarrow> f v }"

definition check_go :: "('w, err option) go \<Rightarrow> ('w, 'b result) go \<Rightarrow> ('w, 'b result) go" where
  "check_go m k = do { e \<leftarrow> m; case e of Some e \<Rightarrow> return_go (Inl e) | None \<Rightarrow> k }"

definition ignore :: "('w, 'a) go \<Rightarrow> ('w, unit) go" where
  "ignore m = do { _ \<leftarrow> m; return_go () }"

definition when_go :: "bool \<Rightarrow> ('w, unit) go \<Rightarrow> ('w, unit) go" where
  "when_go b m = (if b then m else return_go ())"

fun each :: "('a \<Rightarrow> ('w, unit) go) \<Rightarrow> 'a list \<Rightarrow> ('w, unit) go" where
  "each f [] = return_go ()"
| "each f (y # ys) = do { f y; each f ys }"

subsection \<open>The log of a bundle\<close>

text \<open>Where a bundle's log goes: the pipe, or nowhere. \<open>do_log\<close> is how the calling process makes its calls.\<close>

datatype log_writer = LogFile string | Discard

definition OpenShimLog :: "(log_call \<Rightarrow> ('s, err option) state) \<Rightarrow> string \<Rightarrow> ('s, log_writer) state" where
  "OpenShimLog do_log bundle = do {
     let logPath = path_Join [bundle, ''log''];
     e \<leftarrow> do_log (OpenLog logPath);
     if e = None then return_go (LogFile logPath)
     else if e \<noteq> Some ErrNotExist then return_go Discard
     else do {
       e \<leftarrow> do_log (MkfifoLog logPath);
       if e \<noteq> None then return_go Discard
       else do {
         e \<leftarrow> do_log (OpenLog logPath);
         if e = None then return_go (LogFile logPath)
         else do {
           _ \<leftarrow> do_log (RemoveLog logPath);
           return_go Discard } } } }"

subsection \<open>Counters\<close>

definition metricReactorHits :: string where "metricReactorHits = ''exitstate_reactor_hits''"
definition metricGetAllFallbacks :: string where "metricGetAllFallbacks = ''exitstate_getall_fallbacks''"
definition metricOnDiskReads :: string where "metricOnDiskReads = ''state_ondisk_reads''"
definition metricGetUnitCalls :: string where "metricGetUnitCalls = ''getunitstate_calls''"

definition countState :: "'w env \<Rightarrow> string \<Rightarrow> ('w, unit) go" where
  "countState x k = atomic x (\<lambda>s. ((), s\<lparr>sh_metrics := (sh_metrics s)(k := Suc (sh_metrics s k))\<rparr>))"

subsection \<open>Handing an event to the outbox\<close>

text \<open>
  \<open>Service.send\<close> on the shared channel. The outbox keeps its own lock for the whole send, so only the
  channel and the rest of the state can change meanwhile.
\<close>

definition send :: "'w env \<Rightarrow> 'w shim sender" where
  "send x ns e s = (case e_room x s of
     (True, s') \<Rightarrow> (True, s'\<lparr>sh_chan := sh_chan s' @ [(ns, e)], sh_calls := sh_calls s\<rparr>)
   | (False, s') \<Rightarrow> (False, s'\<lparr>sh_calls := sh_calls s\<rparr>))"

definition events_Send :: "'w env \<Rightarrow> nat \<Rightarrow> task_event \<Rightarrow> ('w, unit) go" where
  "events_Send x a evt = atomic x (\<lambda>s. case Send (send x) (p_events (sh_procs s a)) evt s of
     (ob', s') \<Rightarrow> ((), s'\<lparr>sh_procs := (sh_procs s')(a := (sh_procs s' a)\<lparr>p_events := ob'\<rparr>)\<rparr>))"

end
