(* ===== verification/Registry.thy ===== *)
theory Registry
  imports World
begin

text \<open>
  The two tables of processes (\<open>process.go\<close>): \<open>processManager\<close>, keyed by container or exec id, which
  never replaces an entry, and \<open>unitManager\<close>, keyed by the escaped unit name, through which
  the event reactor finds the process a signal is about. Both are stated as instances of an
  abstract index.
\<close>

subsection \<open>Operations\<close>

definition pm_Add :: "('k \<times> 'v) list \<Rightarrow> 'k \<Rightarrow> 'v \<Rightarrow> err option \<times> ('k \<times> 'v) list" where
  "pm_Add m k p = (case map_of m k of
     Some _ \<Rightarrow> (Some ErrAlreadyExists, m)
   | None \<Rightarrow> (None, AList.update k p m))"

definition pm_Get :: "('k \<times> 'v) list \<Rightarrow> 'k \<Rightarrow> 'v option" where
  "pm_Get m k = map_of m k"

definition pm_Delete :: "('k \<times> 'v) list \<Rightarrow> 'k \<Rightarrow> ('k \<times> 'v) list" where
  "pm_Delete m k = AList.delete k m"

definition pm_Each :: "('v \<Rightarrow> ('w, unit) go) \<Rightarrow> ('k \<times> 'v) list \<Rightarrow> ('w, unit) go" where
  "pm_Each f m = each f (map snd m)"

definition newUnitManager :: "(string \<times> ptr) list" where
  "newUnitManager = []"

definition PathName :: "ptr \<Rightarrow> string" where
  "PathName p = c_pathName (ptr_conf p)"

definition um_Add :: "(string \<times> ptr) list \<Rightarrow> ptr \<Rightarrow> (string \<times> ptr) list" where
  "um_Add m p = AList.update (PathName p) p m"

definition um_Delete :: "(string \<times> ptr) list \<Rightarrow> ptr \<Rightarrow> (string \<times> ptr) list" where
  "um_Delete m p = AList.delete (PathName p) m"

definition GetByPath :: "(string \<times> ptr) list \<Rightarrow> string \<Rightarrow> ptr option" where
  "GetByPath m pathBase = map_of m pathBase"

definition Paths :: "(string \<times> ptr) list \<Rightarrow> string list" where
  "Paths m = map fst m"

subsection \<open>The interface\<close>

locale index =
  fixes get :: "'m \<Rightarrow> 'k \<Rightarrow> 'v option"
    and del :: "'m \<Rightarrow> 'k \<Rightarrow> 'm"
    and keys :: "'m \<Rightarrow> 'k list"
    and ok :: "'m \<Rightarrow> bool"
  assumes get_del: "get (del m k) k' = (if k' = k then None else get m k')"
    and ok_del: "ok m \<Longrightarrow> ok (del m k)"
    and keys_get: "k \<in> set (keys m) \<longleftrightarrow> get m k \<noteq> None"
    and keys_distinct: "ok m \<Longrightarrow> distinct (keys m)"
begin

lemma del_twice: "get (del (del m k) k) k' = get (del m k) k'"
  by (simp add: get_del)

lemma del_keys: "set (keys (del m k)) = set (keys m) - {k}"
  by (auto simp: keys_get get_del split: if_splits)

end

text \<open>An index in which adding never replaces.\<close>

locale exclusive_index = index get del keys ok
  for get :: "'m \<Rightarrow> 'k \<Rightarrow> 'v option" and del :: "'m \<Rightarrow> 'k \<Rightarrow> 'm" and keys :: "'m \<Rightarrow> 'k list"
    and ok :: "'m \<Rightarrow> bool" +
  fixes add :: "'m \<Rightarrow> 'k \<Rightarrow> 'v \<Rightarrow> err option \<times> 'm"
  assumes add_refused: "get m k \<noteq> None \<Longrightarrow> add m k v = (Some ErrAlreadyExists, m)"
    and add_admitted: "get m k = None \<Longrightarrow> fst (add m k v) = None"
    and get_add: "get m k = None \<Longrightarrow> get (snd (add m k v)) k' = (if k' = k then Some v else get m k')"
    and ok_add: "ok m \<Longrightarrow> ok (snd (add m k v))"
begin

lemma add_keeps: "get m k = Some v \<Longrightarrow> get (snd (add m k' v')) k = Some v"
  by (cases "get m k' = None") (auto simp: get_add add_refused)

text \<open>Of any number of adds under one key the first one wins, and only it succeeds.\<close>

lemma adds_first_wins:
  "get m k = Some v \<Longrightarrow> get (fold (\<lambda>(k, v) m. snd (add m k v)) xs m) k = Some v"
  by (induction xs arbitrary: m) (auto simp: add_keeps)

lemma add_then_del: "get m k = None \<Longrightarrow> get (del (snd (add m k v)) k) k' = get m k'"
  by (simp add: get_del get_add)

end

text \<open>An index in which adding replaces.\<close>

locale replacing_index = index get del keys ok
  for get :: "'m \<Rightarrow> 'k \<Rightarrow> 'v option" and del :: "'m \<Rightarrow> 'k \<Rightarrow> 'm" and keys :: "'m \<Rightarrow> 'k list"
    and ok :: "'m \<Rightarrow> bool" +
  fixes put :: "'m \<Rightarrow> 'v \<Rightarrow> 'm" and key :: "'v \<Rightarrow> 'k"
  assumes get_put: "get (put m v) k = (if k = key v then Some v else get m k)"
    and ok_put: "ok m \<Longrightarrow> ok (put m v)"
begin

lemma put_keys: "set (keys (put m v)) = insert (key v) (set (keys m))"
  by (auto simp: keys_get get_put split: if_splits)

lemma put_then_del: "get (del (put m v) (key v)) k = get (del m (key v)) k"
  by (simp add: get_del get_put)

text \<open>What is found under a key was put under it, in any history of puts and deletes.\<close>

lemma history_keyed:
  assumes "\<And>k v. get m k = Some v \<Longrightarrow> key v = k"
  shows "get (fold (\<lambda>op m. case op of Inl v \<Rightarrow> put m v | Inr v \<Rightarrow> del m (key v)) ops m) k = Some v
           \<Longrightarrow> key v = k"
  using assms
proof (induction ops arbitrary: m)
  case Nil
  then show ?case by simp
next
  case (Cons op ops)
  show ?case
  proof (rule Cons.IH)
    show "get (fold (\<lambda>op m. case op of Inl v \<Rightarrow> put m v | Inr v \<Rightarrow> del m (key v)) ops
            (case op of Inl v \<Rightarrow> put m v | Inr v \<Rightarrow> del m (key v))) k = Some v"
      using Cons.prems(1) by simp
    show "get (case op of Inl v \<Rightarrow> put m v | Inr v \<Rightarrow> del m (key v)) k' = Some v' \<Longrightarrow> key v' = k'" for k' v'
      using Cons.prems(2) by (cases op) (auto simp: get_put get_del split: if_splits)
  qed
qed

end

abbreviation keys_of :: "('k \<times> 'v) list \<Rightarrow> 'k list" where
  "keys_of m \<equiv> map fst m"

lemma in_keys_iff: "k \<in> set (map fst m) \<longleftrightarrow> map_of m k \<noteq> None"
  by (simp add: map_of_eq_None_iff)

interpretation pm: exclusive_index pm_Get pm_Delete keys_of "\<lambda>m. distinct (map fst m)" pm_Add
proof unfold_locales
  show "k \<in> set (keys_of m) \<longleftrightarrow> pm_Get m k \<noteq> None" for m :: "('a \<times> 'b) list" and k
    unfolding pm_Get_def by (rule in_keys_iff)
qed (auto simp: pm_Get_def pm_Delete_def pm_Add_def delete_conv' update_conv' split: option.splits
      intro: distinct_delete distinct_update)

interpretation um: replacing_index GetByPath "\<lambda>m k. AList.delete k m" Paths "\<lambda>m. distinct (map fst m)"
    um_Add PathName
proof unfold_locales
  show "k \<in> set (Paths m) \<longleftrightarrow> GetByPath m k \<noteq> None" for m k
    unfolding GetByPath_def Paths_def by (rule in_keys_iff)
qed (auto simp: GetByPath_def um_Add_def Paths_def delete_conv' update_conv'
      intro: distinct_delete distinct_update)

lemma um_Delete_eq: "um_Delete m p = AList.delete (PathName p) m"
  by (simp add: um_Delete_def)

subsection \<open>Properties\<close>

text \<open>
  Registration is exclusive. Registering a process under an id that is taken is refused and
  changes nothing; a process registered under a free id is the one every later lookup finds, whatever
  else is registered, and removing it restores every other lookup.
\<close>

theorem registration_exclusive:
  "(pm_Get m k \<noteq> None \<longrightarrow> pm_Add m k p = (Some ErrAlreadyExists, m))
   \<and> (pm_Get m k = None \<longrightarrow>
        fst (pm_Add m k p) = None
        \<and> pm_Get (fold (\<lambda>(k, v) m. snd (pm_Add m k v)) later (snd (pm_Add m k p))) k = Some p
        \<and> pm_Get (pm_Delete (snd (pm_Add m k p)) k) = pm_Get m)"
  using pm.add_refused [of m k p] pm.add_admitted [of m k p] pm.get_add [of m k p k]
    pm.adds_first_wins [of "snd (pm_Add m k p)" k p later] pm.add_then_del [of m k p]
  by (auto simp: fun_eq_iff)

theorem registration_exclusive_witness:
  "pm_Add [(''ns/a'', 1::nat)] ''ns/a'' 2 = (Some ErrAlreadyExists, [(''ns/a'', 1)])
   \<and> pm_Get (fold (\<lambda>(k, v) m. snd (pm_Add m k v)) [(''ns/b'', 3), (''ns/a'', 4)]
               (snd (pm_Add [] ''ns/a'' 2))) ''ns/a'' = Some (2::nat)"
  using registration_exclusive [of "[(''ns/a'', 1::nat)]" "''ns/a''" 2 "[]"]
    registration_exclusive [of "[]" "''ns/a''" "2::nat" "[(''ns/b'', 3), (''ns/a'', 4)]"]
  by (simp add: pm_Get_def)

end
