(* ===== verification/Units.thy ===== *)
theory Units
  imports World
begin

text \<open>
  The names, paths and properties of the systemd units the shim starts for a process: \<open>unitName\<close> and
  its users, the files beside the bundle, the command lines handed to systemd (\<open>start.go\<close>,
  \<open>create.go\<close>, \<open>pty.go\<close>, \<open>process.go\<close>).
\<close>

subsection \<open>Names and paths\<close>

definition unitName :: "string \<Rightarrow> string \<Rightarrow> string \<Rightarrow> string" where
  "unitName ns i md =
     (let n = ''io-containerd-systemd-'' @ ns @ ''-'' @ i
      in (if md \<noteq> '''' then n @ ''-'' @ md else n) @ ''.service'')"

definition init_Name :: "init_ptr \<Rightarrow> string" where
  "init_Name p = unitName (c_ns (ip_conf p)) (c_id (ip_conf p)) ''init''"

definition exec_Name :: "exec_ptr \<Rightarrow> string" where
  "exec_Name p = unitName (c_ns (ep_conf p)) (c_id (ip_conf (ep_parent p)) @ ''-'' @ c_id (ep_conf p)) ''exec''"

fun Name :: "ptr \<Rightarrow> string" where
  "Name (InitP p) = init_Name p" | "Name (ExecP p) = exec_Name p"

definition ttyUnitName :: "process_conf \<Rightarrow> string" where
  "ttyUnitName c = unitName (c_ns c) (c_id c) ''tty''"

definition init_pidFile :: "init_ptr \<Rightarrow> string" where
  "init_pidFile p = path_Join [c_root (ip_conf p), ''init.pid'']"

definition init_exitStatePath :: "init_ptr \<Rightarrow> string" where
  "init_exitStatePath p = path_Join [ip_Bundle p, ''init_exit_status.json'']"

definition mountConfigPath :: "init_ptr \<Rightarrow> string" where
  "mountConfigPath p = path_Join [ip_Bundle p, ''mounts.pb'']"

definition stateDir :: "exec_ptr \<Rightarrow> string" where
  "stateDir p = path_Join [ip_Bundle (ep_parent p), ''execs'', ep_execID p]"

definition exec_pidFile :: "exec_ptr \<Rightarrow> string" where
  "exec_pidFile p = path_Join [stateDir p, ''pid'']"

definition exec_exitStatePath :: "exec_ptr \<Rightarrow> string" where
  "exec_exitStatePath p = path_Join [stateDir p, ''exit_status.json'']"

definition processFilePath :: "exec_ptr \<Rightarrow> string" where
  "processFilePath p = path_Join [stateDir p, ''process.json'']"

subsection \<open>Command lines and properties\<close>

definition runcCmd :: "process_conf \<Rightarrow> CreateOptions \<Rightarrow> string list \<Rightarrow> string list" where
  "runcCmd c opts cmd =
     (let r = c_runc c;
          root = [rc_Command r, ''--debug='' @ FormatBool (rc_Debug r),
                  ''--systemd-cgroup='' @ FormatBool (co_SystemdCgroup opts), ''--root'', rc_Root r];
          root' = (if rc_Debug r then root @ [''--log'', rc_Log r] else root)
      in root' @ cmd)"

definition propExecCommand :: "string \<Rightarrow> execCommand list \<Rightarrow> property" where
  "propExecCommand name cmds = PropExecs name cmds"

definition unitType :: "CreateOptions \<Rightarrow> string" where
  "unitType opts = (if co_SdNotifyEnable opts then ''notify'' else ''forking'')"

definition RestoreArgs :: "CreateOptions \<Rightarrow> string list" where
  "RestoreArgs c =
     (if co_NoPivotRoot c then [''--no-pivot''] else [])
     @ (if co_OpenTcp c then [''--tcp-established''] else [])
     @ (if co_FileLocks c then [''--file-locks''] else [])
     @ (if co_ExternalUnixSockets c then [''--ext-unix-sk''] else [])
     @ map (\<lambda>ns. ''--empty-ns='' @ ns) (co_EmptyNamespaces c)
     @ (if co_CgroupsMode c \<noteq> '''' then [''--manage-cgroups-mode='' @ co_CgroupsMode c] else [])"

definition unit_environment :: "process_conf \<Rightarrow> string \<Rightarrow> string \<Rightarrow> string \<Rightarrow> string list" where
  "unit_environment c pidFile name exitState =
     [''PIDFILE='' @ pidFile, ''STDIN_FIFO='' @ c_Stdin c, ''STDOUT_FIFO='' @ c_Stdout c,
      ''STDERR_FIFO='' @ c_Stderr c, ''UNIT_NAME='' @ name, ''EXIT_STATE_PATH='' @ exitState]
     @ (if c_shimCgroup c \<noteq> '''' then [''SHIM_CGROUP='' @ c_shimCgroup c] else [])"

text \<open>
  \<open>initProcess.startProperties\<close>. The error result of the source is always nil, since \<open>runcCmd\<close>
  never fails.
\<close>

definition init_startProperties :: "init_ptr \<Rightarrow> process \<Rightarrow> string list \<Rightarrow> property list" where
  "init_startProperties p pr rcmd =
     (let c = ip_conf p;
          env = unit_environment c (init_pidFile p) (init_Name p) (init_exitStatePath p);
          props = [PropType (unitType (p_opts pr)), PropRemainAfterExit False,
                   PropStr ''WorkingDirectory'' (ip_Bundle p), PropStr ''PIDFile'' (init_pidFile p),
                   PropBool ''Delegate'' True];
          prefix = [c_exe c, ''--debug='' @ FormatBool (rc_Debug (c_runc c)), ''--bundle='' @ ip_Bundle p,
                    ''create''];
          (props, prefix) =
            (if ip_Rootfs p \<noteq> [] then
               if ip_noNewNamespace p then
                 (props @ [propExecCommand ''ExecStartPre''
                             [\<lparr>ec_Path = c_exe c, ec_Args = [c_exe c, ''mount'', mountConfigPath p],
                               ec_IgnoreFail = False\<rparr>],
                           propExecCommand ''ExecStopPost''
                             [\<lparr>ec_Path = c_exe c,
                               ec_Args = [c_exe c, ''unmount'', path_Join [ip_Bundle p, ''rootfs'']],
                               ec_IgnoreFail = True\<rparr>]],
                  prefix)
               else (props @ [PropBool ''PrivateMounts'' True], prefix @ [''--mounts='' @ mountConfigPath p])
             else (props, prefix));
          prefix = (if p_Terminal pr \<or> co_Terminal (p_opts pr) then prefix @ [''--tty''] else prefix);
          argv = prefix @ runcCmd c (p_opts pr) (rcmd @ [c_id c])
      in props @ [propExecCommand ''ExecStart'' [\<lparr>ec_Path = hd argv, ec_Args = argv, ec_IgnoreFail = False\<rparr>],
                  PropStrs ''Environment'' env])"

text \<open>
  \<open>execProcess.startProperties\<close> once the tty socket path is known: \<open>sock\<close> is it, when the process
  has a terminal.
\<close>

definition exec_unit_properties :: "exec_ptr \<Rightarrow> process \<Rightarrow> string option \<Rightarrow> property list" where
  "exec_unit_properties p pr sock =
     (let c = ep_conf p; bundle = ip_Bundle (ep_parent p);
          env = unit_environment c (exec_pidFile p) (exec_Name p) (exec_exitStatePath p);
          props = [PropType ''notify'', PropRemainAfterExit False, PropStr ''WorkingDirectory'' bundle,
                   PropStr ''PIDFile'' (exec_pidFile p), PropBool ''GuessMainPID'' True,
                   PropBool ''Delegate'' True];
          prefix = [c_exe c, ''--debug='' @ FormatBool (rc_Debug (c_runc c)), ''--bundle='' @ bundle, ''create''];
          cmd = [''exec'', ''--process'', processFilePath p, ''--pid-file='' @ exec_pidFile p, ''--detach''];
          (cmd, prefix) =
            (case sock of
               Some s \<Rightarrow> (cmd @ [''-t'', ''--console-socket='' @ s], prefix @ [''--tty''])
             | None \<Rightarrow> (cmd, prefix));
          argv = prefix @ runcCmd c (p_opts pr) (cmd @ [c_id (ip_conf (ep_parent p))])
      in props @ [propExecCommand ''ExecStart'' [\<lparr>ec_Path = hd argv, ec_Args = argv, ec_IgnoreFail = False\<rparr>],
                  PropStrs ''Environment'' env])"

definition ttyServiceProperties :: "process_conf \<Rightarrow> string \<Rightarrow> string \<Rightarrow> property list" where
  "ttyServiceProperties c sockPath logPath =
     (let env = [''_TTY_HANDSHAKE=1'', ''_TTY_SOCKET_PATH='' @ sockPath]
                @ (if c_shimCgroup c \<noteq> '''' then [''SHIM_CGROUP='' @ c_shimCgroup c] else [])
      in [PropType ''notify'', PropExecStart [c_exe c, ''tty-handshake''] False,
          PropStrs ''Environment'' env, PropStr ''StandardErrorFile'' logPath]
         @ (if c_Stdin c \<noteq> '''' then [PropStr ''StandardInputFile'' (c_Stdin c)] else [])
         @ (if c_Stdout c \<noteq> '''' then [PropStr ''StandardOutputFile'' (c_Stdout c)] else []))"

subsection \<open>Unit names identify processes\<close>

text \<open>Splitting at the first dash.\<close>

lemma dash_split:
  assumes "CHR ''-'' \<notin> set a" "CHR ''-'' \<notin> set b" "a @ CHR ''-'' # x = b @ CHR ''-'' # y"
  shows "a = b \<and> x = y"
  using assms
proof (induction a arbitrary: b)
  case Nil
  then show ?case by (cases b) auto
next
  case (Cons c a)
  then show ?case by (cases b) auto
qed

lemma unitName_plain_inject:
  assumes "CHR ''-'' \<notin> set ns" "CHR ''-'' \<notin> set ns'" and "md \<noteq> ''''" "md' \<noteq> ''''"
    and "unitName ns i md = unitName ns' i' md'"
  shows "ns = ns' \<and> i @ ''-'' @ md = i' @ ''-'' @ md'"
proof -
  have "ns @ CHR ''-'' # i @ ''-'' @ md = ns' @ CHR ''-'' # i' @ ''-'' @ md'"
    using assms(3-5) by (simp add: unitName_def Let_def)
  from dash_split [OF assms(1,2) this] show ?thesis by simp
qed

text \<open>A name component in which \<open>unitName\<close> can find its way back.\<close>

definition dashless :: "string \<Rightarrow> bool" where
  "dashless e \<longleftrightarrow> CHR ''-'' \<notin> set e"

text \<open>
  Unit names identify processes as long as no id contains a dash. Two processes of the shim,
  tasks or execs, in namespaces and with ids free of dashes, have the same unit name only if they are
  in the same namespace and are the same task, or the same exec of the same task.
\<close>

theorem unit_names_identify:
  assumes "\<forall>q \<in> {p, p'}. dashless (c_ns (ptr_conf q)) \<and> dashless (c_id (ptr_conf q))
             \<and> (case q of ExecP e \<Rightarrow> dashless (c_id (ip_conf (ep_parent e))) | _ \<Rightarrow> True)"
    and "Name p = Name p'"
  shows "c_ns (ptr_conf p) = c_ns (ptr_conf p') \<and> c_id (ptr_conf p) = c_id (ptr_conf p')
       \<and> (case (p, p') of
            (InitP _, InitP _) \<Rightarrow> True
          | (ExecP e, ExecP e') \<Rightarrow> c_id (ip_conf (ep_parent e)) = c_id (ip_conf (ep_parent e'))
          | _ \<Rightarrow> False)"
proof -
  show ?thesis
  proof (cases p; cases p')
    fix q q' assume p: "p = InitP q" "p' = InitP q'"
    with assms show ?thesis
      using unitName_plain_inject [of "c_ns (ip_conf q)" "c_ns (ip_conf q')" "''init''" "''init''"]
      by (auto simp: init_Name_def dashless_def)
  next
    fix q q' assume p: "p = ExecP q" "p' = ExecP q'"
    let ?i = "c_id (ip_conf (ep_parent q))" and ?j = "c_id (ep_conf q)"
    let ?i' = "c_id (ip_conf (ep_parent q'))" and ?j' = "c_id (ep_conf q')"
    have d: "CHR ''-'' \<notin> set ?i" "CHR ''-'' \<notin> set ?i'" using assms(1) p by (auto simp: dashless_def)
    have n: "c_ns (ep_conf q) = c_ns (ep_conf q') \<and> (?i @ ''-'' @ ?j) @ ''-'' @ ''exec'' = (?i' @ ''-'' @ ?j') @ ''-'' @ ''exec''"
      by (rule unitName_plain_inject) (use assms p in \<open>auto simp: exec_Name_def dashless_def\<close>)
    then have "?i @ CHR ''-'' # ?j = ?i' @ CHR ''-'' # ?j'" by simp
    from dash_split [OF d this] n p show ?thesis by simp
  next
    fix q q' assume p: "p = InitP q" "p' = ExecP q'"
    have "c_id (ip_conf q) @ ''-'' @ ''init'' = (c_id (ip_conf (ep_parent q')) @ ''-'' @ c_id (ep_conf q')) @ ''-'' @ ''exec''"
      using unitName_plain_inject [of "c_ns (ip_conf q)" "c_ns (ep_conf q')" "''init''" "''exec''"] assms p
      by (auto simp: init_Name_def exec_Name_def dashless_def)
    then have "last (c_id (ip_conf q) @ ''-'' @ ''init'') = last ((c_id (ip_conf (ep_parent q')) @ ''-'' @ c_id (ep_conf q')) @ ''-'' @ ''exec'')"
      by (rule arg_cong)
    then show ?thesis by simp
  next
    fix q q' assume p: "p = ExecP q" "p' = InitP q'"
    have "(c_id (ip_conf (ep_parent q)) @ ''-'' @ c_id (ep_conf q)) @ ''-'' @ ''exec'' = c_id (ip_conf q') @ ''-'' @ ''init''"
      using unitName_plain_inject [of "c_ns (ep_conf q)" "c_ns (ip_conf q')" "''exec''" "''init''"] assms p
      by (auto simp: init_Name_def exec_Name_def dashless_def)
    then have "last ((c_id (ip_conf (ep_parent q)) @ ''-'' @ c_id (ep_conf q)) @ ''-'' @ ''exec'') = last (c_id (ip_conf q') @ ''-'' @ ''init'')"
      by (rule arg_cong)
    then show ?thesis by simp
  qed
qed

text \<open>Pointers with the given ids, for concrete runs.\<close>

definition blank_runc :: runc_config where
  "blank_runc = \<lparr>rc_Debug = False, rc_Command = ''/usr/bin/runc'', rc_SystemdCgroup = False,
     rc_Root = ''/run/runc/ns'', rc_Log = '''', rc_WorkDir = ''''\<rparr>"

definition blank_conf :: "string \<Rightarrow> string \<Rightarrow> process_conf" where
  "blank_conf ns i = \<lparr>c_ns = ns, c_id = i, c_root = ''/b'', c_pathName = ''u_'' @ i, c_exe = ''/usr/bin/shim'',
     c_Stdin = '''', c_Stdout = '''', c_Stderr = '''', c_runc = blank_runc, c_pinned = True,
     c_shimCgroup = ''''\<rparr>"

definition blank_init :: "nat \<Rightarrow> string \<Rightarrow> string \<Rightarrow> init_ptr" where
  "blank_init a ns i = \<lparr>ip_addr = a, ip_conf = blank_conf ns i, ip_Bundle = ''/b'', ip_Rootfs = [],
     ip_checkpoint = '''', ip_parentCheckpoint = '''', ip_noNewNamespace = False,
     ip_killAllOnExit = False\<rparr>"

definition blank_exec :: "nat \<Rightarrow> init_ptr \<Rightarrow> string \<Rightarrow> exec_ptr" where
  "blank_exec a par i = \<lparr>ep_addr = a, ep_conf = blank_conf (c_ns (ip_conf par)) i,
     ep_Spec = \<lparr>any_TypeUrl = '''', any_Value = ''{}''\<rparr>, ep_parent = par, ep_execID = i\<rparr>"

lemmas blank_ptr_defs = blank_runc_def blank_conf_def blank_init_def blank_exec_def

theorem unit_names_identify_witness:
  "Name (ExecP (blank_exec 1 (blank_init 0 ''ns'' ''c'') ''e'')) = ''io-containerd-systemd-ns-c-e-exec.service''
   \<and> c_id (ptr_conf (ExecP (blank_exec 1 (blank_init 0 ''ns'' ''c'') ''e'')))
       = c_id (ptr_conf (ExecP (blank_exec 2 (blank_init 0 ''ns'' ''c'') ''e'')))"
  using unit_names_identify [of "ExecP (blank_exec 1 (blank_init 0 ''ns'' ''c'') ''e'')"
      "ExecP (blank_exec 2 (blank_init 0 ''ns'' ''c'') ''e'')"]
  by (simp add: blank_ptr_defs exec_Name_def unitName_def dashless_def)

text \<open>
  With dashes in ids or namespaces, unit names collide. The task \<open>y-z\<close> of namespace
  \<open>x\<close> and the task \<open>z\<close> of namespace \<open>x-y\<close> have the same unit name, and so have the exec \<open>z\<close> of the
  task \<open>x-y\<close> and the exec \<open>y-z\<close> of the task \<open>x\<close>, in every namespace and for all such ids.
\<close>

lemma unit_names_collide:
  "unitName x (y @ ''-'' @ z) md = unitName (x @ ''-'' @ y) z md
   \<and> exec_Name (blank_exec a (blank_init b ns (x @ ''-'' @ y)) z)
       = exec_Name (blank_exec a' (blank_init b' ns x) (y @ ''-'' @ z))"
  by (simp add: unitName_def exec_Name_def blank_ptr_defs)

text \<open>
  The tty unit of an exec is named after the exec id alone. Two execs with the same id in
  different containers of a namespace share one tty unit name, and an exec whose id is a
  container's id shares it with that container.
\<close>

lemma exec_tty_unit_shared:
  assumes "c_ns (ep_conf e) = c_ns (ep_conf e')" and "c_id (ep_conf e) = c_id (ep_conf e')"
  shows "ttyUnitName (ep_conf e) = ttyUnitName (ep_conf e')"
  using assms by (simp add: ttyUnitName_def)

end
