(* ===== verification/Logic.thy ===== *)
theory Logic
  imports Registry Units
begin

text \<open>
  Reasoning about programs of the shim's monad: a weakest-precondition calculus by rewriting
  (collection \<open>wp_simps\<close>), and a calculus for the calls a program makes (collection \<open>only_rules\<close>).
\<close>

named_theorems wp_simps \<open>weakest preconditions of program constructs\<close>
named_theorems only_rules \<open>which calls a program makes\<close>

subsection \<open>Weakest preconditions\<close>

definition wp :: "('s, 'a) state \<Rightarrow> ('a \<Rightarrow> 's \<Rightarrow> bool) \<Rightarrow> 's \<Rightarrow> bool" where
  "wp m Q s \<longleftrightarrow> (case run_state m s of (r, s') \<Rightarrow> Q r s')"

lemma wp_return [wp_simps]: "wp (return_go r) Q s \<longleftrightarrow> Q r s"
  by (simp add: wp_def)

lemma wp_bind [wp_simps]: "wp (State_Monad.bind m f) Q s \<longleftrightarrow> wp m (\<lambda>r. wp (f r) Q) s"
  by (simp add: wp_def split: prod.splits)

lemma wp_if [wp_simps]: "wp (if b then m else n) Q s \<longleftrightarrow> (if b then wp m Q s else wp n Q s)"
  by simp

lemma wp_option [wp_simps]:
  "wp (case v of None \<Rightarrow> m | Some y \<Rightarrow> f y) Q s \<longleftrightarrow> (case v of None \<Rightarrow> wp m Q s | Some y \<Rightarrow> wp (f y) Q s)"
  by (cases v) simp_all

lemma wp_sum [wp_simps]:
  "wp (case v of Inl y \<Rightarrow> g y | Inr y \<Rightarrow> f y) Q s \<longleftrightarrow> (case v of Inl y \<Rightarrow> wp (g y) Q s | Inr y \<Rightarrow> wp (f y) Q s)"
  by (cases v) simp_all

lemma wp_prod [wp_simps]:
  "wp (case v of (y, z) \<Rightarrow> f y z) Q s \<longleftrightarrow> (case v of (y, z) \<Rightarrow> wp (f y z) Q s)"
  by (cases v) simp_all

lemma wp_Let [wp_simps]: "wp (Let v f) Q s \<longleftrightarrow> (let y = v in wp (f y) Q s)"
  by simp

lemma wp_ext [wp_simps]:
  "wp (ext cs f) Q s \<longleftrightarrow> (case f s of (r, s') \<Rightarrow> Q r (s'\<lparr>sh_calls := sh_calls s @ cs\<rparr>))"
  by (simp add: wp_def ext_def split: prod.splits)

lemma wp_atomic [wp_simps]:
  "wp (atomic x f) Q s \<longleftrightarrow> (case f (interfere x s) of (r, s') \<Rightarrow> Q r (s'\<lparr>sh_calls := sh_calls s\<rparr>))"
  by (simp add: wp_def atomic_def split: prod.splits)

lemma wp_try_go [wp_simps]:
  "wp (try_go m f) Q s \<longleftrightarrow> wp m (\<lambda>r. case r of Inl e \<Rightarrow> Q (Inl e) | Inr v \<Rightarrow> wp (f v) Q) s"
  by (simp add: try_go_def wp_simps wp_def split: prod.splits sum.splits)

lemma wp_check_go [wp_simps]:
  "wp (check_go m k) Q s \<longleftrightarrow> wp m (\<lambda>r. case r of Some e \<Rightarrow> Q (Inl e) | None \<Rightarrow> wp k Q) s"
  by (simp add: check_go_def wp_simps wp_def split: prod.splits option.splits)

lemma wp_ignore [wp_simps]: "wp (ignore m) Q s \<longleftrightarrow> wp m (\<lambda>_. Q ()) s"
  by (simp add: ignore_def wp_simps wp_def split: prod.splits)

lemma wp_when_go [wp_simps]: "wp (when_go b m) Q s \<longleftrightarrow> (if b then wp m Q s else Q () s)"
  by (simp add: when_go_def wp_return)

lemma wp_mono: "wp m Q s \<Longrightarrow> (\<And>r s'. Q r s' \<Longrightarrow> R r s') \<Longrightarrow> wp m R s"
  by (auto simp: wp_def split: prod.splits)

lemma wp_run: "wp m (\<lambda>r s'. run_state m s = (r, s')) s"
  by (auto simp: wp_def)

lemma wpD: "wp m Q s \<Longrightarrow> run_state m s = (r, s') \<Longrightarrow> Q r s'"
  by (simp add: wp_def)

lemma wp_conj: "wp m Q s \<Longrightarrow> wp m R s \<Longrightarrow> wp m (\<lambda>r s'. Q r s' \<and> R r s') s"
  by (auto simp: wp_def split: prod.splits)

lemma wp_True [simp]: "wp m (\<lambda>_ _. True) s"
  by (simp add: wp_def split: prod.splits)

subsection \<open>The calls a program makes\<close>

text \<open>
  \<open>only C m\<close>: whatever happens, \<open>m\<close> appends calls to the trace, and each of them satisfies \<open>C\<close>.
\<close>

definition only :: "(call \<Rightarrow> bool) \<Rightarrow> ('w, 'a) go \<Rightarrow> bool" where
  "only C m \<longleftrightarrow> (\<forall>s. \<exists>cs. sh_calls (snd (run_state m s)) = sh_calls s @ cs \<and> list_all C cs)"

lemma only_wp: "only C m \<longleftrightarrow> (\<forall>s. wp m (\<lambda>r s'. \<exists>cs. sh_calls s' = sh_calls s @ cs \<and> list_all C cs) s)"
  by (simp add: only_def wp_def split: prod.splits) (metis snd_conv surj_pair)

lemma only_mono: "only C m \<Longrightarrow> (\<And>c. C c \<Longrightarrow> D c) \<Longrightarrow> only D m"
  unfolding only_def list_all_iff by blast

lemma only_return [only_rules]: "only C (return_go r)"
  by (simp add: only_def)

lemma only_bind [only_rules]:
  assumes "only C m" and "\<And>r. only C (f r)"
  shows "only C (State_Monad.bind m f)"
  unfolding only_def
proof
  fix s
  obtain r s1 where 1: "run_state m s = (r, s1)" by fastforce
  obtain cs where cs: "sh_calls s1 = sh_calls s @ cs" "list_all C cs"
    using assms(1) 1 unfolding only_def by (metis snd_conv)
  obtain cs' where "sh_calls (snd (run_state (f r) s1)) = sh_calls s1 @ cs'" "list_all C cs'"
    using assms(2) unfolding only_def by blast
  with cs 1 show "\<exists>cs. sh_calls (snd (run_state (State_Monad.bind m f) s)) = sh_calls s @ cs \<and> list_all C cs"
    by (intro exI [of _ "cs @ cs'"]) simp
qed

lemma only_if [only_rules]: "(b \<Longrightarrow> only C m) \<Longrightarrow> (\<not> b \<Longrightarrow> only C n) \<Longrightarrow> only C (if b then m else n)"
  by simp

lemma only_option [only_rules]:
  "only C m \<Longrightarrow> (\<And>y. only C (f y)) \<Longrightarrow> only C (case v of None \<Rightarrow> m | Some y \<Rightarrow> f y)"
  by (cases v) simp_all

lemma only_sum [only_rules]:
  "(\<And>y. only C (g y)) \<Longrightarrow> (\<And>y. only C (f y)) \<Longrightarrow> only C (case v of Inl y \<Rightarrow> g y | Inr y \<Rightarrow> f y)"
  by (cases v) simp_all

lemma only_prod [only_rules]: "(\<And>y z. only C (f y z)) \<Longrightarrow> only C (case v of (y, z) \<Rightarrow> f y z)"
  by (cases v) simp

lemma only_Let [only_rules]: "(\<And>y. only C (f y)) \<Longrightarrow> only C (Let v f)"
  by simp

lemma only_ext [only_rules]: "list_all C cs \<Longrightarrow> only C (ext cs f)"
  by (auto simp: only_def ext_def split: prod.splits)

lemma only_atomic [only_rules]: "only C (atomic x f)"
  by (auto simp: only_def atomic_def split: prod.splits)

lemma only_locked [only_rules]: "only C (locked x a f)"
  by (simp add: locked_def only_atomic)

lemma only_reading [only_rules]: "only C (reading x a f)"
  by (simp add: reading_def only_atomic)

lemma only_calls [only_rules]:
  "only C (now x)" "only C (ctxDone x c)" "C k \<Longrightarrow> only C (callE x k)" "C k \<Longrightarrow> only C (callS x k)"
  "C k \<Longrightarrow> only C (callProps x k)" "C k \<Longrightarrow> only C (callJob x k)" "C k \<Longrightarrow> only C (callList x k)"
  "C k \<Longrightarrow> only C (callPids x k)" "C k \<Longrightarrow> only C (callFd x k)"
  by (simp_all add: call_defs only_ext)

lemma only_try_go [only_rules]: "only C m \<Longrightarrow> (\<And>v. only C (f v)) \<Longrightarrow> only C (try_go m f)"
  unfolding try_go_def by (intro only_rules)

lemma only_check_go [only_rules]: "only C m \<Longrightarrow> only C k \<Longrightarrow> only C (check_go m k)"
  unfolding check_go_def by (intro only_rules)

lemma only_ignore [only_rules]: "only C m \<Longrightarrow> only C (ignore m)"
  unfolding ignore_def by (intro only_rules)

lemma only_when_go [only_rules]: "only C m \<Longrightarrow> only C (when_go b m)"
  by (simp add: when_go_def only_return)

lemma only_each [only_rules]: "(\<And>y. only C (f y)) \<Longrightarrow> only C (each f ys)"
  by (induction ys) (simp_all add: only_return only_bind)

lemma only_pm_Each [only_rules]: "(\<And>y. only C (f y)) \<Longrightarrow> only C (pm_Each f m)"
  by (simp add: pm_Each_def only_each)

lemma only_countState [only_rules]: "only C (countState x k)"
  by (simp add: countState_def only_atomic)

lemma only_events_Send [only_rules]: "only C (events_Send x a e)"
  by (simp add: events_Send_def only_atomic)

text \<open>A program that appends nothing leaves the trace as it is.\<close>

abbreviation silent :: "('w, 'a) go \<Rightarrow> bool" where
  "silent m \<equiv> only (\<lambda>_. False) m"

lemma silent_calls: "silent m \<Longrightarrow> sh_calls (snd (run_state m s)) = sh_calls s"
proof -
  assume "silent m"
  then obtain cs where "sh_calls (snd (run_state m s)) = sh_calls s @ cs" "list_all (\<lambda>_. False) cs"
    unfolding only_def by blast
  then show ?thesis by (cases cs) simp_all
qed

lemma silent_wp: "silent m \<Longrightarrow> wp m (\<lambda>_ s'. sh_calls s' = sh_calls s) s"
  using silent_calls [of m s] by (cases "run_state m s") (simp add: wp_def)

lemma only_wpI: "only C m \<Longrightarrow> (\<And>r s' cs. sh_calls s' = sh_calls s @ cs \<Longrightarrow> list_all C cs \<Longrightarrow> Q r s') \<Longrightarrow> wp m Q s"
  using wp_mono [of m "\<lambda>r s'. \<exists>cs. sh_calls s' = sh_calls s @ cs \<and> list_all C cs" s Q] unfolding only_wp by blast

subsection \<open>Rely and guarantee\<close>

text \<open>
  \<open>rely R x\<close>: whatever the outside and the other goroutines do, the state moves along \<open>R\<close>.
  \<open>guar R m\<close>: a run of \<open>m\<close> moves the state along \<open>R\<close>.
\<close>

definition rely :: "('w shim \<Rightarrow> 'w shim \<Rightarrow> bool) \<Rightarrow> 'w env \<Rightarrow> bool" where
  "rely R x \<longleftrightarrow> (\<forall>s. R s (e_others x s) \<and> R s (snd (e_now x s)) \<and> R s (snd (e_room x s)))
     \<and> (\<forall>s c. R s (snd (e_done x c s)))
     \<and> (\<forall>s k. R s (snd (e_err x k s)) \<and> R s (snd (e_str x k s)) \<and> R s (snd (e_props x k s))
              \<and> R s (snd (e_job x k s)) \<and> R s (snd (e_list x k s)) \<and> R s (snd (e_pids x k s))
              \<and> R s (snd (e_fd x k s)))"

definition guar :: "('s \<Rightarrow> 's \<Rightarrow> bool) \<Rightarrow> ('s, 'a) state \<Rightarrow> bool" where
  "guar R m \<longleftrightarrow> (\<forall>s. R s (snd (run_state m s)))"

lemma guar_run: "guar R m \<Longrightarrow> run_state m s = (r, s') \<Longrightarrow> R s s'"
  by (metis guar_def snd_conv)

lemma guar_wp: "guar R m \<longleftrightarrow> (\<forall>s. wp m (\<lambda>_ s'. R s s') s)"
  by (simp add: guar_def wp_def split: prod.splits) (metis snd_conv surj_pair)

lemma flush_pass_rel:
  assumes "\<And>ns e c. R c (snd (snd_fn ns e c))" and "\<And>a b d. R a b \<Longrightarrow> R b d \<Longrightarrow> R a d" and "\<And>c. R c c"
  shows "R c (snd (snd (snd (snd (flush_pass snd_fn ob evts held sent c)))))"
proof (induction evts arbitrary: ob held sent c)
  case Nil
  then show ?case using assms(3) by simp
next
  case (Cons e evts)
  obtain b c1 where 1: "snd_fn (ob_ns ob) e c = (b, c1)" by fastforce
  have R1: "R c c1" using assms(1) [of c "ob_ns ob" e] by (simp add: 1)
  show ?case
    using Cons.IH [of c] assms(2) [OF R1 Cons.IH] R1 by (cases b) (simp_all add: 1)
qed

lemma flush_rel:
  assumes "\<And>ns e c. R c (snd (snd_fn ns e c))" and "\<And>a b d. R a b \<Longrightarrow> R b d \<Longrightarrow> R a d" and "\<And>c. R c c"
  shows "R c (snd (flush snd_fn ob c))"
proof (induction "length (ob_held ob)" arbitrary: ob c rule: less_induct)
  case less
  obtain ob' held sent stalled c' where fp: "flush_pass snd_fn ob (ob_held ob) [] False c = (ob', held, sent, stalled, c')"
    by (metis prod_cases5)
  have R1: "R c c'" using flush_pass_rel [of R snd_fn c ob "ob_held ob" "[]" False] assms fp by simp
  show ?case
  proof (cases "\<not> sent \<or> stalled")
    case True
    with fp R1 show ?thesis by (simp add: flush.simps [of snd_fn ob] Let_def)
  next
    case False
    with flush_pass_length [OF fp] have "length held < length (ob_held ob)" by simp
    then have "R c' (snd (flush snd_fn (ob'\<lparr>ob_held := held\<rparr>) c'))" by (intro less) simp
    with fp R1 False assms(2) show ?thesis by (simp add: flush.simps [of snd_fn ob] Let_def)
  qed
qed

locale guarantee =
  fixes R :: "'w shim \<Rightarrow> 'w shim \<Rightarrow> bool"
  assumes R_refl: "R s s"
    and R_trans: "R s t \<Longrightarrow> R t u \<Longrightarrow> R s u"
    and R_calls: "R s t \<Longrightarrow> R s (t\<lparr>sh_calls := cs\<rparr>)"
    and R_chan: "R s t \<Longrightarrow> R s (t\<lparr>sh_chan := ch\<rparr>)"
    and R_metrics: "R s t \<Longrightarrow> R s (t\<lparr>sh_metrics := me\<rparr>)"
    and R_events: "R s t \<Longrightarrow> R s (t\<lparr>sh_procs := (sh_procs t)(a := (sh_procs t a)\<lparr>p_events := ob\<rparr>)\<rparr>)"
begin

lemma guar_return: "guar R (return_go r)"
  by (simp add: guar_def R_refl)

lemma guar_bind: "guar R m \<Longrightarrow> (\<And>r. guar R (f r)) \<Longrightarrow> guar R (State_Monad.bind m f)"
  unfolding guar_def using R_trans by (auto split: prod.splits) (metis snd_conv)

lemma guar_if: "(b \<Longrightarrow> guar R m) \<Longrightarrow> (\<not> b \<Longrightarrow> guar R n) \<Longrightarrow> guar R (if b then m else n)"
  by simp

lemma guar_option: "guar R m \<Longrightarrow> (\<And>y. guar R (f y)) \<Longrightarrow> guar R (case v of None \<Rightarrow> m | Some y \<Rightarrow> f y)"
  by (cases v) simp_all

lemma guar_sum:
  "(\<And>y. guar R (g y)) \<Longrightarrow> (\<And>y. guar R (f y)) \<Longrightarrow> guar R (case v of Inl y \<Rightarrow> g y | Inr y \<Rightarrow> f y)"
  by (cases v) simp_all

lemma guar_prod: "(\<And>y z. guar R (f y z)) \<Longrightarrow> guar R (case v of (y, z) \<Rightarrow> f y z)"
  by (cases v) simp

lemma guar_Let: "(\<And>y. guar R (f y)) \<Longrightarrow> guar R (Let v f)"
  by simp

lemma guar_ext: "(\<And>s. R s (snd (f s))) \<Longrightarrow> guar R (ext cs f)"
  unfolding guar_def ext_def by (auto split: prod.splits intro: R_calls) (metis R_calls snd_conv)

lemma guar_atomic: "rely R x \<Longrightarrow> (\<And>s. R s (snd (f s))) \<Longrightarrow> guar R (atomic x f)"
  unfolding guar_def
proof
  fix s assume x: "rely R x" and f: "\<And>s. R s (snd (f s))"
  have "R s (interfere x s)" using x by (simp add: rely_def interfere_def R_calls)
  then have "R s (snd (f (interfere x s)))" using f R_trans by blast
  then show "R s (snd (run_state (atomic x f) s))"
    by (cases "f (interfere x s)") (simp add: atomic_def R_calls)
qed

lemma guar_reading: "rely R x \<Longrightarrow> guar R (reading x a f)"
  unfolding reading_def by (rule guar_atomic) (simp_all add: R_refl)

lemma guar_read_atomic: "rely R x \<Longrightarrow> guar R (atomic x (\<lambda>s. (f s, s)))"
  by (rule guar_atomic) (simp_all add: R_refl)

lemma guar_calls:
  assumes "rely R x"
  shows "guar R (now x)" "guar R (ctxDone x c)" "guar R (callE x k)" "guar R (callS x k)"
    "guar R (callProps x k)" "guar R (callJob x k)" "guar R (callList x k)" "guar R (callPids x k)"
    "guar R (callFd x k)"
  using assms unfolding call_defs by (auto intro!: guar_ext simp: rely_def)

lemma guar_try_go: "guar R m \<Longrightarrow> (\<And>v. guar R (f v)) \<Longrightarrow> guar R (try_go m f)"
  unfolding try_go_def by (intro guar_bind guar_sum guar_return)

lemma guar_check_go: "guar R m \<Longrightarrow> guar R k \<Longrightarrow> guar R (check_go m k)"
  unfolding check_go_def by (intro guar_bind guar_option guar_return)

lemma guar_ignore: "guar R m \<Longrightarrow> guar R (ignore m)"
  unfolding ignore_def by (intro guar_bind guar_return)

lemma guar_when_go: "guar R m \<Longrightarrow> guar R (when_go b m)"
  by (simp add: when_go_def guar_return)

lemma guar_each: "(\<And>y. guar R (f y)) \<Longrightarrow> guar R (each f ys)"
  by (induction ys) (simp_all add: guar_return guar_bind)

lemma guar_pm_Each: "(\<And>y. guar R (f y)) \<Longrightarrow> guar R (pm_Each f m)"
  by (simp add: pm_Each_def guar_each)

lemma guar_countState: "rely R x \<Longrightarrow> guar R (countState x k)"
  unfolding countState_def by (rule guar_atomic) (simp_all add: R_refl R_metrics)

lemma send_R: "rely R x \<Longrightarrow> R s (snd (send x ns e s))"
proof -
  assume "rely R x"
  then have "R s (snd (e_room x s))" by (simp add: rely_def)
  then show ?thesis
    by (cases "e_room x s"; cases "fst (e_room x s)") (simp_all add: send_def R_chan R_calls)
qed

lemma guar_events_Send: "rely R x \<Longrightarrow> guar R (events_Send x a e)"
  unfolding events_Send_def
proof (rule guar_atomic)
  fix s assume x: "rely R x"
  obtain ob' s' where 1: "Send (send x) (p_events (sh_procs s a)) e s = (ob', s')" by fastforce
  have "R s s'"
    using flush_rel [of R "send x" s "(p_events (sh_procs s a))\<lparr>ob_held := ob_held (p_events (sh_procs s a)) @ [e]\<rparr>"]
      send_R [OF x] R_trans R_refl 1 by (simp add: Send_def)
  then show "R s (snd (case Send (send x) (p_events (sh_procs s a)) e s of
      (ob', s') \<Rightarrow> ((), s'\<lparr>sh_procs := (sh_procs s')(a := sh_procs s' a\<lparr>p_events := ob'\<rparr>)\<rparr>)))"
    by (simp add: 1 R_events)
qed

lemmas guar_rules = guar_return guar_bind guar_if guar_option guar_sum guar_prod guar_Let guar_calls
  guar_reading guar_read_atomic guar_try_go guar_check_go guar_ignore guar_when_go guar_each guar_pm_Each
  guar_countState guar_events_Send

end

subsection \<open>The order a lifecycle moves in\<close>

text \<open>
  What may never be undone about a process: an exit that was merged, the deleting flag, the exited and
  the deleted phase. \<open>lifecycle_le\<close> lifts it to all allocated processes.
\<close>

definition proc_le :: "process \<Rightarrow> process \<Rightarrow> bool" where
  "proc_le p q \<longleftrightarrow> (Exited (p_state p) \<longrightarrow> Exited (p_state q)) \<and> (p_deleting p \<longrightarrow> p_deleting q)
     \<and> (p_phase p = phaseDeleted \<longrightarrow> p_phase q = phaseDeleted)
     \<and> (p_phase p = phaseExited \<longrightarrow> phaseExited \<le> p_phase q)"

definition lifecycle_le :: "'w shim \<Rightarrow> 'w shim \<Rightarrow> bool" where
  "lifecycle_le s t \<longleftrightarrow> sh_next s \<le> sh_next t \<and> (\<forall>a < sh_next s. proc_le (sh_procs s a) (sh_procs t a))"

lemma proc_le_refl [simp]: "proc_le p p"
  by (simp add: proc_le_def)

lemma phaseExited_le: "phaseExited \<le> ph \<longleftrightarrow> ph = phaseExited \<or> ph = phaseDeleted"
  by (cases ph) (simp_all add: less_eq_procPhase_def)

lemma proc_le_trans: "proc_le p q \<Longrightarrow> proc_le q r \<Longrightarrow> proc_le p r"
  by (auto simp: proc_le_def phaseExited_le)

lemma proc_le_fields [simp]:
  "proc_le p (p\<lparr>p_events := ob\<rparr>)" "proc_le p (p\<lparr>p_deleting := True\<rparr>)"
  "proc_le p (p\<lparr>p_ttyControl := t\<rparr>)" "proc_le p (p\<lparr>p_Terminal := b\<rparr>)" "proc_le p (p\<lparr>p_opts := oo\<rparr>)"
  "proc_le p (p\<lparr>p_systemdExitState := r, p_hasSystemdExitState := h\<rparr>)"
  "proc_le p (p\<lparr>p_state := (p_state p)\<lparr>Pid := i\<rparr>\<rparr>)"
  by (simp_all add: proc_le_def phaseExited_le Exited_iff)

lemma proc_le_applyState [simp]: "proc_le p (snd (applyState p t st))"
  by (auto simp: proc_le_def applyState_phase applyState_Exited frame_simps phaseExited_le)

lemma proc_le_advance [simp]: "proc_le p (snd (advance p q))"
  by (cases q; cases "p_phase p") (simp_all add: proc_le_def advance_phase frame_simps phaseExited_le)

lemma proc_le_ops [simp]:
  "proc_le p (snd (beginStart p))" "proc_le p (abortStart p)" "proc_le p (markDeleting p)"
  "proc_le p (clearRecordedSystemdExitState p)" "proc_le p (RecordSystemdExitState p st)"
proof -
  have "snd (beginStart p) = snd (advance p phaseStarting)"
    by (cases "beginStart p") (simp add: beginStart_proc)
  then show "proc_le p (snd (beginStart p))" by simp
qed (simp_all add: abortStart_def markDeleting_def clearRecordedSystemdExitState_def
      RecordSystemdExitState_def)

lemma lifecycle_le_upd:
  "proc_le (sh_procs t a) p' \<Longrightarrow> lifecycle_le t (t\<lparr>sh_procs := (sh_procs t)(a := p')\<rparr>)"
  by (simp add: lifecycle_le_def)

interpretation lo: guarantee lifecycle_le
proof
  fix s t :: "'w shim" and a ob
  show "lifecycle_le s t \<Longrightarrow> lifecycle_le s (t\<lparr>sh_procs := (sh_procs t)(a := (sh_procs t a)\<lparr>p_events := ob\<rparr>)\<rparr>)"
    using proc_le_trans proc_le_fields(1) by (auto simp: lifecycle_le_def)
qed (auto simp: lifecycle_le_def intro: proc_le_trans order_trans less_le_trans)

lemma lo_locked: "rely lifecycle_le x \<Longrightarrow> (\<And>p. proc_le p (snd (f p))) \<Longrightarrow> guar lifecycle_le (locked x a f)"
  unfolding locked_def
  by (rule lo.guar_atomic) (auto split: prod.splits intro!: lifecycle_le_upd, metis snd_conv)

subsection \<open>A concrete outside\<close>

text \<open>
  For concrete runs: an outside on which every call succeeds, no file exists, no other goroutine runs,
  and the clock stands at one; and a shim with one task and one exec of it.
\<close>

definition calm_env :: "unit env" where
  "calm_env = \<lparr>e_others = (\<lambda>s. s), e_now = (\<lambda>s. (1, s)), e_done = (\<lambda>_ s. (False, s)),
     e_room = (\<lambda>s. (True, s)), e_err = (\<lambda>_ s. (None, s)), e_str = (\<lambda>_ s. (Inl ErrNotExist, s)),
     e_props = (\<lambda>_ s. (Inl ErrNotFound, s)), e_job = (\<lambda>_ s. (Some ''done'', s)),
     e_list = (\<lambda>_ s. (Inr [], s)), e_pids = (\<lambda>_ s. (Inr [], s)), e_fd = (\<lambda>_ s. (Inr 0, s)),
     e_json_state = (\<lambda>_. Inl ErrInvalidArgument), e_json_spec = (\<lambda>_. Inl ErrInvalidArgument),
     e_PathBusEscape = (\<lambda>n. n), e_proto_runc_opts = (\<lambda>_. Inl ErrInvalidArgument),
     e_typeurl = (\<lambda>_. Inr OtherOptions), e_proto_mounts = (\<lambda>_ _. Inr ''mounts''),
     e_json_terminal = (\<lambda>d. Inr d)\<rparr>"

abbreviation demo_init :: init_ptr where "demo_init \<equiv> blank_init 0 ''ns'' ''c''"
abbreviation demo_exec :: exec_ptr where "demo_exec \<equiv> blank_exec 1 demo_init ''e''"

definition demo_shim :: "process \<Rightarrow> process \<Rightarrow> unit shim" where
  "demo_shim p e = \<lparr>sh_world = (), sh_chan = [],
     sh_procs = (\<lambda>a. if a = 0 then p else e),
     sh_inits = (\<lambda>_. \<lparr>i_unitProps = [], i_execs = [(''e'', demo_exec)]\<rparr>),
     sh_ttys = (\<lambda>_. \<lparr>tc_sockPath = '''', tc_conn = None, tc_buffered = ''''\<rparr>),
     sh_next = 2, sh_processes = [(''ns/c'', demo_init)],
     sh_units = [(''u_c'', InitP demo_init), (''u_e'', ExecP demo_exec)],
     sh_metrics = (\<lambda>_. 0), sh_calls = []\<rparr>"

lemma calm_rely: "rely lifecycle_le calm_env"
  by (simp add: rely_def calm_env_def lo.R_refl)

lemma calm_interfere [simp]: "interfere calm_env s = s"
  by (simp add: interfere_def calm_env_def)

abbreviation exited_process :: process where
  "exited_process \<equiv> (blank_process ''ns'')\<lparr>p_state := exit_obs, p_phase := phaseExited\<rparr>"

lemma exit_obs_Exited [simp]: "Exited exit_obs"
  by (simp add: Exited_iff)

subsection \<open>Traces of calls as sequences of languages\<close>

text \<open>
  \<open>trace s t Ts\<close>: between \<open>s\<close> and \<open>t\<close> the goroutine appended calls that split into consecutive pieces, one
  in each of the languages \<open>Ts\<close>.
\<close>

fun pieces :: "(call list \<Rightarrow> bool) list \<Rightarrow> call list \<Rightarrow> bool" where
  "pieces [] cs \<longleftrightarrow> cs = []"
| "pieces (T # Ts) cs \<longleftrightarrow> (\<exists>a b. cs = a @ b \<and> T a \<and> pieces Ts b)"

definition trace :: "'w shim \<Rightarrow> 'w shim \<Rightarrow> (call list \<Rightarrow> bool) list \<Rightarrow> bool" where
  "trace s t Ts \<longleftrightarrow> (\<exists>cs. sh_calls t = sh_calls s @ cs \<and> pieces Ts cs)"

abbreviation one :: "call \<Rightarrow> call list \<Rightarrow> bool" where "one k \<equiv> (\<lambda>cs. cs = [k])"
abbreviation many :: "(call \<Rightarrow> bool) \<Rightarrow> call list \<Rightarrow> bool" where "many C \<equiv> list_all C"
abbreviation anything :: "call list \<Rightarrow> bool" where "anything \<equiv> (\<lambda>_. True)"
definition perhaps :: "bool \<Rightarrow> call \<Rightarrow> call list \<Rightarrow> bool" where
  "perhaps b k cs \<longleftrightarrow> cs = (if b then [k] else [])"

lemma pieces_append: "pieces (Ts @ Us) cs \<longleftrightarrow> (\<exists>a b. cs = a @ b \<and> pieces Ts a \<and> pieces Us b)"
proof (induction Ts arbitrary: cs)
  case Nil
  then show ?case by simp
next
  case (Cons T Ts)
  show ?case
  proof
    assume "pieces ((T # Ts) @ Us) cs"
    then obtain a b c where "cs = a @ b @ c" "T a" "pieces Ts b" "pieces Us c" by (auto simp: Cons.IH)
    then show "\<exists>a b. cs = a @ b \<and> pieces (T # Ts) a \<and> pieces Us b"
      by (intro exI [of _ "a @ b"] exI [of _ c]) auto
  next
    assume "\<exists>a b. cs = a @ b \<and> pieces (T # Ts) a \<and> pieces Us b"
    then show "pieces ((T # Ts) @ Us) cs" using Cons.IH by fastforce
  qed
qed

lemma trace_refl: "trace s s []"
  by (simp add: trace_def)

lemma trace_trans: "trace s t Ts \<Longrightarrow> trace t u Us \<Longrightarrow> trace s u (Ts @ Us)"
  by (fastforce simp: trace_def pieces_append)

lemma trace_one: "sh_calls t = sh_calls s @ [k] \<Longrightarrow> trace s t [one k]"
  by (simp add: trace_def)

lemma trace_piece: "sh_calls t = sh_calls s @ cs \<Longrightarrow> T cs \<Longrightarrow> trace s t [T]"
  by (auto simp: trace_def)

lemma trace_same: "sh_calls t = sh_calls t' \<Longrightarrow> trace s t Ts \<longleftrightarrow> trace s t' Ts"
  by (simp add: trace_def)

text \<open>Weakening, merging neighbours and forgetting the rest.\<close>

lemma pieces_mono: "list_all2 (\<lambda>T U. \<forall>cs. T cs \<longrightarrow> U cs) Ts Us \<Longrightarrow> pieces Ts cs \<Longrightarrow> pieces Us cs"
proof (induction Ts Us arbitrary: cs rule: list_all2_induct)
  case (Cons T Ts U Us)
  then show ?case by (metis pieces.simps(2))
qed simp

lemma trace_mono: "trace s t Ts \<Longrightarrow> list_all2 (\<lambda>T U. \<forall>cs. T cs \<longrightarrow> U cs) Ts Us \<Longrightarrow> trace s t Us"
  unfolding trace_def using pieces_mono by blast

lemma pieces_group:
  "pieces Us cs \<Longrightarrow> (\<And>bs. pieces Ts bs \<Longrightarrow> T bs) \<Longrightarrow> Us = pre @ Ts @ post \<Longrightarrow> pieces (pre @ T # post) cs"
  by (fastforce simp: pieces_append)

text \<open>A group of neighbouring pieces that make up a piece of a coarser language.\<close>

lemma trace_group:
  "trace s t (pre @ Ts @ post) \<Longrightarrow> (\<And>bs. pieces Ts bs \<Longrightarrow> T bs) \<Longrightarrow> trace s t (pre @ T # post)"
  unfolding trace_def using pieces_group by blast

lemma pieces_many: "list_all (\<lambda>T. \<forall>cs. T cs \<longrightarrow> list_all C cs) Ts \<Longrightarrow> pieces Ts cs \<Longrightarrow> list_all C cs"
  by (induction Ts arbitrary: cs) auto

lemma trace_merge:
  assumes "trace s t (pre @ Ts @ post)" and "list_all (\<lambda>T. \<forall>cs. T cs \<longrightarrow> list_all C cs) Ts"
  shows "trace s t (pre @ many C # post)"
  using trace_group [OF assms(1), of "many C"] pieces_many [OF assms(2)] by blast

lemma trace_calls: "trace s t Ts \<Longrightarrow> \<exists>cs. sh_calls t = sh_calls s @ cs \<and> pieces Ts cs"
  by (simp add: trace_def)

text \<open>
  Symbolic execution that keeps the trace: \<open>tr_rules\<close> step over a program piece whose trace is known,
  \<open>wp_intros\<close> over the control structure.
\<close>

named_theorems tr_rules \<open>steps of symbolic execution\<close>

lemma wp_trace:
  assumes "\<And>s. wp m (\<lambda>r s'. trace s s' (F r)) s"
  shows "trace s0 s Ts \<Longrightarrow> (\<And>r s'. trace s0 s' (Ts @ F r) \<Longrightarrow> Q r s') \<Longrightarrow> wp m Q s"
  by (rule wp_mono [OF assms]) (blast intro: trace_trans)

lemma only_trace: "only C m \<Longrightarrow> wp m (\<lambda>r s'. trace s s' [many C]) s"
  by (rule only_wpI) (auto intro: trace_piece)

lemma silent_trace: "(\<And>C. only C m) \<Longrightarrow> wp m (\<lambda>r s'. trace s s' []) s"
  by (rule wp_mono [OF silent_wp [of m s]]) (simp_all add: trace_def)

lemma tr_only: "only C m \<Longrightarrow> trace s0 s Ts \<Longrightarrow> (\<And>r s'. trace s0 s' (Ts @ [many C]) \<Longrightarrow> Q r s') \<Longrightarrow> wp m Q s"
  by (rule wp_trace [OF only_trace])

lemma tr_silent: "(\<And>C. only C m) \<Longrightarrow> trace s0 s Ts \<Longrightarrow> (\<And>r s'. trace s0 s' Ts \<Longrightarrow> Q r s') \<Longrightarrow> wp m Q s"
  using wp_trace [OF silent_trace, of m s0 s Ts Q] by simp

lemma tr_many:
  assumes "only C m" "trace s0 s (pre @ [many C])" "\<And>r s'. trace s0 s' (pre @ [many C]) \<Longrightarrow> Q r s'"
  shows "wp m Q s"
proof (rule tr_only [OF assms(1,2)], rule assms(3))
  fix s' assume "trace s0 s' ((pre @ [many C]) @ [many C])"
  then show "trace s0 s' (pre @ [many C])"
    using trace_merge [of s0 s' pre "[many C, many C]" "[]" C] by simp
qed

lemma ext_trace: "wp (ext [k] f) (\<lambda>r s'. trace s s' [one k]) s"
  by (simp add: wp_simps trace_def split: prod.splits)

lemma tr_calls [tr_rules]:
  "trace s0 s Ts \<Longrightarrow> (\<And>r s'. trace s0 s' (Ts @ [one k]) \<Longrightarrow> Q r s') \<Longrightarrow> wp (callE x k) Q s"
  "trace s0 s Ts \<Longrightarrow> (\<And>r s'. trace s0 s' (Ts @ [one k]) \<Longrightarrow> Q' r s') \<Longrightarrow> wp (callS x k) Q' s"
  "trace s0 s Ts \<Longrightarrow> (\<And>r s'. trace s0 s' (Ts @ [one k]) \<Longrightarrow> QJ r s') \<Longrightarrow> wp (callJob x k) QJ s"
  "trace s0 s Ts \<Longrightarrow> (\<And>r s'. trace s0 s' (Ts @ [one k]) \<Longrightarrow> QP r s') \<Longrightarrow> wp (callProps x k) QP s"
  unfolding callE_def callS_def callJob_def callProps_def by (rule wp_trace [OF ext_trace]; assumption)+

lemma tr_silents [tr_rules]:
  "trace s0 s Ts \<Longrightarrow> (\<And>r s'. trace s0 s' Ts \<Longrightarrow> QT r s') \<Longrightarrow> wp (now x) QT s"
  "trace s0 s Ts \<Longrightarrow> (\<And>r s'. trace s0 s' Ts \<Longrightarrow> QB r s') \<Longrightarrow> wp (ctxDone x c) QB s"
  "trace s0 s Ts \<Longrightarrow> (\<And>r s'. trace s0 s' Ts \<Longrightarrow> Q r s') \<Longrightarrow> wp (atomic x f) Q s"
  "trace s0 s Ts \<Longrightarrow> (\<And>r s'. trace s0 s' Ts \<Longrightarrow> Q' r s') \<Longrightarrow> wp (locked x a g) Q' s"
  "trace s0 s Ts \<Longrightarrow> (\<And>r s'. trace s0 s' Ts \<Longrightarrow> Q'' r s') \<Longrightarrow> wp (reading x a h) Q'' s"
  "trace s0 s Ts \<Longrightarrow> (\<And>r s'. trace s0 s' Ts \<Longrightarrow> QU r s') \<Longrightarrow> wp (events_Send x a e) QU s"
  "trace s0 s Ts \<Longrightarrow> (\<And>r s'. trace s0 s' Ts \<Longrightarrow> QU r s') \<Longrightarrow> wp (countState x m) QU s"
  by (rule tr_silent [rotated], assumption, blast, intro only_rules)+

named_theorems wp_intros \<open>symbolic execution of control structure\<close>

lemma wp_returnI [wp_intros]: "Q r s \<Longrightarrow> wp (return_go r) Q s"
  by (simp add: wp_simps)

lemma wp_bindI [wp_intros]: "wp m (\<lambda>r. wp (f r) Q) s \<Longrightarrow> wp (State_Monad.bind m f) Q s"
  by (simp add: wp_simps)

lemma wp_ifI [wp_intros]: "(b \<Longrightarrow> wp m Q s) \<Longrightarrow> (\<not> b \<Longrightarrow> wp n Q s) \<Longrightarrow> wp (if b then m else n) Q s"
  by simp

lemma wp_optionI [wp_intros]:
  "(v = None \<Longrightarrow> wp m Q s) \<Longrightarrow> (\<And>y. v = Some y \<Longrightarrow> wp (g y) Q s) \<Longrightarrow> wp (case v of None \<Rightarrow> m | Some y \<Rightarrow> g y) Q s"
  by (cases v) simp_all

lemma wp_sumI [wp_intros]:
  "(\<And>y. v = Inl y \<Longrightarrow> wp (f y) Q s) \<Longrightarrow> (\<And>y. v = Inr y \<Longrightarrow> wp (g y) Q s)
   \<Longrightarrow> wp (case v of Inl y \<Rightarrow> f y | Inr y \<Rightarrow> g y) Q s"
  by (cases v) simp_all

lemma wp_prodI [wp_intros]: "(\<And>y z. v = (y, z) \<Longrightarrow> wp (f y z) Q s) \<Longrightarrow> wp (case v of (y, z) \<Rightarrow> f y z) Q s"
  by (cases v) simp

lemma wp_LetI [wp_intros]: "wp (f v) Q s \<Longrightarrow> wp (Let v f) Q s"
  by simp

lemma wp_ignoreI [wp_intros]: "wp m (\<lambda>_. Q ()) s \<Longrightarrow> wp (ignore m) Q s"
  by (simp add: wp_simps)

lemma wp_when_goI [wp_intros]: "(b \<Longrightarrow> wp m Q s) \<Longrightarrow> (\<not> b \<Longrightarrow> Q () s) \<Longrightarrow> wp (when_go b m) Q s"
  by (simp add: wp_simps)

lemma wp_try_goI [wp_intros]:
  "wp m (\<lambda>r. case r of Inl e \<Rightarrow> Q (Inl e) | Inr v \<Rightarrow> wp (f v) Q) s \<Longrightarrow> wp (try_go m f) Q s"
  by (simp add: wp_simps)

lemma wp_check_goI [wp_intros]:
  "wp m (\<lambda>r. case r of Some e \<Rightarrow> Q (Inl e) | None \<Rightarrow> wp k Q) s \<Longrightarrow> wp (check_go m k) Q s"
  by (simp add: wp_simps)

text \<open>Runs in the calm outside, step by step.\<close>

lemma calm_runs:
  "run_state (callE calm_env k) s = (None, s\<lparr>sh_calls := sh_calls s @ [k]\<rparr>)"
  "run_state (callS calm_env k) s = (Inl ErrNotExist, s\<lparr>sh_calls := sh_calls s @ [k]\<rparr>)"
  "run_state (callProps calm_env k) s = (Inl ErrNotFound, s\<lparr>sh_calls := sh_calls s @ [k]\<rparr>)"
  "run_state (callJob calm_env k) s = (Some ''done'', s\<lparr>sh_calls := sh_calls s @ [k]\<rparr>)"
  "run_state (now calm_env) s = (1, s)"
  "run_state (ctxDone calm_env c) s = (False, s)"
  "run_state (reading calm_env a f) s = (f (sh_procs s a), s)"
  "run_state (locked calm_env a g) s =
     (fst (g (sh_procs s a)), s\<lparr>sh_procs := (sh_procs s)(a := snd (g (sh_procs s a)))\<rparr>)"
  by (simp_all add: call_defs ext_def reading_def locked_def atomic_def split: prod.splits)
     (simp_all add: calm_env_def)

lemma demo_simps [simp]:
  "sh_procs (demo_shim p e) = (\<lambda>a. if a = 0 then p else e)" "sh_calls (demo_shim p e) = []"
  "sh_next (demo_shim p e) = 2" "sh_chan (demo_shim p e) = []"
  "sh_inits (demo_shim p e) = (\<lambda>_. \<lparr>i_unitProps = [], i_execs = [(''e'', demo_exec)]\<rparr>)"
  "sh_processes (demo_shim p e) = [(''ns/c'', demo_init)]"
  "sh_units (demo_shim p e) = [(''u_c'', InitP demo_init), (''u_e'', ExecP demo_exec)]"
  "ip_addr (blank_init a ns i) = a" "ip_conf (blank_init a ns i) = blank_conf ns i"
  "ep_addr (blank_exec b q j) = b" "ep_parent (blank_exec b q j) = q"
  "ep_conf (blank_exec b q j) = blank_conf (c_ns (ip_conf q)) j"
  "c_ns (blank_conf ns i) = ns" "c_id (blank_conf ns i) = i" "c_pinned (blank_conf ns i)"
  "rc_Debug (c_runc (blank_conf ns i)) = False" "ip_checkpoint (blank_init a ns i) = ''''"
  by (simp_all add: demo_shim_def blank_ptr_defs)

lemma blank_process_simps [simp]:
  "p_phase (blank_process ns) = phaseCreated" "p_state (blank_process ns) = pState_zero"
  "p_deleting (blank_process ns) = False" "p_Terminal (blank_process ns) = False"
  "co_Terminal (p_opts (blank_process ns)) = False" "p_events (blank_process ns) = newEventOutbox ns"
  "p_ttyControl (blank_process ns) = None"
  by (simp_all add: blank_process_def blank_options_def)

lemma pState_zero_simps [simp]:
  "Status pState_zero = ''''" "Pid pState_zero = 0" "ExitCode pState_zero = 0" "CopyTo pState_zero pState_zero = pState_zero"
  by (simp_all add: pState_zero_def CopyTo_def)

subsection \<open>Programs that keep a log\<close>

text \<open>
  For programs that only append to a list \<open>log\<close> kept in their state: \<open>logs log m Q\<close> says that, whatever the outside answers, \<open>m\<close>
  appends some entries, and \<open>Q\<close> holds of its result and those.
\<close>

named_theorems hp_rules \<open>what the pieces of a program append to its log\<close>

definition logs :: "('s \<Rightarrow> 'c list) \<Rightarrow> ('s, 'a) state \<Rightarrow> ('a \<Rightarrow> 'c list \<Rightarrow> bool) \<Rightarrow> bool" where
  "logs log m Q \<longleftrightarrow> (\<forall>s. wp m (\<lambda>r s'. \<exists>cs. log s' = log s @ cs \<and> Q r cs) s)"

lemma logsD: "logs log m Q \<Longrightarrow> run_state m s = (r, s') \<Longrightarrow> log s' = log s @ cs \<Longrightarrow> Q r cs"
  by (auto simp: logs_def dest!: spec [of _ s] dest: wpD)

lemma logs_mono: "logs log m Q \<Longrightarrow> (\<And>r cs. Q r cs \<Longrightarrow> R r cs) \<Longrightarrow> logs log m R"
  unfolding logs_def by (blast intro: wp_mono)

lemma logs_return [hp_rules]: "Q r [] \<Longrightarrow> logs log (return_go r) Q"
  by (simp add: logs_def wp_simps)

lemma logs_bind [hp_rules]:
  assumes "logs log m (\<lambda>r cs. logs log (f r) (\<lambda>r' cs'. Q r' (cs @ cs')))"
  shows "logs log (State_Monad.bind m f) Q"
  unfolding logs_def wp_simps
proof
  fix s
  show "wp m (\<lambda>r. wp (f r) (\<lambda>r s'. \<exists>cs. log s' = log s @ cs \<and> Q r cs)) s"
  proof (rule wp_mono [OF assms [unfolded logs_def, rule_format]], elim exE conjE)
    fix r cs s1
    assume 1: "log s1 = log s @ cs" and 2: "\<forall>s. wp (f r) (\<lambda>r s'. \<exists>cs'. log s' = log s @ cs' \<and> Q r (cs @ cs')) s"
    show "wp (f r) (\<lambda>r s'. \<exists>cs. log s' = log s @ cs \<and> Q r cs) s1"
      by (rule wp_mono [OF 2 [rule_format, of s1]]) (use 1 in auto)
  qed
qed

lemma logs_if [hp_rules]: "(b \<Longrightarrow> logs log m Q) \<Longrightarrow> (\<not> b \<Longrightarrow> logs log n Q) \<Longrightarrow> logs log (if b then m else n) Q"
  by simp

lemma logs_option [hp_rules]:
  "(v = None \<Longrightarrow> logs log m Q) \<Longrightarrow> (\<And>y. v = Some y \<Longrightarrow> logs log (f y) Q) \<Longrightarrow> logs log (case v of None \<Rightarrow> m | Some y \<Rightarrow> f y) Q"
  by (cases v) simp_all

lemma logs_sum [hp_rules]:
  "(\<And>y. v = Inl y \<Longrightarrow> logs log (g y) Q) \<Longrightarrow> (\<And>y. v = Inr y \<Longrightarrow> logs log (f y) Q)
   \<Longrightarrow> logs log (case v of Inl y \<Rightarrow> g y | Inr y \<Rightarrow> f y) Q"
  by (cases v) simp_all

lemma logs_prod [hp_rules]: "(\<And>y z. v = (y, z) \<Longrightarrow> logs log (f y z) Q) \<Longrightarrow> logs log (case v of (y, z) \<Rightarrow> f y z) Q"
  by (cases v) simp

lemma logs_Let [hp_rules]: "logs log (f v) Q \<Longrightarrow> logs log (Let v f) Q"
  by simp

subsection \<open>Programs through a view of their state\<close>

text \<open>
  \<open>via w a m Q\<close>: from every state that the view \<open>w\<close> shows as \<open>a\<close>, whatever the outside answers, \<open>m\<close> ends with a result and a view that \<open>Q\<close> accepts. A
  triple for programs whose effect matters only through an abstraction of their state.
\<close>

definition via :: "('s \<Rightarrow> 'v) \<Rightarrow> 'v \<Rightarrow> ('s, 'a) state \<Rightarrow> ('a \<Rightarrow> 'v \<Rightarrow> bool) \<Rightarrow> bool" where
  "via v a m Q \<longleftrightarrow> (\<forall>s. v s = a \<longrightarrow> wp m (\<lambda>r s'. Q r (v s')) s)"

named_theorems via_rules \<open>how the pieces of a program change its state as a view shows it\<close>

lemma viaD: "via w (w s) m Q \<Longrightarrow> run_state m s = (r, s') \<Longrightarrow> Q r (w s')"
  by (auto simp: via_def dest: wpD)

lemma via_mono: "via w a m Q \<Longrightarrow> (\<And>r b. Q r b \<Longrightarrow> Q' r b) \<Longrightarrow> via w a m Q'"
  unfolding via_def by (blast intro: wp_mono)

lemma via_return [via_rules]: "Q r a \<Longrightarrow> via w a (return_go r) Q"
  by (simp add: via_def wp_simps)

lemma via_bind [via_rules]: "via w a m (\<lambda>r b. via w b (f r) Q) \<Longrightarrow> via w a (State_Monad.bind m f) Q"
  unfolding via_def wp_simps by (blast intro: wp_mono)

lemma via_if [via_rules]: "(b \<Longrightarrow> via w a m Q) \<Longrightarrow> (\<not> b \<Longrightarrow> via w a n Q) \<Longrightarrow> via w a (if b then m else n) Q"
  by simp

lemma via_option [via_rules]:
  "(v = None \<Longrightarrow> via w a m Q) \<Longrightarrow> (\<And>y. v = Some y \<Longrightarrow> via w a (f y) Q) \<Longrightarrow> via w a (case v of None \<Rightarrow> m | Some y \<Rightarrow> f y) Q"
  by (cases v) simp_all

lemma via_sum [via_rules]:
  "(\<And>y. v = Inl y \<Longrightarrow> via w a (g y) Q) \<Longrightarrow> (\<And>y. v = Inr y \<Longrightarrow> via w a (f y) Q) \<Longrightarrow> via w a (case v of Inl y \<Rightarrow> g y | Inr y \<Rightarrow> f y) Q"
  by (cases v) simp_all

lemma via_prod [via_rules]: "(\<And>y z. v = (y, z) \<Longrightarrow> via w a (f y z) Q) \<Longrightarrow> via w a (case v of (y, z) \<Rightarrow> f y z) Q"
  by (cases v) simp

lemma via_Let [via_rules]: "via w a (f v) Q \<Longrightarrow> via w a (Let v f) Q"
  by simp

end
