(* ===== verification/Tasks.thy ===== *)
theory Tasks
  imports Logic
begin

text \<open>
  The methods of \<open>initProcess\<close> and \<open>execProcess\<close> that observe a process and move it through its
  lifecycle: reading its state from the exit file or from systemd, merging an observation
  (\<open>SetState\<close>, with the sweep over a dead container's execs), finishing a start or a delete, signals, and
  waiting for the exit (\<open>process.go\<close>, \<open>state.go\<close>, \<open>wait.go\<close>, \<open>unitref.go\<close>).
\<close>

subsection \<open>Reading the state\<close>

definition readExitState :: "'w env \<Rightarrow> string \<Rightarrow> ('w, pState result) go" where
  "readExitState x path = do {
     data \<leftarrow> callS x (ReadFile path);
     case data of
       Inl e \<Rightarrow> return_go (Inl e)
     | Inr d \<Rightarrow> (case e_json_state x d of
         Inl e \<Rightarrow> return_go (Inl e)
       | Inr st \<Rightarrow> do { countState x metricOnDiskReads; return_go (Inr st) }) }"

definition init_readExitState :: "'w env \<Rightarrow> init_ptr \<Rightarrow> ('w, pState result) go" where
  "init_readExitState x p = readExitState x (init_exitStatePath p)"

definition exec_readExitState :: "'w env \<Rightarrow> exec_ptr \<Rightarrow> ('w, pState result) go" where
  "exec_readExitState x p = readExitState x (exec_exitStatePath p)"

definition unit_state :: "'w env \<Rightarrow> ctx \<Rightarrow> string \<Rightarrow> pState \<Rightarrow> ('w, pState result) go" where
  "unit_state x c name st = do {
     countState x metricGetUnitCalls;
     reply \<leftarrow> callProps x (GetAllProperties c name);
     return_go (getUnitState reply st) }"

definition exit_from_unit :: "'w env \<Rightarrow> ctx \<Rightarrow> string \<Rightarrow> ('w, pState result) go" where
  "exit_from_unit x c name = do {
     countState x metricGetUnitCalls;
     reply \<leftarrow> callProps x (GetAllProperties c name);
     t \<leftarrow> now x;
     return_go (loadExitFromUnit reply t) }"

subsection \<open>Merging an observation\<close>

definition process_applyState :: "'w env \<Rightarrow> nat \<Rightarrow> pState \<Rightarrow> ('w, stateUpdate) go" where
  "process_applyState x a st = do { t \<leftarrow> now x; locked x a (\<lambda>p. applyState p t st) }"

definition process_SetState :: "'w env \<Rightarrow> nat \<Rightarrow> pState \<Rightarrow> ('w, pState) go" where
  "process_SetState x a st = do { u \<leftarrow> process_applyState x a st; return_go (su_state u) }"

definition exec_SetState :: "'w env \<Rightarrow> exec_ptr \<Rightarrow> pState \<Rightarrow> ('w, pState) go" where
  "exec_SetState x p st = do {
     u \<leftarrow> process_applyState x (ep_addr p) st;
     when_go (justExited u)
       (each (events_Send x (ep_addr p)) (exec_exit_report (c_id (ip_conf (ep_parent p))) (ep_execID p) (su_state u)));
     return_go (su_state u) }"

definition exec_LoadState :: "'w env \<Rightarrow> exec_ptr \<Rightarrow> ('w, err option) go" where
  "exec_LoadState x p = do {
     r \<leftarrow> exec_readExitState x p;
     case r of
       Inr st \<Rightarrow> do { ignore (exec_SetState x p st); return_go None }
     | Inl _ \<Rightarrow> return_go None }"

text \<open>What an exiting init does to one of its execs.\<close>

definition sweep_exec :: "'w env \<Rightarrow> exec_ptr \<Rightarrow> ('w, unit) go" where
  "sweep_exec x e = do {
     ignore (exec_LoadState x e);
     ph \<leftarrow> reading x (ep_addr e) currentPhase;
     if ph < phaseRunning then return_go ()
     else do {
       st \<leftarrow> reading x (ep_addr e) ProcessState;
       if \<not> Exited st then do {
         t \<leftarrow> now x;
         ignore (exec_SetState x e (pState_zero\<lparr>ExitedAt := t, ExitCode := 255\<rparr>)) }
       else return_go () } }"

definition init_SetState :: "'w env \<Rightarrow> ctx \<Rightarrow> init_ptr \<Rightarrow> pState \<Rightarrow> ('w, pState) go" where
  "init_SetState x c p st = do {
     u \<leftarrow> process_applyState x (ip_addr p) st;
     when_go (justExited u) (do {
       when_go (Status (su_state u) \<noteq> exitedInit \<and> wasRunning u \<and> ip_killAllOnExit p)
         (ignore (callE x (RuncKill c (c_runc (ip_conf p)) (c_id (ip_conf p)) 9 True)));
       execs \<leftarrow> atomic x (\<lambda>s. (i_execs (sh_inits s (ip_addr p)), s));
       pm_Each (sweep_exec x) execs;
       each (events_Send x (ip_addr p)) (init_exit_report (c_id (ip_conf p)) (su_state u)) });
     return_go (su_state u) }"

definition init_LoadState :: "'w env \<Rightarrow> ctx \<Rightarrow> init_ptr \<Rightarrow> ('w, err option) go" where
  "init_LoadState x c p = do {
     r \<leftarrow> init_readExitState x p;
     case r of
       Inr st \<Rightarrow> do {
         let st = (if Pid st > 0 \<and> Status st = '''' then st\<lparr>Status := ''running''\<rparr> else st);
         ignore (init_SetState x c p st);
         return_go None }
     | Inl _ \<Rightarrow> do {
         pid \<leftarrow> reading x (ip_addr p) process_Pid;
         if pid = 0 then return_go None
         else do {
           g \<leftarrow> unit_state x c (init_Name p) pState_Reset;
           case g of
             Inl e \<Rightarrow> return_go (Some e)
           | Inr st \<Rightarrow> do { ignore (init_SetState x c p st); return_go None } } } }"

definition init_LoadExitState :: "'w env \<Rightarrow> ctx \<Rightarrow> init_ptr \<Rightarrow> ('w, err option) go" where
  "init_LoadExitState x c p = do {
     rec \<leftarrow> reading x (ip_addr p) loadRecordedSystemdExitState;
     if snd rec then do {
       countState x metricReactorHits;
       ignore (init_SetState x c p (fst rec));
       return_go None }
     else do {
       g \<leftarrow> exit_from_unit x c (init_Name p);
       case g of
         Inl e \<Rightarrow> return_go (Some e)
       | Inr st \<Rightarrow> do {
           when_go (Exited st) (countState x metricGetAllFallbacks);
           ignore (init_SetState x c p st);
           return_go None } } }"

definition exec_LoadExitState :: "'w env \<Rightarrow> ctx \<Rightarrow> exec_ptr \<Rightarrow> ('w, err option) go" where
  "exec_LoadExitState x c p = do {
     rec \<leftarrow> reading x (ep_addr p) loadRecordedSystemdExitState;
     if snd rec then do {
       countState x metricReactorHits;
       ignore (exec_SetState x p (fst rec));
       return_go None }
     else do {
       g \<leftarrow> exit_from_unit x c (exec_Name p);
       case g of
         Inl e \<Rightarrow> return_go (Some e)
       | Inr st \<Rightarrow> do {
           when_go (Exited st) (countState x metricGetAllFallbacks);
           ignore (exec_SetState x p st);
           return_go None } } }"

text \<open>Dispatch on the interface type.\<close>

fun LoadState :: "'w env \<Rightarrow> ctx \<Rightarrow> ptr \<Rightarrow> ('w, err option) go" where
  "LoadState x c (InitP p) = init_LoadState x c p"
| "LoadState x c (ExecP p) = exec_LoadState x p"

fun LoadExitState :: "'w env \<Rightarrow> ctx \<Rightarrow> ptr \<Rightarrow> ('w, err option) go" where
  "LoadExitState x c (InitP p) = init_LoadExitState x c p"
| "LoadExitState x c (ExecP p) = exec_LoadExitState x c p"

fun SetState :: "'w env \<Rightarrow> ctx \<Rightarrow> ptr \<Rightarrow> pState \<Rightarrow> ('w, pState) go" where
  "SetState x c (InitP p) st = init_SetState x c p st"
| "SetState x c (ExecP p) st = exec_SetState x p st"

subsection \<open>Finishing a start and a delete\<close>

definition init_finishStart :: "'w env \<Rightarrow> ctx \<Rightarrow> init_ptr \<Rightarrow> u32 \<Rightarrow> ('w, unit) go" where
  "init_finishStart x c p pid = do {
     ignore (locked x (ip_addr p) (\<lambda>pr. advance pr phaseRunning));
     ignore (init_SetState x c p (pState_zero\<lparr>Pid := pid, Status := ''running''\<rparr>));
     events_Send x (ip_addr p) (TaskStart (c_id (ip_conf p)) pid) }"

definition exec_finishStart :: "'w env \<Rightarrow> exec_ptr \<Rightarrow> u32 \<Rightarrow> ('w, unit) go" where
  "exec_finishStart x p pid = do {
     ignore (locked x (ep_addr p) (\<lambda>pr. advance pr phaseRunning));
     ignore (exec_SetState x p (pState_zero\<lparr>Pid := pid, Status := ''running''\<rparr>));
     events_Send x (ep_addr p) (TaskExecStarted (c_id (ip_conf (ep_parent p))) (ep_execID p) pid) }"

definition init_finishDelete :: "'w env \<Rightarrow> init_ptr \<Rightarrow> ('w, unit) go" where
  "init_finishDelete x p = do {
     r \<leftarrow> locked x (ip_addr p) (\<lambda>pr. advance pr phaseDeleted);
     if r = Inr True then do {
       st \<leftarrow> reading x (ip_addr p) ProcessState;
       events_Send x (ip_addr p) (TaskDelete (c_id (ip_conf p)) (Pid st) (ExitCode st) (ExitedAt st)) }
     else return_go () }"

definition exec_finishDelete :: "'w env \<Rightarrow> exec_ptr \<Rightarrow> ('w, unit) go" where
  "exec_finishDelete x p = ignore (locked x (ep_addr p) (\<lambda>pr. advance pr phaseDeleted))"

subsection \<open>Signals\<close>

definition exec_Kill :: "'w env \<Rightarrow> ctx \<Rightarrow> exec_ptr \<Rightarrow> int \<Rightarrow> ('w, err option) go" where
  "exec_Kill x c p sig = callE x (KillUnitWithTarget c (exec_Name p) KillMain (word_of_int sig))"

fun err_msg :: "err \<Rightarrow> string" where
  "err_msg ErrNotFound = ''not found''"
| "err_msg ErrAlreadyExists = ''already exists''"
| "err_msg ErrFailedPrecondition = ''failed precondition''"
| "err_msg ErrInvalidArgument = ''invalid argument''"
| "err_msg ErrCanceled = ''context canceled''"
| "err_msg ErrNotExist = ''file does not exist''"
| "err_msg (ErrOther m) = m"
| "err_msg (Panic m) = m"

text \<open>
  The second half of the error branch tests \<open>err\<close>, which is not nil there, instead of the error of the
  listing; its else branch is kept as written.
\<close>

definition init_Kill :: "'w env \<Rightarrow> ctx \<Rightarrow> init_ptr \<Rightarrow> int \<Rightarrow> bool \<Rightarrow> ('w, err option) go" where
  "init_Kill x c p sig all = do {
     let who = (if all then KillAll else KillMain);
     pid \<leftarrow> reading x (ip_addr p) process_Pid;
     if pid = 0 then return_go (Some ErrFailedPrecondition)
     else do {
       st \<leftarrow> reading x (ip_addr p) ProcessState;
       if Exited st then return_go (Some ErrNotFound)
       else do {
         err \<leftarrow> callE x (KillUnitWithTarget c (init_Name p) who (word_of_int sig));
         case err of
           None \<Rightarrow> return_go None
         | Some e \<Rightarrow>
             if Contains (err_msg e) ''no main process'' then return_go (Some ErrNotFound)
             else do {
               err2 \<leftarrow> callE x (RuncState c (c_runc (ip_conf p)) (c_id (ip_conf p)));
               if (case err2 of Some e2 \<Rightarrow> Contains (err_msg e2) ''does not exist'' | None \<Rightarrow> False)
               then return_go (Some ErrNotFound)
               else do {
                 units \<leftarrow> callList x (ListUnitsByNames c [init_Name p]);
                 if err \<noteq> None then return_go err
                 else case units of
                   Inl _ \<Rightarrow> return_go (Some ErrNotFound)
                 | Inr us \<Rightarrow>
                     if us = [] then return_go (Some ErrNotFound)
                     else if list_ex (\<lambda>(n, act). n = init_Name p \<and> act \<noteq> ''running'') us
                     then return_go (Some ErrFailedPrecondition)
                     else return_go err } } } } }"

fun Kill :: "'w env \<Rightarrow> ctx \<Rightarrow> ptr \<Rightarrow> int \<Rightarrow> bool \<Rightarrow> ('w, err option) go" where
  "Kill x c (InitP p) sig all = init_Kill x c p sig all"
| "Kill x c (ExecP p) sig all = exec_Kill x c p sig"

subsection \<open>Waiting for the exit\<close>

text \<open>
  The loop of \<open>waitForExit\<close> on its condition variable; \<open>n\<close> bounds the number of wake-ups
  considered, and \<open>None\<close> says that the caller is still waiting after them.
\<close>

fun waitForExit :: "'w env \<Rightarrow> ctx \<Rightarrow> nat \<Rightarrow> nat \<Rightarrow> ('w, pState result option) go" where
  "waitForExit x c a 0 = return_go None"
| "waitForExit x c a (Suc n) = do {
     done \<leftarrow> ctxDone x c;
     if done then return_go (Some (Inl ErrCanceled))
     else do {
       p \<leftarrow> reading x a (\<lambda>p. p);
       if p_phase p = phaseDeleted \<or> Exited (p_state p)
       then return_go (Some (Inr (CopyTo (p_state p) pState_zero)))
       else waitForExit x c a n } }"

subsection \<open>Transient units\<close>

definition startTransientUnit ::
  "'w env \<Rightarrow> ctx \<Rightarrow> process_conf \<Rightarrow> string \<Rightarrow> string \<Rightarrow> property list \<Rightarrow> ('w, err option) go" where
  "startTransientUnit x c conf name mode props =
     (if \<not> c_pinned conf then callE x (StartTransientUnit c False name mode props)
      else callE x (StartTransientUnit c True name mode (props @ [PropBool ''AddRef'' True])))"

definition releaseUnit :: "'w env \<Rightarrow> ctx \<Rightarrow> process_conf \<Rightarrow> string \<Rightarrow> ('w, unit) go" where
  "releaseUnit x c conf name =
     (if \<not> c_pinned conf then return_go () else ignore (callE x (UnrefUnit c name)))"

subsection \<open>What the operations never undo\<close>

lemmas lo_rules = lo.guar_rules lo_locked

lemma lo_reads:
  assumes "rely lifecycle_le x"
  shows "guar lifecycle_le (readExitState x f)" "guar lifecycle_le (init_readExitState x p)"
    "guar lifecycle_le (exec_readExitState x e)" "guar lifecycle_le (unit_state x c n st)"
    "guar lifecycle_le (exit_from_unit x c n)" "guar lifecycle_le (process_applyState x a st)"
  unfolding readExitState_def init_readExitState_def exec_readExitState_def unit_state_def
    exit_from_unit_def process_applyState_def
  by (intro lo_rules; simp add: assms)+

lemma lo_exec_SetState: "rely lifecycle_le x \<Longrightarrow> guar lifecycle_le (exec_SetState x e st)"
  unfolding exec_SetState_def by (intro lo_rules lo_reads; simp)

lemma lo_exec_LoadState: "rely lifecycle_le x \<Longrightarrow> guar lifecycle_le (exec_LoadState x e)"
  unfolding exec_LoadState_def by (intro lo_rules lo_reads lo_exec_SetState; simp)

lemma lo_sweep_exec: "rely lifecycle_le x \<Longrightarrow> guar lifecycle_le (sweep_exec x e)"
  unfolding sweep_exec_def by (intro lo_rules lo_exec_LoadState lo_exec_SetState; simp)

lemma lo_init_SetState: "rely lifecycle_le x \<Longrightarrow> guar lifecycle_le (init_SetState x c p st)"
  unfolding init_SetState_def by (intro lo_rules lo_reads lo_sweep_exec; simp)

lemma lo_init_LoadState: "rely lifecycle_le x \<Longrightarrow> guar lifecycle_le (init_LoadState x c p)"
  unfolding init_LoadState_def by (intro lo_rules lo_reads lo_init_SetState; simp)

lemma lo_LoadExitState:
  assumes "rely lifecycle_le x"
  shows "guar lifecycle_le (init_LoadExitState x c p)" "guar lifecycle_le (exec_LoadExitState x c e)"
  unfolding init_LoadExitState_def exec_LoadExitState_def
  by (intro lo_rules lo_reads lo_init_SetState lo_exec_SetState; simp add: assms)+

lemma lo_dispatch:
  assumes "rely lifecycle_le x"
  shows "guar lifecycle_le (LoadState x c q)" "guar lifecycle_le (LoadExitState x c q)"
    "guar lifecycle_le (SetState x c q st)"
  by (cases q; simp add: assms lo_init_LoadState lo_exec_LoadState lo_LoadExitState lo_init_SetState
      lo_exec_SetState)+

lemma lo_finish:
  assumes "rely lifecycle_le x"
  shows "guar lifecycle_le (init_finishStart x c p pid)" "guar lifecycle_le (exec_finishStart x e pid)"
    "guar lifecycle_le (init_finishDelete x p)" "guar lifecycle_le (exec_finishDelete x e)"
  unfolding init_finishStart_def exec_finishStart_def init_finishDelete_def exec_finishDelete_def
  by (intro lo_rules lo_init_SetState lo_exec_SetState; simp add: assms)+

lemma lo_Kill: "rely lifecycle_le x \<Longrightarrow> guar lifecycle_le (init_Kill x c p sig all)"
  "rely lifecycle_le x \<Longrightarrow> guar lifecycle_le (exec_Kill x c e sig)"
  unfolding init_Kill_def exec_Kill_def by (intro lo_rules; simp)+

lemma lo_waitForExit: "rely lifecycle_le x \<Longrightarrow> guar lifecycle_le (waitForExit x c a n)"
proof (induction n)
  case 0
  show ?case by (simp add: lo.guar_return)
next
  case (Suc n)
  then show ?case unfolding waitForExit.simps by (intro lo_rules; simp)
qed

lemma lo_units:
  assumes "rely lifecycle_le x"
  shows "guar lifecycle_le (startTransientUnit x c conf n m props)" "guar lifecycle_le (releaseUnit x c conf n)"
  unfolding startTransientUnit_def releaseUnit_def by (intro lo_rules; simp add: assms)+

lemmas lo_tasks = lo_reads lo_exec_SetState lo_exec_LoadState lo_init_SetState lo_init_LoadState
  lo_LoadExitState lo_dispatch lo_finish lo_Kill lo_waitForExit lo_units

subsection \<open>The calls they make\<close>

text \<open>
  The calls of loading a state and recording it: they read files and properties and, where what was read shows that the container has just died, have runc kill what is left in it.
\<close>

fun is_recording :: "call \<Rightarrow> bool" where
  "is_recording (ReadFile _) = True"
| "is_recording (GetAllProperties _ _) = True"
| "is_recording (RuncKill _ _ _ _ _) = True"
| "is_recording _ = False"

lemma only_SetState [only_rules]:
  "only is_recording (exec_SetState x e st)" "only is_recording (exec_LoadState x e)"
  "only is_recording (sweep_exec x e)" "only is_recording (init_SetState x c p st)"
  unfolding exec_SetState_def exec_LoadState_def sweep_exec_def init_SetState_def exec_readExitState_def
    readExitState_def process_applyState_def
  by (intro only_rules; simp)+

lemma only_LoadState [only_rules]:
  "only is_recording (init_LoadState x c p)" "only is_recording (init_LoadExitState x c p)"
  "only is_recording (exec_LoadExitState x c e)" "only is_recording (exit_from_unit x c n)"
  unfolding init_LoadState_def init_LoadExitState_def exec_LoadExitState_def init_readExitState_def
    readExitState_def unit_state_def exit_from_unit_def
  by (intro only_rules; simp)+

lemma only_dispatch [only_rules]:
  "only is_recording (LoadState x c q)" "only is_recording (LoadExitState x c q)"
  by (cases q; simp add: only_rules)+

lemma silent_exec_SetState [only_rules]: "only C (exec_SetState x e st)"
  unfolding exec_SetState_def process_applyState_def by (intro only_rules)

lemma silent_finish [only_rules]:
  "only C (init_finishDelete x p)" "only C (exec_finishDelete x e)" "only C (exec_finishStart x e pid)"
  unfolding init_finishDelete_def exec_finishDelete_def exec_finishStart_def
  by (intro only_rules)+

lemma silent_waitForExit [only_rules]: "only C (waitForExit x c a n)"
proof (induction n)
  case 0
  show ?case by (simp add: only_rules)
next
  case (Suc n)
  then show ?case unfolding waitForExit.simps by (intro only_rules)
qed

subsection \<open>Waiting\<close>

lemma waitForExit_result:
  "wp (waitForExit x c a n) (\<lambda>r s'. \<forall>st. r = Some (Inr st) \<longrightarrow>
       st = ProcessState (sh_procs s' a) \<and> (Exited st \<or> p_phase (sh_procs s' a) = phaseDeleted)) s"
proof (induction n arbitrary: s)
  case 0
  show ?case by (simp add: wp_simps)
next
  case (Suc n)
  then show ?case
    by (auto simp: wp_simps ctxDone_def reading_def ProcessState_def CopyTo_zero split: prod.splits)
qed

lemma waitForExit_ended:
  assumes x: "rely lifecycle_le x" and a: "a < sh_next s" and e: "Exited (p_state (sh_procs s a)) \<or> p_phase (sh_procs s a) = phaseDeleted"
  shows "wp (waitForExit x c a (Suc n)) (\<lambda>r s'. r \<noteq> None) s"
proof -
  have "Exited (p_state (sh_procs t a)) \<or> p_phase (sh_procs t a) = phaseDeleted"
    if "lifecycle_le s t" for t
    using that a e by (auto simp: lifecycle_le_def proc_le_def)
  moreover have "lifecycle_le s (interfere x (t\<lparr>sh_calls := cs\<rparr>))" if "e_done x c s = (b, t)" for b t cs
  proof -
    have "lifecycle_le s t" using x that by (metis rely_def snd_conv)
    then have "lifecycle_le s (t\<lparr>sh_calls := cs\<rparr>)" by (rule lo.R_calls)
    moreover have "lifecycle_le (t\<lparr>sh_calls := cs\<rparr>) (interfere x (t\<lparr>sh_calls := cs\<rparr>))"
      using x by (simp add: rely_def interfere_def lo.R_calls)
    ultimately show ?thesis by (rule lo.R_trans)
  qed
  ultimately show ?thesis
    by (fastforce simp: wp_simps ctxDone_def reading_def split: prod.splits)
qed

text \<open>
  C26: waiting for an exit. A wait that returns without a cancellation hands out the process's state at
  that moment, and the process has then exited or been deleted; and a process that has already exited
  or been deleted makes the wait return at its first look, whatever the other goroutines do as long
  as they do not undo an exit or a deletion. The wait makes no call to the outside.
\<close>

theorem wait_returns_on_exit:
  assumes "run_state (waitForExit x c a n) s = (r, s')"
  shows "(\<forall>st. r = Some (Inr st) \<longrightarrow>
            st = ProcessState (sh_procs s' a) \<and> (Exited st \<or> p_phase (sh_procs s' a) = phaseDeleted))
       \<and> sh_calls s' = sh_calls s
       \<and> (rely lifecycle_le x \<and> a < sh_next s \<and> 0 < n
            \<and> (Exited (p_state (sh_procs s a)) \<or> p_phase (sh_procs s a) = phaseDeleted) \<longrightarrow> r \<noteq> None)"
proof -
  have "r \<noteq> None" if "rely lifecycle_le x" "a < sh_next s" "0 < n"
    "Exited (p_state (sh_procs s a)) \<or> p_phase (sh_procs s a) = phaseDeleted"
    using wpD [OF waitForExit_ended [OF that(1,2,4)], of c "n - 1" r s'] assms that(3) by simp
  moreover have "sh_calls s' = sh_calls s"
    using silent_calls [OF silent_waitForExit, of x c a n s] by (simp add: assms)
  ultimately show ?thesis using wpD [OF waitForExit_result assms] by blast
qed

theorem wait_returns_on_exit_witness:
  "fst (run_state (waitForExit calm_env ReqCtx 0 1) (demo_shim exited_process (blank_process ''ns''))) \<noteq> None"
proof -
  let ?s = "demo_shim exited_process (blank_process ''ns'')"
  obtain r s' where run: "run_state (waitForExit calm_env ReqCtx 0 1) ?s = (r, s')" by fastforce
  from wait_returns_on_exit [OF run] calm_rely have "r \<noteq> None" by (simp add: demo_shim_def)
  with run show ?thesis by simp
qed

end
