(* ===== verification/Tty.thy ===== *)
theory Tty
  imports Tasks
begin

text \<open>
  The terminal side of a process (\<open>pty.go\<close>): the control client that tells a container's tty handler
  about a new window size, its line protocol, and the socket path and unit of the handler.
\<close>

subsection \<open>The line protocol\<close>

definition ttyOpResize :: int where "ttyOpResize = 1"
definition ttyStatusOK :: string where "ttyStatusOK = ''0''"
definition ttyStatusErr :: string where "ttyStatusErr = ''1''"
definition maxTTYResponseLen :: nat where "maxTTYResponseLen = 256"
definition ttyRequestBufSize :: nat where "ttyRequestBufSize = 32"

abbreviation newline :: char where "newline \<equiv> CHR 0x0A"

definition is_crlf :: "char \<Rightarrow> bool" where
  "is_crlf c \<longleftrightarrow> c = newline \<or> c = CHR 0x0D"

definition appendTTYResizeRequest :: "string \<Rightarrow> int \<Rightarrow> int \<Rightarrow> string" where
  "appendTTYResizeRequest buf width height =
     buf @ show_int ttyOpResize @ '' '' @ show_int width @ '' '' @ show_int height @ [newline]"

definition parseTTYResponse :: "string \<Rightarrow> err option" where
  "parseTTYResponse line0 =
     (let line = TrimRight line0 is_crlf in
      if line = ttyStatusOK then None
      else if line = ttyStatusErr then Some (ErrOther ''tty handler returned an unspecified error'')
      else if HasPrefix line (ttyStatusErr @ '' '')
      then Some (ErrOther (''tty handler returned an error: '' @ drop 2 line))
      else Some (ErrOther (''tty handler returned an unexpected response: '' @ line)))"

subsection \<open>The control client\<close>

text \<open>
  The client's mutex is held for a whole operation, so the operations take the client's fields and return
  the new ones. \<open>tc_buffered\<close> is what the buffered reader has read and not handed out.
\<close>

definition newTTYControlClient :: "string \<Rightarrow> ttyControlClient" where
  "newTTYControlClient sockPath = \<lparr>tc_sockPath = sockPath, tc_conn = None, tc_buffered = ''''\<rparr>"

definition tc_dial :: "'w env \<Rightarrow> ttyControlClient \<Rightarrow> ('w, ttyControlClient result) go" where
  "tc_dial x c = try_go (callFd x (SockDial (tc_sockPath c)))
     (\<lambda>h. return_go (Inr (c\<lparr>tc_conn := Some h, tc_buffered := ''''\<rparr>)))"

definition tc_reset :: "'w env \<Rightarrow> ttyControlClient \<Rightarrow> ('w, err option \<times> ttyControlClient) go" where
  "tc_reset x c = (case tc_conn c of
     None \<Rightarrow> return_go (None, c)
   | Some h \<Rightarrow> do {
       e \<leftarrow> callE x (SockClose h);
       return_go (e, c\<lparr>tc_conn := None, tc_buffered := ''''\<rparr>) })"

text \<open>
  \<open>bufio.Reader.ReadString\<close> over an \<open>io.LimitedReader\<close>: \<open>lim\<close> bytes may still be read, \<open>k\<close> empty reads
  are tolerated in a row. The result is the line, the error, what stays buffered and what is left
  of the limit.
\<close>

function read_string ::
  "'w env \<Rightarrow> nat \<Rightarrow> nat \<Rightarrow> nat \<Rightarrow> string \<Rightarrow> ('w, string \<times> err option \<times> string \<times> nat) go" where
  "read_string x h lim k buf =
     (if newline \<in> set buf
      then return_go (takeWhile (\<lambda>c. c \<noteq> newline) buf @ [newline], None,
                      tl (dropWhile (\<lambda>c. c \<noteq> newline) buf), lim)
      else if lim = 0 then return_go (buf, Some (ErrOther ''EOF''), '''', 0)
      else do {
        r \<leftarrow> callS x (SockRead h lim);
        case r of
          Inl e \<Rightarrow> return_go (buf, Some e, '''', lim)
        | Inr chunk \<Rightarrow>
            if chunk = '''' then
              if k \<le> 1 then return_go (buf, Some (ErrOther ''multiple Read calls return no data or error''), '''', lim)
              else read_string x h lim (k - 1) buf
            else read_string x h (lim - length (take lim chunk)) 100 (buf @ take lim chunk) })"
  by pat_completeness auto
termination
  by (relation "measures [\<lambda>(x, h, lim, k, buf). lim, \<lambda>(x, h, lim, k, buf). k]") auto

declare read_string.simps [simp del]

definition tc_readMsg :: "'w env \<Rightarrow> nat \<Rightarrow> ttyControlClient \<Rightarrow> ('w, string result \<times> ttyControlClient) go" where
  "tc_readMsg x h c = do {
     (line, err, rest, lim) \<leftarrow> read_string x h maxTTYResponseLen 100 (tc_buffered c);
     let c' = c\<lparr>tc_buffered := rest\<rparr>;
     case err of
       Some e \<Rightarrow>
         if lim = 0 then return_go (Inl (ErrOther ''tty handler response exceeded 256 bytes without a newline''), c')
         else if line = '''' then return_go (Inl e, c')
         else return_go (Inr (TrimRight line is_crlf), c')
     | None \<Rightarrow> return_go (Inr (TrimRight line is_crlf), c') }"

definition tc_exchange ::
  "'w env \<Rightarrow> ctx \<Rightarrow> nat \<Rightarrow> ttyControlClient \<Rightarrow> string \<Rightarrow> ('w, string result \<times> ttyControlClient) go" where
  "tc_exchange x ctx h c req = do {
     e \<leftarrow> callE x (SockDeadline ctx h);
     case e of
       Some e \<Rightarrow> return_go (Inl e, c)
     | None \<Rightarrow> do {
         w \<leftarrow> callE x (SockWrite h req);
         case w of
           Some e \<Rightarrow> return_go (Inl e, c)
         | None \<Rightarrow> tc_readMsg x h c } }"

definition tc_Resize ::
  "'w env \<Rightarrow> ctx \<Rightarrow> ttyControlClient \<Rightarrow> int \<Rightarrow> int \<Rightarrow> ('w, err option \<times> ttyControlClient) go" where
  "tc_Resize x ctx c width height = do {
     d \<leftarrow> (if tc_conn c = None then tc_dial x c else return_go (Inr c));
     case d of
       Inl e \<Rightarrow> return_go (Some e, c)
     | Inr c \<Rightarrow> do {
         (r, c) \<leftarrow> tc_exchange x ctx (the (tc_conn c)) c (appendTTYResizeRequest '''' width height);
         case r of
           Inl e \<Rightarrow> do { (_, c) \<leftarrow> tc_reset x c; return_go (Some e, c) }
         | Inr line \<Rightarrow> return_go (parseTTYResponse line, c) } }"

text \<open>The client at an address, under its mutex.\<close>

definition client_op ::
  "'w env \<Rightarrow> nat \<Rightarrow> (ttyControlClient \<Rightarrow> ('w, 'a \<times> ttyControlClient) go) \<Rightarrow> ('w, 'a) go" where
  "client_op x t f = do {
     c \<leftarrow> atomic x (\<lambda>s. (sh_ttys s t, s));
     (r, c') \<leftarrow> f c;
     atomic x (\<lambda>s. ((), s\<lparr>sh_ttys := (sh_ttys s)(t := c')\<rparr>));
     return_go r }"

definition process_ResizePTY ::
  "'w env \<Rightarrow> ctx \<Rightarrow> nat \<Rightarrow> int \<Rightarrow> int \<Rightarrow> string \<Rightarrow> ('w, err option) go" where
  "process_ResizePTY x ctx a width height sockPath = do {
     term \<leftarrow> reading x a p_Terminal;
     if \<not> term then return_go None
     else do {
       t \<leftarrow> atomic x (\<lambda>s. case p_ttyControl (sh_procs s a) of
              Some t \<Rightarrow> (t, s)
            | None \<Rightarrow> (sh_next s,
                s\<lparr>sh_procs := (sh_procs s)(a := (sh_procs s a)\<lparr>p_ttyControl := Some (sh_next s)\<rparr>),
                  sh_ttys := (sh_ttys s)(sh_next s := newTTYControlClient sockPath),
                  sh_next := Suc (sh_next s)\<rparr>));
       client_op x t (\<lambda>c. tc_Resize x ctx c width height) } }"

definition closeTTYControl :: "'w env \<Rightarrow> nat \<Rightarrow> ('w, unit) go" where
  "closeTTYControl x a = do {
     t \<leftarrow> locked x a (\<lambda>p. (p_ttyControl p, p\<lparr>p_ttyControl := None\<rparr>));
     case t of
       None \<Rightarrow> return_go ()
     | Some t \<Rightarrow> ignore (client_op x t (tc_reset x)) }"

subsection \<open>The handler's socket and unit\<close>

definition ttySockPath :: "'w env \<Rightarrow> string \<Rightarrow> ('w, string result) go" where
  "ttySockPath x sockInfoPath = do {
     b \<leftarrow> callS x (ReadFile sockInfoPath);
     case b of
       Inr s \<Rightarrow> return_go (Inr s)
     | Inl e \<Rightarrow>
         if e \<noteq> ErrNotExist then return_go (Inl e)
         else try_go (callS x (MkdirTemp ''pty'')) (\<lambda>tmp. do {
           let s = path_Join [tmp, ''s''];
           w \<leftarrow> callE x (WriteFile sockInfoPath s);
           case w of
             Some e \<Rightarrow> do { ignore (callE x (RemoveAll tmp)); return_go (Inl e) }
           | None \<Rightarrow> return_go (Inr s) }) }"

definition init_ttySockPath :: "'w env \<Rightarrow> init_ptr \<Rightarrow> ('w, string result) go" where
  "init_ttySockPath x p = ttySockPath x (path_Join [c_root (ip_conf p), ''tty.sock''])"

definition exec_ttySockPath :: "'w env \<Rightarrow> exec_ptr \<Rightarrow> ('w, string result) go" where
  "exec_ttySockPath x p = ttySockPath x (path_Join [stateDir p, ''tty.sock''])"

fun ResizePTY :: "'w env \<Rightarrow> ctx \<Rightarrow> ptr \<Rightarrow> int \<Rightarrow> int \<Rightarrow> ('w, err option) go" where
  "ResizePTY x ctx (InitP p) w h = do {
     t \<leftarrow> init_ttySockPath x p;
     case t of Inl e \<Rightarrow> return_go (Some e) | Inr path \<Rightarrow> process_ResizePTY x ctx (ip_addr p) w h path }"
| "ResizePTY x ctx (ExecP p) w h = do {
     t \<leftarrow> exec_ttySockPath x p;
     case t of Inl e \<Rightarrow> return_go (Some e) | Inr path \<Rightarrow> process_ResizePTY x ctx (ep_addr p) w h path }"

text \<open>
  \<open>makePty\<close> starts the handler's unit. Its first deferred function runs last and only adds the log's
  text to the error.
\<close>

definition makePty_unit :: "'w env \<Rightarrow> ctx \<Rightarrow> process_conf \<Rightarrow> string \<Rightarrow> string \<Rightarrow> ('w, err option) go" where
  "makePty_unit x ctx c sockPath logPath = do {
     let props = ttyServiceProperties c sockPath logPath;
     let unit = ttyUnitName c;
     err \<leftarrow> callE x (StartTransientUnit ctx False unit ''replace'' props);
     err \<leftarrow> (case err of
        None \<Rightarrow> return_go None
      | Some e \<Rightarrow> do {
          r \<leftarrow> callE x (ResetFailedUnit ctx unit);
          if r = None then do {
            err2 \<leftarrow> callE x (StartTransientUnit ctx False unit ''replace'' props);
            return_go (if err2 = None then None else Some e) }
          else return_go (Some e) });
     case err of
       Some e \<Rightarrow> return_go (Some e)
     | None \<Rightarrow> do {
         st \<leftarrow> callJob x (JobResult ctx unit);
         case st of
           None \<Rightarrow> return_go None
         | Some status \<Rightarrow>
             return_go (if status \<noteq> ''done'' then Some (ErrOther (''failed to start tty service: '' @ status)) else None) } }"

definition makePty :: "'w env \<Rightarrow> ctx \<Rightarrow> process_conf \<Rightarrow> string \<Rightarrow> ('w, (string \<times> string) result) go" where
  "makePty x ctx c sockPath = do {
     let logPath = path_Join [c_root c, c_id c @ ''-tty.log''];
     when_go (c_Stdin c \<noteq> '''') (ignore (callE x (OpenRdWr (c_Stdin c))));
     when_go (c_Stdout c \<noteq> '''') (ignore (callE x (OpenRdWr (c_Stdout c))));
     when_go (c_Stderr c \<noteq> '''') (ignore (callE x (OpenRdWr (c_Stderr c))));
     err \<leftarrow> makePty_unit x ctx c sockPath logPath;
     case err of
       None \<Rightarrow> return_go (Inr (ttyUnitName c, sockPath))
     | Some e \<Rightarrow> do {
         ignore (callE x (StopUnit ctx (ttyUnitName c) ''replace''));
         ignore (callS x (ReadFile logPath));
         return_go (Inl e) } }"

subsection \<open>What the operations never undo, and the calls they make\<close>

lemma lo_read_string: "rely lifecycle_le x \<Longrightarrow> guar lifecycle_le (read_string x h lim k buf)"
proof (induction x h lim k buf rule: read_string.induct)
  case (1 x h lim k buf)
  show ?case
    by (subst read_string.simps) (intro lo_rules "1.IH"; simp add: "1.prems")
qed

lemma lo_client:
  assumes x: "rely lifecycle_le x"
  shows "guar lifecycle_le (tc_dial x cl)" "guar lifecycle_le (tc_reset x cl)"
    "guar lifecycle_le (tc_readMsg x h cl)" "guar lifecycle_le (tc_exchange x ctx h cl req)"
    "guar lifecycle_le (tc_Resize x ctx cl w ht)"
proof -
  note r = lo_rules lo_read_string [OF x]
  show d: "guar lifecycle_le (tc_dial x cl)" for cl unfolding tc_dial_def by (intro r; simp add: x)
  show t: "guar lifecycle_le (tc_reset x cl)" for cl unfolding tc_reset_def by (intro r; simp add: x)
  show m: "guar lifecycle_le (tc_readMsg x h cl)" for h cl unfolding tc_readMsg_def by (intro r; simp add: x)
  show e: "guar lifecycle_le (tc_exchange x ctx h cl req)" for h cl req
    unfolding tc_exchange_def by (intro r m; simp add: x)
  show "guar lifecycle_le (tc_Resize x ctx cl w ht)"
    unfolding tc_Resize_def by (intro r e d t; simp add: x)
qed

lemma lo_client_op:
  "rely lifecycle_le x \<Longrightarrow> (\<And>c. guar lifecycle_le (f c)) \<Longrightarrow> guar lifecycle_le (client_op x t f)"
  unfolding client_op_def
  by (intro lo_rules lo.guar_atomic; simp add: lifecycle_le_def)

lemma lo_closeTTYControl: "rely lifecycle_le x \<Longrightarrow> guar lifecycle_le (closeTTYControl x a)"
  unfolding closeTTYControl_def by (intro lo_rules lo_client_op lo_client; simp)

lemma lo_process_ResizePTY: "rely lifecycle_le x \<Longrightarrow> guar lifecycle_le (process_ResizePTY x ctx a w h sp)"
  unfolding process_ResizePTY_def
  by (intro lo_rules lo.guar_atomic lo_client_op lo_client; simp add: lifecycle_le_def split: option.splits)

lemma lo_tty:
  assumes x: "rely lifecycle_le x"
  shows "guar lifecycle_le (ttySockPath x f)" "guar lifecycle_le (init_ttySockPath x p)"
    "guar lifecycle_le (exec_ttySockPath x e)" "guar lifecycle_le (makePty_unit x ctx c sp lp)"
    "guar lifecycle_le (makePty x ctx c sp)" "guar lifecycle_le (ResizePTY x ctx q w h)"
proof -
  show 1: "guar lifecycle_le (ttySockPath x f)" for f unfolding ttySockPath_def by (intro lo_rules; simp add: x)
  show 2: "guar lifecycle_le (init_ttySockPath x p)" for p unfolding init_ttySockPath_def by (rule 1)
  show 3: "guar lifecycle_le (exec_ttySockPath x e)" for e unfolding exec_ttySockPath_def by (rule 1)
  show 4: "guar lifecycle_le (makePty_unit x ctx c sp lp)" for sp lp
    unfolding makePty_unit_def by (intro lo_rules; simp add: x)
  show "guar lifecycle_le (makePty x ctx c sp)"
    unfolding makePty_def by (intro lo_rules 4; simp add: x)
  show "guar lifecycle_le (ResizePTY x ctx q w h)"
    by (cases q; simp only: ResizePTY.simps) (intro lo_rules 2 3 lo_process_ResizePTY; simp add: x)+
qed

fun is_sock_call :: "call \<Rightarrow> bool" where
  "is_sock_call (SockDial _) = True" | "is_sock_call (SockClose _) = True"
| "is_sock_call (SockDeadline _ _) = True" | "is_sock_call (SockWrite _ _) = True"
| "is_sock_call (SockRead _ _) = True" | "is_sock_call _ = False"

lemma only_client_op [only_rules]: "(\<And>c. only C (f c)) \<Longrightarrow> only C (client_op x t f)"
  unfolding client_op_def by (intro only_rules)

lemma only_tc_reset [only_rules]: "only is_sock_call (tc_reset x c)"
  unfolding tc_reset_def by (intro only_rules; simp)

lemma only_closeTTYControl [only_rules]: "only is_sock_call (closeTTYControl x a)"
  unfolding closeTTYControl_def by (intro only_rules)

subsection \<open>Requests\<close>

lemma length_show_nat: "n < 10 ^ k \<Longrightarrow> 0 < k \<Longrightarrow> length (show_nat n) \<le> k"
proof (induction k arbitrary: n)
  case 0
  then show ?case by simp
next
  case (Suc k)
  show ?case
  proof (cases "n < 10")
    case True
    then show ?thesis by (simp add: show_nat.simps [of n])
  next
    case False
    with Suc.prems have "0 < k" by (cases k) auto
    moreover have "n div 10 < 10 ^ k" using Suc.prems(1) by (simp add: div_less_iff_less_mult mult.commute)
    ultimately have "length (show_nat (n div 10)) \<le> k" by (rule Suc.IH [rotated])
    with False show ?thesis by (simp add: show_nat.simps [of n])
  qed
qed

lemma digit_not_special: "is_digit c \<Longrightarrow> c \<noteq> newline \<and> c \<noteq> CHR '' '' \<and> c \<noteq> CHR ''-'' \<and> c \<noteq> CHR ''+''"
  by (auto simp: is_digit_def)

lemma show_int_chars: "c \<in> set (show_int i) \<Longrightarrow> c \<noteq> newline \<and> c \<noteq> CHR '' ''"
  using show_nat_digits [of "nat i"] show_nat_digits [of "nat (- i)"] digit_not_special
  by (auto simp: show_int_def list_all_iff split: if_splits)

text \<open>
  The other end of the socket is the handler of \<open>pty.c\<close>. Its \<open>sscanf\<close> skips white space, takes an
  optional sign and then digits into an \<open>int\<close>; a number outside the range of \<open>int\<close> is undefined in C, and
  the low 32 bits stand for it here. The two sizes are stored in the 16-bit fields of the window size.
\<close>

record winsize =
  ws_col :: "16 word"
  ws_row :: "16 word"

definition scan_d :: "string \<Rightarrow> (32 word \<times> string) option" where
  "scan_d s =
     (let t = dropWhile is_space s;
          neg = (t \<noteq> '''' \<and> hd t = CHR ''-'');
          u = (if t \<noteq> '''' \<and> (hd t = CHR ''-'' \<or> hd t = CHR ''+'') then tl t else t);
          ds = takeWhile is_digit u;
          v = int (nat_of_digits ds)
      in if ds = '''' then None else Some (word_of_int (if neg then - v else v), dropWhile is_digit u))"

definition reply_ok :: string where
  "reply_ok = ''0'' @ [newline]"

definition reply_err :: "string \<Rightarrow> string" where
  "reply_err msg = take 255 (''1 '' @ msg @ [newline])"

text \<open>The window size set, if the request gets that far, and the reply; \<open>ioctl\<close> says whether it could be set.\<close>

definition handle_tty_request :: "(winsize \<Rightarrow> bool) \<Rightarrow> string \<Rightarrow> winsize option \<times> string" where
  "handle_tty_request ioctl line =
     (case scan_d line of
        None \<Rightarrow> (None, reply_err ''invalid resize request'')
      | Some (op, r1) \<Rightarrow>
     (case scan_d r1 of
        None \<Rightarrow> (None, reply_err ''invalid resize request'')
      | Some (w, r2) \<Rightarrow>
     (case scan_d r2 of
        None \<Rightarrow> (None, reply_err ''invalid resize request'')
      | Some (h, r3) \<Rightarrow>
          if op \<noteq> 1 then (None, reply_err ''unknown operation'')
          else let ws = \<lparr>ws_col = ucast w, ws_row = ucast h\<rparr>
               in (Some ws, if ioctl ws then reply_ok else reply_err ''error setting window size''))))"

lemma digit_not_space: "is_digit c \<Longrightarrow> \<not> is_space c"
  by (auto simp: is_digit_def is_space_def)

lemma takeWhile_digits:
  "list_all is_digit ds \<Longrightarrow> r = '''' \<or> \<not> is_digit (hd r) \<Longrightarrow>
   takeWhile is_digit (ds @ r) = ds \<and> dropWhile is_digit (ds @ r) = r"
  by (induction ds) (cases r; auto)+

lemma scan_d_number:
  assumes "0 \<le> i" "r = '''' \<or> \<not> is_digit (hd r)" "list_all is_space sp"
  shows "scan_d (sp @ show_int i @ r) = Some (word_of_int i, r)"
proof -
  obtain c cs where c: "show_nat (nat i) = c # cs" "is_digit c"
    using show_nat_digits [of "nat i"] by (cases "show_nat (nat i)") auto
  have "dropWhile is_space (sp @ show_nat (nat i) @ r) = show_nat (nat i) @ r"
    using assms(3) c digit_not_space [OF c(2)] by (simp add: dropWhile_append list_all_iff)
  moreover have "hd (show_nat (nat i) @ r) \<noteq> CHR ''-''" "hd (show_nat (nat i) @ r) \<noteq> CHR ''+''"
    using c digit_not_special [OF c(2)] by simp_all
  ultimately show ?thesis
    using assms takeWhile_digits [of "show_nat (nat i)" r] show_nat_digits [of "nat i"]
    by (simp add: scan_d_def Let_def show_int_def)
qed

lemma length_show_int: "0 \<le> i \<Longrightarrow> i < 2 ^ 32 \<Longrightarrow> length (show_int i) \<le> 10"
  using length_show_nat [of "nat i" 10] by (simp add: show_int_def)

text \<open>
  C34: a resize request is one line: its only newline is the last character, and for the 32-bit sizes of
  the API it fits the client's request buffer. The handler of \<open>pty.c\<close>, whose \<open>sscanf\<close> reads into an
  \<open>int\<close>, takes every request for sizes below \<open>2 ^ 31\<close> as a resize and sets the window to exactly the
  requested width and height modulo \<open>2 ^ 16\<close> - so to the requested size itself only below 65536 - and the
  reply it writes is read by the client as success exactly if the terminal took the size.
\<close>

theorem resize_request_roundtrip:
  assumes "0 \<le> w" "w < 2 ^ 32" "0 \<le> h" "h < 2 ^ 32"
  shows "\<exists>line. appendTTYResizeRequest '''' w h = line @ [newline] \<and> newline \<notin> set line
           \<and> length (line @ [newline]) \<le> ttyRequestBufSize
           \<and> (w < 2 ^ 31 \<and> h < 2 ^ 31 \<longrightarrow>
                (\<exists>ws. fst (handle_tty_request ioctl line) = Some ws
                   \<and> uint (ws_col ws) = w mod 2 ^ 16 \<and> uint (ws_row ws) = h mod 2 ^ 16
                   \<and> parseTTYResponse (snd (handle_tty_request ioctl line))
                       = (if ioctl ws then None
                          else Some (ErrOther ''tty handler returned an error: error setting window size''))))"
proof -
  let ?ws = "\<lparr>ws_col = ucast (word_of_int w :: 32 word), ws_row = ucast (word_of_int h :: 32 word)\<rparr>"
  let ?line = "show_int ttyOpResize @ '' '' @ show_int w @ '' '' @ show_int h"
  have no: "newline \<notin> set (show_int i)" for i using show_int_chars by blast
  have "scan_d ?line = Some (1, '' '' @ show_int w @ '' '' @ show_int h)"
    using scan_d_number [of ttyOpResize "'' '' @ show_int w @ '' '' @ show_int h" "''''"]
    by (simp add: ttyOpResize_def is_digit_def)
  moreover have "scan_d ('' '' @ show_int w @ '' '' @ show_int h) = Some (word_of_int w, '' '' @ show_int h)"
    using scan_d_number [of w "'' '' @ show_int h" "'' ''"] assms by (simp add: is_digit_def is_space_def)
  moreover have "scan_d ('' '' @ show_int h) = Some (word_of_int h, '''')"
    using scan_d_number [of h "''''" "'' ''"] assms by (simp add: is_space_def)
  ultimately have set_size: "handle_tty_request ioctl ?line =
      (Some ?ws, if ioctl ?ws then reply_ok else reply_err ''error setting window size'')"
    unfolding handle_tty_request_def by (simp only: option.case prod.case Let_def) simp
  have size: "uint (ucast (word_of_int i :: 32 word) :: 16 word) = i mod 2 ^ 16" for i :: int
    by (simp add: unsigned_ucast_eq unsigned_of_int take_bit_eq_mod mod_mod_cancel)
  have reply: "parseTTYResponse reply_ok = None"
    "parseTTYResponse (reply_err ''error setting window size'')
       = Some (ErrOther ''tty handler returned an error: error setting window size'')"
    by (simp_all add: parseTTYResponse_def reply_ok_def reply_err_def TrimRight_def is_crlf_def
        ttyStatusOK_def ttyStatusErr_def)
  have handled: "\<exists>ws. fst (handle_tty_request ioctl ?line) = Some ws
      \<and> uint (ws_col ws) = w mod 2 ^ 16 \<and> uint (ws_row ws) = h mod 2 ^ 16
      \<and> parseTTYResponse (snd (handle_tty_request ioctl ?line))
          = (if ioctl ws then None
             else Some (ErrOther ''tty handler returned an error: error setting window size''))"
    unfolding set_size using size reply by (intro exI [of _ ?ws]) simp
  have "length (show_int ttyOpResize) = 1" by (simp add: ttyOpResize_def show_int_def show_nat.simps)
  with length_show_int [OF assms(1,2)] length_show_int [OF assms(3,4)]
  have fits: "length (?line @ [newline]) \<le> ttyRequestBufSize" by (simp add: ttyRequestBufSize_def)
  show ?thesis
    by (rule exI [of _ ?line], intro conjI impI; (rule handled fits)?)
       (simp_all add: appendTTYResizeRequest_def no)
qed

theorem resize_request_roundtrip_witness:
  "\<exists>line. appendTTYResizeRequest '''' 80 24 = line @ [newline]
     \<and> (\<exists>ws. fst (handle_tty_request (\<lambda>_. True) line) = Some ws \<and> uint (ws_col ws) = 80 \<and> uint (ws_row ws) = 24)"
  using resize_request_roundtrip [of 80 24 "\<lambda>_. True"] by auto

subsection \<open>Replies\<close>

lemma take_drop_newline:
  "newline \<in> set buf \<Longrightarrow>
   length (takeWhile (\<lambda>c. c \<noteq> newline) buf) + 1 + length (tl (dropWhile (\<lambda>c. c \<noteq> newline) buf)) = length buf"
  by (induction buf) auto

lemma read_string_bound:
  "wp (read_string x h lim k buf)
     (\<lambda>(line, err, rest, lim') s'. length line + length rest + lim' \<le> length buf + lim
        \<and> (err = None \<longrightarrow> line \<noteq> '''' \<and> last line = newline) \<and> (err \<noteq> None \<longrightarrow> rest = '''')) s"
proof (induction x h lim k buf arbitrary: s rule: read_string.induct)
  case (1 x h lim k buf)
  show ?case
  proof (cases "newline \<in> set buf \<or> lim = 0")
    case True
    then show ?thesis using take_drop_newline [of buf]
      by (auto simp: read_string.simps [of x h lim k buf] wp_simps)
  next
    case False
    have long: "wp (read_string x h (lim - length (take lim ch)) 100 (buf @ take lim ch))
        (\<lambda>(line, err, rest, lim') s'. length line + length rest + lim' \<le> length buf + lim
           \<and> (err = None \<longrightarrow> line \<noteq> '''' \<and> last line = newline) \<and> (err \<noteq> None \<longrightarrow> rest = '''')) t"
      if "ch \<noteq> ''''" for ch t
      by (rule wp_mono [OF "1.IH"(2)]) (use False that in \<open>auto split: prod.splits\<close>)
    show ?thesis
      using False "1.IH"(1) long
      by (simp add: read_string.simps [of x h lim k buf] wp_simps callS_def split: prod.splits sum.splits)
  qed
qed

text \<open>
  Reading a reply is bounded and never returns line ends inside: whatever the handler sends, in whatever
  pieces, a reply handed to the caller comes from at most 256 bytes on top of what was already
  buffered.
\<close>

theorem tty_reply_bounded:
  assumes "run_state (tc_readMsg x h c) s = ((Inr line, c'), s')"
  shows "length line + length (tc_buffered c') \<le> length (tc_buffered c) + maxTTYResponseLen
       \<and> (line \<noteq> '''' \<longrightarrow> \<not> is_crlf (last line)) \<and> tc_conn c' = tc_conn c"
proof -
  have trim: "length (TrimRight l P) \<le> length l" "TrimRight l P \<noteq> [] \<Longrightarrow> \<not> P (last (TrimRight l P))"
    for l and P :: "char \<Rightarrow> bool"
    using length_dropWhile_le [of P "rev l"] hd_dropWhile [of P "rev l"]
    by (simp_all add: TrimRight_def last_rev)
  have le: "length l + b \<le> m \<Longrightarrow> length (TrimRight l is_crlf) \<le> m"
    "length l + k + b \<le> m \<Longrightarrow> length (TrimRight l is_crlf) + k \<le> m" for l b k m
    using trim(1) [of l is_crlf] by simp_all
  have "wp (tc_readMsg x h c) (\<lambda>(r, c') s'. \<forall>line. r = Inr line \<longrightarrow>
      length line + length (tc_buffered c') \<le> length (tc_buffered c) + maxTTYResponseLen
      \<and> (line \<noteq> '''' \<longrightarrow> \<not> is_crlf (last line)) \<and> tc_conn c' = tc_conn c) s"
    unfolding tc_readMsg_def wp_bind
    by (rule wp_mono [OF read_string_bound])
       (auto simp: wp_simps Let_def split: option.splits intro: le dest: trim(2))
  from wpD [OF this assms] show ?thesis by simp
qed

text \<open>A handler that answers every request with one well-formed line.\<close>

definition tty_env :: "string \<Rightarrow> unit env" where
  "tty_env reply = calm_env\<lparr>e_str := (\<lambda>k s. (Inr (reply @ [newline]), s))\<rparr>"

definition idle_client :: ttyControlClient where
  "idle_client = newTTYControlClient ''/run/pty/s''"

lemma ok_reply_read:
  "run_state (tc_readMsg (tty_env ''0'') 0 (idle_client\<lparr>tc_conn := Some 0\<rparr>)) s
     = ((Inr ''0'', idle_client\<lparr>tc_conn := Some 0\<rparr>), s\<lparr>sh_calls := sh_calls s @ [SockRead 0 256]\<rparr>)"
  by (simp add: tc_readMsg_def read_string.simps idle_client_def newTTYControlClient_def callS_def ext_def
      tty_env_def maxTTYResponseLen_def TrimRight_def is_crlf_def)

theorem tty_reply_bounded_witness:
  "length ''0'' + length (tc_buffered (idle_client\<lparr>tc_conn := Some 0\<rparr>)) \<le> 256"
  using tty_reply_bounded [OF ok_reply_read]
  by (simp add: maxTTYResponseLen_def idle_client_def newTTYControlClient_def)

lemma tc_readMsg_conn: "wp (tc_readMsg x h c) (\<lambda>(r, c') s'. tc_conn c' = tc_conn c) s"
  unfolding tc_readMsg_def wp_bind
  by (rule wp_mono [OF read_string_bound]) (auto simp: wp_simps Let_def split: option.splits)

lemma only_read_string [only_rules]: "only is_sock_call (read_string x h lim k buf)"
proof (induction x h lim k buf rule: read_string.induct)
  case (1 x h lim k buf)
  show ?case by (subst read_string.simps) (intro only_rules "1.IH"; simp)
qed

lemma tc_exchange_result:
  "wp (tc_exchange x ctx h c req) (\<lambda>(r, c') s'. tc_conn c' = tc_conn c
     \<and> (\<exists>cs. sh_calls s' = sh_calls s @ cs \<and> (\<not> is_err r \<longrightarrow> SockWrite h req \<in> set cs))) s"
proof -
  have read: "wp (tc_readMsg x h c) (\<lambda>(r, c') s'. tc_conn c' = tc_conn c
      \<and> (\<exists>cs. sh_calls s' = sh_calls t @ cs)) t" for t
  proof -
    have "only is_sock_call (tc_readMsg x h c)"
      unfolding tc_readMsg_def by (intro only_rules)
    then have "wp (tc_readMsg x h c) (\<lambda>r s'. \<exists>cs. sh_calls s' = sh_calls t @ cs) t"
      by (rule only_wpI) blast
    from wp_conj [OF tc_readMsg_conn this] show ?thesis by (rule wp_mono) auto
  qed
  show ?thesis
    unfolding tc_exchange_def
    by (auto simp: wp_simps callE_def split: prod.splits option.splits intro!: wp_mono [OF read])
qed

text \<open>
  The outcome of a resize. It succeeds only if the request was written on the connection the client then
  still holds and the handler's line was the success status; a failed exchange leaves the
  client without a connection, so that the next resize dials again.
\<close>

theorem resize_outcome:
  assumes "run_state (tc_Resize x ctx c w h) s = ((r, c'), s')"
  shows "(r = None \<longrightarrow> (\<exists>fd cs. tc_conn c' = Some fd \<and> sh_calls s' = sh_calls s @ cs
            \<and> SockWrite fd (appendTTYResizeRequest '''' w h) \<in> set cs))
       \<and> (tc_conn c' = None \<longrightarrow> r \<noteq> None)"
proof -
  let ?req = "appendTTYResizeRequest '''' w h"
  let ?Q = "\<lambda>(r, c') s'. r = None \<longrightarrow> (\<exists>fd cs. tc_conn c' = Some fd \<and> sh_calls s' = sh_calls s @ cs
            \<and> SockWrite fd ?req \<in> set cs)"
  have main: "wp (tc_exchange x ctx fd c1 ?req)
      (\<lambda>r. wp (case r of (Inl e, c) \<Rightarrow> tc_reset x c \<bind> (\<lambda>(_, c). return_go (Some e, c))
                | (Inr line, c) \<Rightarrow> return_go (parseTTYResponse line, c)) ?Q) t"
    if "tc_conn c1 = Some fd" "sh_calls t = sh_calls s @ pre" for c1 fd t pre
    by (rule wp_mono [OF tc_exchange_result])
       (use that in \<open>auto simp: wp_simps tc_reset_def callE_def split: sum.splits prod.splits option.splits\<close>)
  have "wp (tc_Resize x ctx c w h) ?Q s"
  proof (cases "tc_conn c")
    case None
    have "wp (tc_exchange x ctx fd (c\<lparr>tc_conn := Some fd, tc_buffered := []\<rparr>) ?req)
      (\<lambda>r. wp (case r of (Inl e, c) \<Rightarrow> tc_reset x c \<bind> (\<lambda>(_, c). return_go (Some e, c))
                | (Inr line, c) \<Rightarrow> return_go (parseTTYResponse line, c)) ?Q)
      (t\<lparr>sh_calls := sh_calls s @ [SockDial (tc_sockPath c)]\<rparr>)" for fd t
      by (rule main) simp_all
    with None show ?thesis
      unfolding tc_Resize_def tc_dial_def
      by (auto simp: wp_simps callFd_def split: prod.splits sum.splits)
  next
    case (Some fd)
    with main [of c fd s "[]"] show ?thesis
      unfolding tc_Resize_def by (simp add: wp_simps)
  qed
  from wpD [OF this assms] show ?thesis by auto
qed

theorem resize_outcome_witness:
  "\<exists>fd cs. sh_calls (snd (run_state (tc_Resize (tty_env ''0'') ReqCtx idle_client 80 24)
               (demo_shim (blank_process ''ns'') (blank_process ''ns'')))) = cs
            \<and> SockWrite fd (appendTTYResizeRequest '''' 80 24) \<in> set cs"
proof -
  let ?m = "tc_Resize (tty_env ''0'') ReqCtx idle_client 80 24"
  let ?s = "demo_shim (blank_process ''ns'') (blank_process ''ns'')"
  have "fst (fst (run_state ?m ?s)) = None"
    using ok_reply_read
    by (simp add: tc_Resize_def tc_dial_def tc_exchange_def try_go_def callFd_def callE_def ext_def tty_env_def
        calm_env_def parseTTYResponse_def ttyStatusOK_def TrimRight_def is_crlf_def
        idle_client_def newTTYControlClient_def)
  then obtain c' s' where run: "run_state ?m ?s = ((None, c'), s')" by (metis prod.collapse)
  from resize_outcome [OF run] run show ?thesis by (auto simp: demo_shim_def)
qed

end
