(* ===== verification/Delete.thy ===== *)
theory Delete
  imports Tty
begin

text \<open>
  Deleting a task or an exec (\<open>delete.go\<close>). The functions that may block on the process's exit take the
  number \<open>n\<close> of wake-ups considered and return \<open>None\<close> when they are still waiting after them.
\<close>

subsection \<open>Lookups shared by the handlers\<close>

definition processes_Get :: "'w env \<Rightarrow> string \<Rightarrow> string \<Rightarrow> ('w, init_ptr option) go" where
  "processes_Get x ns i = atomic x (\<lambda>s. (pm_Get (sh_processes s) (path_Join [ns, i]), s))"

definition processes_Delete :: "'w env \<Rightarrow> string \<Rightarrow> string \<Rightarrow> ('w, unit) go" where
  "processes_Delete x ns i =
     atomic x (\<lambda>s. ((), s\<lparr>sh_processes := pm_Delete (sh_processes s) (path_Join [ns, i])\<rparr>))"

definition units_Add :: "'w env \<Rightarrow> ptr \<Rightarrow> ('w, unit) go" where
  "units_Add x q = atomic x (\<lambda>s. ((), s\<lparr>sh_units := um_Add (sh_units s) q\<rparr>))"

definition units_Delete :: "'w env \<Rightarrow> ptr \<Rightarrow> ('w, unit) go" where
  "units_Delete x q = atomic x (\<lambda>s. ((), s\<lparr>sh_units := um_Delete (sh_units s) q\<rparr>))"

definition execs_Get :: "'w env \<Rightarrow> init_ptr \<Rightarrow> string \<Rightarrow> ('w, exec_ptr option) go" where
  "execs_Get x p i = atomic x (\<lambda>s. (pm_Get (i_execs (sh_inits s (ip_addr p))) i, s))"

definition execs_Delete :: "'w env \<Rightarrow> init_ptr \<Rightarrow> string \<Rightarrow> ('w, unit) go" where
  "execs_Delete x p i = atomic x (\<lambda>s. ((), s\<lparr>sh_inits := (sh_inits s)(ip_addr p :=
     (sh_inits s (ip_addr p))\<lparr>i_execs := pm_Delete (i_execs (sh_inits s (ip_addr p))) i\<rparr>)\<rparr>))"

subsection \<open>Stopping a unit\<close>

text \<open>Ask systemd to stop a unit and, if it took the job, wait for its end or the context's.\<close>

definition stop_and_wait :: "'w env \<Rightarrow> ctx \<Rightarrow> string \<Rightarrow> ('w, unit) go" where
  "stop_and_wait x c name = do {
     e \<leftarrow> callE x (StopUnit c name ''replace'');
     if e = None then ignore (callJob x (JobResult c name)) else return_go () }"

subsection \<open>Deleting a task\<close>

text \<open>
  The precondition: a task that has not exited, neither in the shim's state nor in its unit's, is refused; an
  exit the unit shows is recorded.
\<close>

definition init_Delete_check :: "'w env \<Rightarrow> ctx \<Rightarrow> init_ptr \<Rightarrow> ('w, err option) go" where
  "init_Delete_check x c p = do {
     st \<leftarrow> reading x (ip_addr p) ProcessState;
     if \<not> Exited st then do {
       g \<leftarrow> exit_from_unit x c (init_Name p);
       case g of
         Inr st \<Rightarrow>
           if \<not> Exited st then return_go (Some ErrFailedPrecondition)
           else do { ignore (init_SetState x c p st); return_go None }
       | Inl _ \<Rightarrow> return_go None }
     else return_go None }"

text \<open>The rest of the delete once runc has let go of the container.\<close>

definition init_Delete_finish :: "'w env \<Rightarrow> ctx \<Rightarrow> init_ptr \<Rightarrow> nat \<Rightarrow> ('w, pState result option) go" where
  "init_Delete_finish x c p n = do {
     let conf = ip_conf p;
     pid \<leftarrow> reading x (ip_addr p) process_Pid;
     w \<leftarrow> (if pid > 0 then waitForExit x c (ip_addr p) n else return_go (Some (Inr pState_zero)));
     case w of
       None \<Rightarrow> return_go None
     | Some r \<Rightarrow> (case r of
         Inl e \<Rightarrow> return_go (Some (Inl e))
       | Inr ps \<Rightarrow> do {
           term \<leftarrow> reading x (ip_addr p) p_Terminal;
           when_go term (ignore (callE x (KillUnit c (unitName (c_ns conf) (c_id conf) ''tty'') 9)));
           ignore (callE x (ResetFailedUnit c (init_Name p)));
           init_finishDelete x p;
           closeTTYControl x (ip_addr p);
           return_go (Some (Inr ps)) }) }"

definition init_Delete_teardown :: "'w env \<Rightarrow> ctx \<Rightarrow> init_ptr \<Rightarrow> nat \<Rightarrow> ('w, pState result option) go" where
  "init_Delete_teardown x c p n = do {
     stop_and_wait x c (init_Name p);
     ignore (callE x (KillUnit c (init_Name p) 9));
     d \<leftarrow> callE x (RuncDelete c (c_runc (ip_conf p)) (c_id (ip_conf p)) True);
     case d of
       Some e \<Rightarrow> return_go (Some (Inl e))
     | None \<Rightarrow> init_Delete_finish x c p n }"

text \<open>Past the precondition: teardown begins, and the deferred functions run on every return.\<close>

definition init_Delete_commit :: "'w env \<Rightarrow> ctx \<Rightarrow> init_ptr \<Rightarrow> nat \<Rightarrow> ('w, pState result option) go" where
  "init_Delete_commit x c p n = do {
     locked x (ip_addr p) (\<lambda>pr. ((), markDeleting pr));
     r \<leftarrow> init_Delete_teardown x c p n;
     case r of
       None \<Rightarrow> return_go None
     | Some ret \<Rightarrow> do {
         when_go (is_err ret) (ignore (callE x (RemoveAll (c_root (ip_conf p)))));
         releaseUnit x (cleanupContext c) (ip_conf p) (init_Name p);
         return_go (Some ret) } }"

definition init_Delete :: "'w env \<Rightarrow> ctx \<Rightarrow> init_ptr \<Rightarrow> nat \<Rightarrow> ('w, pState result option) go" where
  "init_Delete x c p n = do {
     refused \<leftarrow> init_Delete_check x c p;
     case refused of
       Some e \<Rightarrow> return_go (Some (Inl e))
     | None \<Rightarrow> init_Delete_commit x c p n }"

subsection \<open>Deleting an exec\<close>

definition exec_Delete_finish :: "'w env \<Rightarrow> ctx \<Rightarrow> exec_ptr \<Rightarrow> nat \<Rightarrow> ('w, pState result option) go" where
  "exec_Delete_finish x c p n = do {
     pid \<leftarrow> reading x (ep_addr p) process_Pid;
     w \<leftarrow> (if pid > 0 then waitForExit x c (ep_addr p) n else return_go (Some (Inr pState_zero)));
     case w of
       None \<Rightarrow> return_go None
     | Some r \<Rightarrow> (case r of
         Inl e \<Rightarrow> return_go (Some (Inl e))
       | Inr ps \<Rightarrow> do {
           exec_finishDelete x p;
           closeTTYControl x (ep_addr p);
           execs_Delete x (ep_parent p) (ep_execID p);
           ignore (callE x (ResetFailedUnit c (exec_Name p)));
           ignore (callE x (RemoveAll (stateDir p)));
           return_go (Some (Inr ps)) }) }"

definition exec_Delete_teardown :: "'w env \<Rightarrow> ctx \<Rightarrow> exec_ptr \<Rightarrow> nat \<Rightarrow> ('w, pState result option) go" where
  "exec_Delete_teardown x c p n = do {
     stop_and_wait x c (exec_Name p);
     ignore (callE x (KillUnitWithTarget c (exec_Name p) KillMain 9));
     term \<leftarrow> reading x (ep_addr p) p_Terminal;
     when_go term (ignore (callE x (KillUnitWithTarget c (ttyUnitName (ep_conf p)) KillMain 9)));
     exec_Delete_finish x c p n }"

definition exec_Delete :: "'w env \<Rightarrow> ctx \<Rightarrow> exec_ptr \<Rightarrow> nat \<Rightarrow> ('w, pState result option) go" where
  "exec_Delete x c p n = do {
     pid \<leftarrow> reading x (ep_addr p) process_Pid;
     st \<leftarrow> reading x (ep_addr p) ProcessState;
     pst \<leftarrow> reading x (ip_addr (ep_parent p)) ProcessState;
     if pid \<noteq> 0 \<and> \<not> Exited st \<and> \<not> Exited pst then return_go (Some (Inl ErrFailedPrecondition))
     else do {
       locked x (ep_addr p) (\<lambda>pr. ((), markDeleting pr));
       r \<leftarrow> exec_Delete_teardown x c p n;
       case r of
         None \<Rightarrow> return_go None
       | Some ret \<Rightarrow> do {
           releaseUnit x (cleanupContext c) (ep_conf p) (exec_Name p);
           return_go (Some ret) } } }"

subsection \<open>The handler\<close>

record DeleteResponse =
  dr_Pid :: u32
  dr_ExitStatus :: u32
  dr_ExitedAt :: time

definition delete_response :: "pState \<Rightarrow> DeleteResponse" where
  "delete_response st = \<lparr>dr_Pid = Pid st, dr_ExitStatus = ExitCode st, dr_ExitedAt = ExitedAt st\<rparr>"

text \<open>What deleting a task does to each exec still registered.\<close>

definition release_exec :: "'w env \<Rightarrow> ctx \<Rightarrow> exec_ptr \<Rightarrow> ('w, unit) go" where
  "release_exec x c e = do {
     locked x (ep_addr e) (\<lambda>pr. ((), markDeleting pr));
     releaseUnit x (cleanupContext c) (ep_conf e) (exec_Name e);
     ignore (callE x (ResetFailedUnit (cleanupContext c) (exec_Name e)));
     units_Delete x (ExecP e) }"

definition Service_Delete ::
  "'w env \<Rightarrow> ctx \<Rightarrow> string result \<Rightarrow> string \<Rightarrow> string \<Rightarrow> nat \<Rightarrow> ('w, DeleteResponse result option) go" where
  "Service_Delete x c ns_req ID ExecID n = (case ns_req of
     Inl e \<Rightarrow> return_go (Some (Inl e))
   | Inr ns \<Rightarrow> do {
       q \<leftarrow> processes_Get x ns ID;
       case q of
         None \<Rightarrow> return_go (Some (Inl ErrNotFound))
       | Some p \<Rightarrow>
           if ExecID \<noteq> '''' then do {
             ep \<leftarrow> execs_Get x p ExecID;
             case ep of
               None \<Rightarrow> return_go (Some (Inl ErrNotFound))
             | Some e \<Rightarrow> do {
                 r \<leftarrow> exec_Delete x c e n;
                 case r of
                   None \<Rightarrow> return_go None
                 | Some ret \<Rightarrow> (case ret of
                     Inl err \<Rightarrow> return_go (Some (Inl err))
                   | Inr st \<Rightarrow> do {
                       execs_Delete x p ExecID;
                       units_Delete x (ExecP e);
                       return_go (Some (Inr (delete_response st))) }) } }
           else do {
             r \<leftarrow> init_Delete x c p n;
             case r of
               None \<Rightarrow> return_go None
             | Some ret \<Rightarrow> (case ret of
                 Inl err \<Rightarrow> return_go (Some (Inl err))
               | Inr st \<Rightarrow> do {
                   execs \<leftarrow> atomic x (\<lambda>s. (i_execs (sh_inits s (ip_addr p)), s));
                   pm_Each (release_exec x c) execs;
                   processes_Delete x ns ID;
                   units_Delete x (InitP p);
                   return_go (Some (Inr (delete_response st))) }) } })"

subsection \<open>What the operations never undo\<close>

lemma lo_tables:
  assumes x: "rely lifecycle_le x"
  shows "guar lifecycle_le (processes_Get x ns i)" "guar lifecycle_le (processes_Delete x ns i)"
    "guar lifecycle_le (units_Add x q)" "guar lifecycle_le (units_Delete x q)"
    "guar lifecycle_le (execs_Get x p i)" "guar lifecycle_le (execs_Delete x p i)"
  unfolding processes_Get_def processes_Delete_def units_Add_def units_Delete_def execs_Get_def execs_Delete_def
  by (rule lo.guar_atomic; simp add: lifecycle_le_def x)+

lemma lo_stop_and_wait: "rely lifecycle_le x \<Longrightarrow> guar lifecycle_le (stop_and_wait x c n)"
  unfolding stop_and_wait_def by (intro lo_rules)

lemma lo_init_Delete:
  assumes x: "rely lifecycle_le x"
  shows "guar lifecycle_le (init_Delete_check x c p)" "guar lifecycle_le (init_Delete_teardown x c p n)"
    "guar lifecycle_le (init_Delete x c p n)"
proof -
  note r = lo_rules lo_tasks lo_stop_and_wait lo_closeTTYControl
  show 1: "guar lifecycle_le (init_Delete_check x c p)"
    unfolding init_Delete_check_def by (intro r; simp add: x)
  show 2: "guar lifecycle_le (init_Delete_teardown x c p n)"
    unfolding init_Delete_teardown_def init_Delete_finish_def by (intro r; simp add: x)
  show "guar lifecycle_le (init_Delete x c p n)"
    unfolding init_Delete_def init_Delete_commit_def by (intro r 1 2; simp add: x)
qed

lemma lo_exec_Delete:
  assumes x: "rely lifecycle_le x"
  shows "guar lifecycle_le (exec_Delete_teardown x c e n)" "guar lifecycle_le (exec_Delete x c e n)"
proof -
  note r = lo_rules lo_tasks lo_stop_and_wait lo_closeTTYControl lo_tables
  show 1: "guar lifecycle_le (exec_Delete_teardown x c e n)"
    unfolding exec_Delete_teardown_def exec_Delete_finish_def by (intro r; simp add: x)
  show "guar lifecycle_le (exec_Delete x c e n)"
    unfolding exec_Delete_def by (intro r 1; simp add: x)
qed

lemma lo_Service_Delete: "rely lifecycle_le x \<Longrightarrow> guar lifecycle_le (Service_Delete x c ns i e n)"
  unfolding Service_Delete_def release_exec_def
  by (intro lo_rules lo_tables lo_init_Delete lo_exec_Delete lo_tasks; simp)

subsection \<open>The calls of a delete\<close>

lemma only_init_finish: "only (\<lambda>k. \<not> is_recording k) (init_Delete_finish x c p n)"
  unfolding init_Delete_finish_def
  by (intro only_rules only_mono [OF only_closeTTYControl]; auto elim: is_sock_call.elims)

lemma only_exec_finish: "only (\<lambda>k. \<not> is_recording k) (exec_Delete_finish x c e n)"
  unfolding exec_Delete_finish_def execs_Delete_def
  by (intro only_rules only_mono [OF only_closeTTYControl]; auto elim: is_sock_call.elims)

lemma only_init_check: "only is_recording (init_Delete_check x c p)"
  unfolding init_Delete_check_def by (intro only_rules)

text \<open>The trace of a teardown: stop, possibly the stop job's end, kill, runc delete, then the rest.\<close>

definition stop_trace :: "ctx \<Rightarrow> string \<Rightarrow> call list \<Rightarrow> bool" where
  "stop_trace c name cs \<longleftrightarrow> cs = [StopUnit c name ''replace''] \<or> cs = [StopUnit c name ''replace'', JobResult c name]"

lemma stop_and_wait_trace: "wp (stop_and_wait x c name) (\<lambda>_ s'. trace s s' [stop_trace c name]) s"
  by (auto simp: stop_and_wait_def wp_simps callE_def callJob_def stop_trace_def trace_def split: prod.splits)

lemmas tr_stop = wp_trace [OF stop_and_wait_trace]

abbreviation settle :: "call list \<Rightarrow> bool" where
  "settle \<equiv> many (\<lambda>k. \<not> is_recording k)"

lemma trace_settle:
  "\<not> is_recording k \<Longrightarrow> trace s t (pre @ [settle, one k]) \<Longrightarrow> trace s t (pre @ [settle])"
  "\<not> is_recording k \<Longrightarrow> trace s t (pre @ [one k, settle]) \<Longrightarrow> trace s t (pre @ [settle])"
  "trace s t pre \<Longrightarrow> trace s t (pre @ [settle])"
  using trace_merge [of s t pre "[settle, one k]" "[]" "\<lambda>k. \<not> is_recording k"]
    trace_merge [of s t pre "[one k, settle]" "[]" "\<lambda>k. \<not> is_recording k"]
    trace_merge [of s t pre "[]" "[]" "\<lambda>k. \<not> is_recording k"]
  by simp_all

lemma init_teardown_trace:
  "wp (init_Delete_teardown x c p n) (\<lambda>r s'. trace s s' [stop_trace c (init_Name p), one (KillUnit c (init_Name p) 9),
       one (RuncDelete c (c_runc (ip_conf p)) (c_id (ip_conf p)) True), settle]) s" (is "wp _ (\<lambda>r s'. trace s s' ?Ts) s")
proof -
  have leaf: "trace s t (([] @ [a] @ [b]) @ [d]) \<Longrightarrow> trace s t [a, b, d, settle]" for t a b d
    using trace_settle(3) [of s t "[a, b, d]"] by simp
  show ?thesis
    unfolding init_Delete_teardown_def
    by ((rule wp_intros | rule tr_stop, rule trace_refl | rule tr_rules, assumption
         | rule tr_only [OF only_init_finish], assumption | (simp; fail) | (simp add: leaf; fail))+)
qed

lemma exec_teardown_trace:
  "wp (exec_Delete_teardown x c e n) (\<lambda>r s'. trace s s' [stop_trace c (exec_Name e),
       one (KillUnitWithTarget c (exec_Name e) KillMain 9), settle]) s"
proof -
  have leaf: "trace s t [a, b, one (KillUnitWithTarget c n w g), settle] \<Longrightarrow> trace s t [a, b, settle]" for t a b n w g
    using trace_settle(2) [of "KillUnitWithTarget c n w g" s t "[a, b]"] by simp
  show ?thesis
    unfolding exec_Delete_teardown_def
    by ((rule wp_intros | rule tr_stop, rule trace_refl | rule tr_rules, assumption
         | rule tr_only [OF only_exec_finish], assumption | (simp; fail) | (simp, erule leaf))+)
qed

lemma releaseUnit_trace:
  "wp (releaseUnit x c conf name) (\<lambda>_ s'. trace s s' [perhaps (c_pinned conf) (UnrefUnit c name)]) s"
  by (auto simp: releaseUnit_def wp_simps callE_def trace_def perhaps_def split: prod.splits)

lemmas tr_release = wp_trace [OF releaseUnit_trace]

text \<open>A refusal has looked at the unit's properties and done nothing else.\<close>

lemma exit_from_unit_trace: "wp (exit_from_unit x c name) (\<lambda>_ s'. trace s s' [one (GetAllProperties c name)]) s"
  unfolding exit_from_unit_def
  by (rule wp_intros, rule tr_rules, rule trace_refl, ((rule wp_intros | rule tr_rules, assumption | simp)+))

lemma init_check_result:
  "wp (init_Delete_check x c p) (\<lambda>r t. r = None \<and> trace s t [many is_recording]
     \<or> r = Some ErrFailedPrecondition \<and> trace s t [one (GetAllProperties c (init_Name p))]) s"
proof -
  have silent: "trace s t [] \<Longrightarrow> trace s t [many is_recording]"
    and looked: "trace s t [one (GetAllProperties c (init_Name p))] \<Longrightarrow> trace s t [many is_recording]"
    and recorded: "trace s t [one (GetAllProperties c (init_Name p)), many is_recording] \<Longrightarrow> trace s t [many is_recording]" for t
    using trace_merge [of s t "[]" "[]" "[]" is_recording]
      trace_merge [of s t "[]" "[one (GetAllProperties c (init_Name p))]" "[]" is_recording]
      trace_merge [of s t "[]" "[one (GetAllProperties c (init_Name p)), many is_recording]" "[]" is_recording]
    by simp_all
  show ?thesis
    unfolding init_Delete_check_def
    by (rule wp_intros, rule tr_rules, rule trace_refl,
        (rule wp_intros | rule wp_trace [OF exit_from_unit_trace], assumption | rule tr_only [OF only_SetState(4)], assumption
         | (simp add: silent looked recorded; fail))+)
qed


lemma calm_delete_run:
  "fst (run_state (init_Delete calm_env ReqCtx demo_init 1) (demo_shim exited_process (blank_process ''ns'')))
     = Some (Inr exit_obs)"
  by code_simp


text \<open>
  C29: deleting an exec. Either it is refused, because the exec and its container are both still running,
  without any call at all; or its unit is stopped, then killed, and whichever way the
  delete returns its last call hands back the unit's reference on a context that cannot be cancelled.
\<close>

theorem exec_delete_releases:
  assumes "run_state (exec_Delete x c e n) s = (Some ret, s')"
  shows "(ret = Inl ErrFailedPrecondition \<and> sh_calls s' = sh_calls s)
       \<or> trace s s' [stop_trace c (exec_Name e), one (KillUnitWithTarget c (exec_Name e) KillMain 9), settle,
            perhaps (c_pinned (ep_conf e)) (UnrefUnit CleanupCtx (exec_Name e))]"
proof -
  have quiet: "trace s t [] \<longleftrightarrow> sh_calls t = sh_calls s" for t by (simp add: trace_def)
  have "wp (exec_Delete x c e n) (\<lambda>r s'. \<forall>ret. r = Some ret \<longrightarrow>
          (ret = Inl ErrFailedPrecondition \<and> trace s s' [])
          \<or> trace s s' [stop_trace c (exec_Name e), one (KillUnitWithTarget c (exec_Name e) KillMain 9), settle,
              perhaps (c_pinned (ep_conf e)) (UnrefUnit CleanupCtx (exec_Name e))]) s"
    unfolding exec_Delete_def
    by (rule wp_intros, rule tr_rules, rule trace_refl,
        (rule wp_intros | (rule wp_trace [OF exec_teardown_trace] | rule tr_release | rule tr_rules), assumption
         | (simp add: cleanupContext_def; fail))+)
  from wpD [OF this assms] show ?thesis by (simp add: quiet)
qed

lemma calm_exec_delete_run:
  "fst (run_state (exec_Delete calm_env ReqCtx demo_exec 1) (demo_shim exited_process exited_process)) = Some (Inr exit_obs)"
  by code_simp

theorem exec_delete_releases_witness:
  "\<exists>s'. trace (demo_shim exited_process exited_process) s'
     [stop_trace ReqCtx (exec_Name demo_exec), one (KillUnitWithTarget ReqCtx (exec_Name demo_exec) KillMain 9), settle,
      perhaps (c_pinned (ep_conf demo_exec)) (UnrefUnit CleanupCtx (exec_Name demo_exec))]"
proof -
  obtain s' where "run_state (exec_Delete calm_env ReqCtx demo_exec 1) (demo_shim exited_process exited_process)
      = (Some (Inr exit_obs), s')"
    using calm_exec_delete_run by (metis prod.collapse)
  from exec_delete_releases [OF this] show ?thesis by auto
qed

subsection \<open>The state a delete leaves\<close>

text \<open>A predicate that lifecycle-respecting steps keep.\<close>

definition stable :: "('w shim \<Rightarrow> bool) \<Rightarrow> bool" where
  "stable P \<longleftrightarrow> (\<forall>s t. lifecycle_le s t \<longrightarrow> P s \<longrightarrow> P t)"

lemma stable_wp:
  assumes "stable P" "guar lifecycle_le m" "P s"
  shows "wp m (\<lambda>_ s'. P s') s"
proof (rule wp_mono)
  show "wp m (\<lambda>_. lifecycle_le s) s" using assms(2) by (simp add: guar_wp)
  show "lifecycle_le s t \<Longrightarrow> P t" for t using assms(1,3) by (simp add: stable_def)
qed

definition gone :: "nat \<Rightarrow> 'w shim \<Rightarrow> bool" where
  "gone a s \<longleftrightarrow> a < sh_next s \<and> p_phase (sh_procs s a) = phaseDeleted"

definition marked :: "nat \<Rightarrow> 'w shim \<Rightarrow> bool" where
  "marked a s \<longleftrightarrow> a < sh_next s \<and> p_deleting (sh_procs s a)"

definition allocated :: "nat \<Rightarrow> 'w shim \<Rightarrow> bool" where
  "allocated a s \<longleftrightarrow> a < sh_next s"

lemma stables: "stable (gone a)" "stable (marked a)" "stable (allocated a)"
  by (auto simp: stable_def gone_def marked_def allocated_def lifecycle_le_def proc_le_def)

lemma allocated_interfere: "rely lifecycle_le x \<Longrightarrow> allocated a s \<Longrightarrow> allocated a (interfere x s)"
  by (auto simp: rely_def interfere_def allocated_def lifecycle_le_def intro: less_le_trans)

lemma locked_marks:
  "rely lifecycle_le x \<Longrightarrow> allocated a s \<Longrightarrow> wp (locked x a (\<lambda>pr. ((), markDeleting pr))) (\<lambda>_ s'. marked a s') s"
  using allocated_interfere [of x a s]
  by (simp add: locked_def wp_simps marked_def allocated_def markDeleting_def)

lemma locked_deletes:
  "rely lifecycle_le x \<Longrightarrow> allocated a s \<Longrightarrow> wp (locked x a (\<lambda>pr. advance pr phaseDeleted)) (\<lambda>_ s'. gone a s') s"
  using allocated_interfere [of x a s]
  by (auto simp: locked_def wp_simps gone_def allocated_def dest: advance_deleted split: prod.splits)

text \<open>Steps that carry stable facts along.\<close>

lemma st_step: "stable P \<Longrightarrow> guar lifecycle_le m \<Longrightarrow> P s \<Longrightarrow> (\<And>r s'. P s' \<Longrightarrow> Q r s') \<Longrightarrow> wp m Q s"
  by (rule wp_mono [OF stable_wp])

lemma init_finishDelete_gone:
  assumes x: "rely lifecycle_le x" and a: "allocated (ip_addr p) s"
  shows "wp (init_finishDelete x p) (\<lambda>_ s'. gone (ip_addr p) s') s"
  unfolding init_finishDelete_def wp_bind
proof (rule wp_mono [OF locked_deletes [OF x a]])
  fix r :: "invalidTransitionError + bool" and t :: "'a shim"
  assume g: "gone (ip_addr p) t"
  show "wp (if r = Inr True
        then reading x (ip_addr p) ProcessState \<bind>
          (\<lambda>st. events_Send x (ip_addr p) (TaskDelete (c_id (ip_conf p)) (Pid st) (ExitCode st) (ExitedAt st)))
        else return_go ()) (\<lambda>_. gone (ip_addr p)) t"
    by (rule stable_wp [OF stables(1) _ g]) (intro lo_rules; simp add: x)
qed

lemma init_finish_gone:
  assumes x: "rely lifecycle_le x" and a: "allocated (ip_addr p) s"
  shows "wp (init_Delete_finish x c p n) (\<lambda>r s'. \<forall>ps. r = Some (Inr ps) \<longrightarrow> gone (ip_addr p) s') s"
proof -
  note al = st_step [OF stables(3), of _ "ip_addr p"]
  show ?thesis
    unfolding init_Delete_finish_def
    by (rule wp_intros, rule wp_intros, rule al [OF _ a], intro lo_rules x,
        (rule wp_intros
         | (rule wp_mono [OF init_finishDelete_gone [OF x]], assumption)
         | (rule st_step [OF stables(1) lo_closeTTYControl [OF x]], assumption)
         | (rule al, (intro lo_rules lo_tasks x), assumption) | (simp; fail))+)
qed

lemma init_teardown_gone:
  assumes x: "rely lifecycle_le x" and a: "allocated (ip_addr p) s"
  shows "wp (init_Delete_teardown x c p n) (\<lambda>r s'. \<forall>ps. r = Some (Inr ps) \<longrightarrow> gone (ip_addr p) s') s"
proof -
  note al = st_step [OF stables(3), of _ "ip_addr p"]
  show ?thesis
    unfolding init_Delete_teardown_def
    by (rule wp_intros, rule al [OF lo_stop_and_wait [OF x] a],
        (rule wp_intros | (rule init_finish_gone [OF x], assumption)
         | (rule al, (intro lo_rules x), assumption) | (simp; fail))+)
qed

lemma init_commit_final:
  assumes x: "rely lifecycle_le x" and a: "allocated (ip_addr p) s"
  shows "wp (init_Delete_commit x c p n)
           (\<lambda>r s'. marked (ip_addr p) s' \<and> (\<forall>ps. r = Some (Inr ps) \<longrightarrow> gone (ip_addr p) s')) s"
proof -
  let ?P = "\<lambda>r s'. marked (ip_addr p) s' \<and> (\<forall>ps. r = Some (Inr ps) \<longrightarrow> gone (ip_addr p) s')"
  have st: "stable (?P r)" for r :: "pState result option"
    using stables(1,2) [of "ip_addr p"] unfolding stable_def by blast
  have tear: "wp (init_Delete_teardown x c p n) ?P t" if m: "marked (ip_addr p) t" for t
  proof -
    from m have "allocated (ip_addr p) t" by (simp add: marked_def allocated_def)
    from wp_conj [OF stable_wp [OF stables(2) lo_init_Delete(2) [OF x] m] init_teardown_gone [OF x this]]
    show ?thesis .
  qed
  show ?thesis
    unfolding init_Delete_commit_def
    by (rule wp_intros, rule wp_mono [OF locked_marks [OF x a]], rule wp_intros, rule wp_mono [OF tear], assumption,
        (rule wp_intros | (rule st_step [OF st], (intro lo_rules lo_tasks x), assumption) | (simp; fail))+)
qed

text \<open>
  C19: what a delete leaves behind. As long as no goroutine undoes a deletion, a task whose delete
  succeeded is in the deleted phase and flagged as deleting; a delete that failed after it was
  admitted leaves the flag, so that a start racing it abandons its unit; and a delete that was
  refused has made a single call, the one that reads the unit's properties.
\<close>

theorem delete_final_state:
  assumes "rely lifecycle_le x" and "ip_addr p < sh_next s"
    and "run_state (init_Delete x c p n) s = (Some ret, s')"
  shows "(\<forall>ps. ret = Inr ps \<longrightarrow> p_phase (sh_procs s' (ip_addr p)) = phaseDeleted)
       \<and> (p_deleting (sh_procs s' (ip_addr p)) \<or> ret = Inl ErrFailedPrecondition \<and> trace s s' [one (GetAllProperties c (init_Name p))])"
proof -
  have a: "allocated (ip_addr p) s" using assms(2) by (simp add: allocated_def)
  let ?Q = "\<lambda>r s'. \<forall>ret. r = Some ret \<longrightarrow>
      ret = Inl ErrFailedPrecondition \<and> trace s s' [one (GetAllProperties c (init_Name p))]
      \<or> marked (ip_addr p) s' \<and> (\<forall>ps. ret = Inr ps \<longrightarrow> gone (ip_addr p) s')"
  have go: "wp (init_Delete_commit x c p n) ?Q t" if "allocated (ip_addr p) t" for t
    by (rule wp_mono [OF init_commit_final [OF assms(1) that]]) auto
  have "wp (init_Delete x c p n) ?Q s"
    unfolding init_Delete_def
    by (rule wp_bindI, rule wp_mono [OF wp_conj [OF init_check_result
            stable_wp [OF stables(3) lo_init_Delete(1) [OF assms(1)] a]]])
       (elim conjE disjE, simp only: option.case, erule go, simp add: wp_return)
  from wpD [OF this assms(3)] show ?thesis by (auto simp: marked_def gone_def)
qed

theorem delete_final_state_witness:
  "\<exists>s' :: unit shim. p_phase (sh_procs s' 0) = phaseDeleted \<and> snd (run_state (init_Delete calm_env ReqCtx demo_init 1)
      (demo_shim exited_process (blank_process ''ns''))) = s'"
proof -
  obtain s' where run: "run_state (init_Delete calm_env ReqCtx demo_init 1) (demo_shim exited_process (blank_process ''ns''))
      = (Some (Inr exit_obs), s')"
    using calm_delete_run by (metis prod.collapse)
  from delete_final_state [OF calm_rely _ run] run show ?thesis by (auto simp: demo_shim_def blank_init_def)
qed

end
