(* ===== verification/Start.thy ===== *)
theory Start
  imports Delete
begin

text \<open>
  Starting a task or an exec (\<open>start.go\<close>, and \<open>startUnit\<close> of \<open>create.go\<close>): the lifecycle claim, the unit,
  the wait for the pid, and what is undone when something fails or a delete comes in between.
  Text that is only added to an error in debug mode is not modelled; the files read for it are.
\<close>

subsection \<open>Starting the unit of a task\<close>

definition exited_immediately :: "u32 \<Rightarrow> err" where
  "exited_immediately code = ErrOther (''container exited immediately, code: '' @ show_nat (unat code))"

definition unitProps :: "'w env \<Rightarrow> init_ptr \<Rightarrow> ('w, property list) go" where
  "unitProps x p = atomic x (\<lambda>s. (i_unitProps (sh_inits s (ip_addr p)), s))"

text \<open>The closure \<open>do\<close> of \<open>startUnit\<close>: one attempt, with one retry of the start call itself.\<close>

definition startUnit_do :: "'w env \<Rightarrow> ctx \<Rightarrow> init_ptr \<Rightarrow> ('w, err option) go" where
  "startUnit_do x c p = do {
     let conf = ip_conf p;
     let uName = init_Name p;
     locked x (ip_addr p) (\<lambda>pr. ((), clearRecordedSystemdExitState pr));
     ignore (callE x (ResetFailedUnit c uName));
     props \<leftarrow> unitProps x p;
     e \<leftarrow> startTransientUnit x c conf uName ''replace'' props;
     e \<leftarrow> (if e = None then return_go None
       else do {
         ignore (callE x (RuncDelete c (c_runc conf) (c_id conf) True));
         ignore (callE x (ResetFailedUnit c uName));
         props \<leftarrow> unitProps x p;
         startTransientUnit x c conf uName ''replace'' props });
     case e of
       Some err \<Rightarrow> return_go (Some err)
     | None \<Rightarrow> do {
         st \<leftarrow> callJob x (JobResult c uName);
         case st of
           None \<Rightarrow> do { ignore (init_Kill x c p 9 True); return_go (Some ErrCanceled) }
         | Some status \<Rightarrow>
             if status \<noteq> ''done'' then return_go (Some (ErrOther (''error starting systemd unit: '' @ status)))
             else do {
               l \<leftarrow> init_LoadState x c p;
               case l of
                 Some err \<Rightarrow> return_go (Some err)
               | None \<Rightarrow> do {
                   ps \<leftarrow> reading x (ip_addr p) ProcessState;
                   return_go (if Exited ps then Some (exited_immediately (ExitCode ps)) else None) } } } }"

text \<open>The closure \<open>handlePid\<close>: at most ten looks for the pid.\<close>

fun pid_poll :: "'w env \<Rightarrow> ctx \<Rightarrow> init_ptr \<Rightarrow> nat \<Rightarrow> ('w, err option) go" where
  "pid_poll x c p 0 = return_go None"
| "pid_poll x c p (Suc k) = do {
     pid \<leftarrow> reading x (ip_addr p) process_Pid;
     ps \<leftarrow> reading x (ip_addr p) ProcessState;
     if pid = 0 \<and> \<not> Exited ps then do {
       done \<leftarrow> ctxDone x c;
       if done then return_go (Some ErrCanceled)
       else do { ignore (init_LoadState x c p); pid_poll x c p k } }
     else return_go None }"

definition handlePid :: "'w env \<Rightarrow> ctx \<Rightarrow> init_ptr \<Rightarrow> ('w, u32 result) go" where
  "handlePid x c p = do {
     ignore (init_LoadState x c p);
     check_go (pid_poll x c p 10) (do {
       pid \<leftarrow> reading x (ip_addr p) process_Pid;
       locked x (ip_addr p) (\<lambda>pr. ((), if Pid (p_state pr) = 0 then pr\<lparr>p_state := (p_state pr)\<lparr>Pid := pid\<rparr>\<rparr> else pr));
       ps \<leftarrow> reading x (ip_addr p) ProcessState;
       return_go (if Exited ps then Inl (exited_immediately (ExitCode ps)) else Inr pid) }) }"

definition startUnit :: "'w env \<Rightarrow> ctx \<Rightarrow> init_ptr \<Rightarrow> ('w, u32 result) go" where
  "startUnit x c p = do {
     let conf = ip_conf p;
     e \<leftarrow> startUnit_do x c p;
     case e of
       None \<Rightarrow> handlePid x c p
     | Some _ \<Rightarrow> do {
         h \<leftarrow> handlePid x c p;
         case h of
           Inr pid \<Rightarrow> return_go (Inr pid)
         | Inl _ \<Rightarrow> do {
             ignore (callE x (StopUnit c (init_Name p) ''replace''));
             j \<leftarrow> callJob x (JobResult c (init_Name p));
             case j of
               None \<Rightarrow> return_go (Inl ErrCanceled)
             | Some _ \<Rightarrow> do {
                 releaseUnit x c conf (init_Name p);
                 ignore (callE x (RuncDelete c (c_runc conf) (c_id conf) True));
                 e2 \<leftarrow> startUnit_do x c p;
                 case e2 of
                   None \<Rightarrow> handlePid x c p
                 | Some err \<Rightarrow> do {
                     when_go (rc_Debug (c_runc conf)) (do {
                       ignore (callS x (ReadFile (rc_Log (c_runc conf))));
                       ignore (callS x (ReadFile (path_Join [c_root conf, c_id conf @ ''-tty.log'']))) });
                     ignore (callE x (RuncDelete c (c_runc conf) (c_id conf) True));
                     return_go (Inl err) } } } } }"

subsection \<open>Starting a task\<close>

definition abandonStartedUnit :: "'w env \<Rightarrow> ctx \<Rightarrow> process_conf \<Rightarrow> string \<Rightarrow> ('w, unit) go" where
  "abandonStartedUnit x c conf name = do {
     stop_and_wait x (cleanupContext c) name;
     ignore (callE x (KillUnit (cleanupContext c) name 9));
     releaseUnit x (cleanupContext c) conf name;
     ignore (callE x (ResetFailedUnit (cleanupContext c) name)) }"

text \<open>The deferred check for a delete that came in while the unit was being started.\<close>

definition abandon_if_deleting :: "'w env \<Rightarrow> ctx \<Rightarrow> nat \<Rightarrow> process_conf \<Rightarrow> string \<Rightarrow> u32 result \<Rightarrow> ('w, u32 result) go" where
  "abandon_if_deleting x c a conf name r = do {
     del \<leftarrow> reading x a isDeleting;
     if \<not> del then return_go r
     else do {
       abandonStartedUnit x c conf name;
       return_go (case r of Inl e \<Rightarrow> Inl e | Inr _ \<Rightarrow> Inl ErrFailedPrecondition) } }"

text \<open>The tty handler's unit, when the process has a terminal; its name, for the deferred kill.\<close>

definition start_tty :: "'w env \<Rightarrow> ctx \<Rightarrow> bool \<Rightarrow> process_conf \<Rightarrow> ('w, string result) go \<Rightarrow> ('w, string option result) go" where
  "start_tty x c term conf sockPath =
     (if \<not> term then return_go (Inr None)
      else try_go sockPath (\<lambda>s. try_go (makePty x c conf s) (\<lambda>(u, _). return_go (Inr (Some u)))))"

definition kill_tty_on_error :: "'w env \<Rightarrow> ctx \<Rightarrow> string option \<Rightarrow> 'a result \<Rightarrow> ('w, unit) go" where
  "kill_tty_on_error x c u r = (case u of
     Some u \<Rightarrow> when_go (is_err r) (ignore (callE x (KillUnit (cleanupContext c) u 9)))
   | None \<Rightarrow> return_go ())"

definition has_terminal :: "process \<Rightarrow> bool" where
  "has_terminal pr \<longleftrightarrow> p_Terminal pr \<or> co_Terminal (p_opts pr)"

definition restore :: "'w env \<Rightarrow> ctx \<Rightarrow> init_ptr \<Rightarrow> ('w, u32 result) go" where
  "restore x c p = do {
     term \<leftarrow> reading x (ip_addr p) has_terminal;
     try_go (start_tty x c term (ip_conf p) (init_ttySockPath x p)) (\<lambda>u. do {
       r \<leftarrow> startUnit x c p;
       r \<leftarrow> abandon_if_deleting x c (ip_addr p) (ip_conf p) (init_Name p) r;
       kill_tty_on_error x c u r;
       return_go r }) }"

text \<open>What is left to do when \<open>runc start\<close> fails: the task must end up exited.\<close>

definition runc_start_failed :: "'w env \<Rightarrow> ctx \<Rightarrow> init_ptr \<Rightarrow> ('w, unit) go" where
  "runc_start_failed x c p = do {
     ignore (init_LoadState x c p);
     ps \<leftarrow> reading x (ip_addr p) ProcessState;
     when_go (\<not> Exited ps) (do {
       ignore (callE x (KillUnit c (init_Name p) 9));
       ignore (init_LoadState x c p);
       ps \<leftarrow> reading x (ip_addr p) ProcessState;
       when_go (\<not> Exited ps) (do {
         pid \<leftarrow> reading x (ip_addr p) process_Pid;
         t \<leftarrow> now x;
         ignore (init_SetState x c p \<lparr>ExitedAt = t, ExitCode = 255, Pid = pid, Status = ''failed''\<rparr>) }) });
     when_go (rc_Debug (c_runc (ip_conf p))) (do {
       ignore (callS x (ReadFile (path_Join [ip_Bundle p, ''config.json''])));
       ignore (callS x (ReadFile (rc_Log (c_runc (ip_conf p))))) }) }"

text \<open>
  The loop at the end of \<open>initProcess.Start\<close>, for \<open>n\<close> rounds; \<open>None\<close> says it is still looping. It polls the
  context and goes on either way.
\<close>

fun await_pid :: "'w env \<Rightarrow> ctx \<Rightarrow> init_ptr \<Rightarrow> nat \<Rightarrow> ('w, u32 result option) go" where
  "await_pid x c p 0 = return_go None"
| "await_pid x c p (Suc n) = do {
     pid \<leftarrow> reading x (ip_addr p) process_Pid;
     ps \<leftarrow> reading x (ip_addr p) ProcessState;
     if pid = 0 \<and> \<not> Exited ps then do {
       _ \<leftarrow> ctxDone x c;
       ignore (init_LoadState x c p);
       await_pid x c p n }
     else do {
       pid \<leftarrow> reading x (ip_addr p) process_Pid;
       return_go (Some (Inr pid)) } }"

definition init_Start_claimed :: "'w env \<Rightarrow> ctx \<Rightarrow> init_ptr \<Rightarrow> nat \<Rightarrow> ('w, u32 result option) go" where
  "init_Start_claimed x c p n =
     (if ip_checkpoint p \<noteq> '''' then do { r \<leftarrow> restore x c p; return_go (Some r) }
      else do {
        e \<leftarrow> callE x (RuncStart c (c_runc (ip_conf p)) (c_id (ip_conf p)));
        case e of
          Some err \<Rightarrow> do { runc_start_failed x c p; return_go (Some (Inl err)) }
        | None \<Rightarrow> await_pid x c p n })"

definition init_Start :: "'w env \<Rightarrow> ctx \<Rightarrow> init_ptr \<Rightarrow> nat \<Rightarrow> ('w, u32 result option) go" where
  "init_Start x c p n = do {
     b \<leftarrow> locked x (ip_addr p) beginStart;
     case b of
       Some e \<Rightarrow> return_go (Some (Inl (ite_Unwrap e)))
     | None \<Rightarrow> do {
         r \<leftarrow> init_Start_claimed x c p n;
         case r of
           None \<Rightarrow> return_go None
         | Some ret \<Rightarrow> do {
             when_go (is_err ret) (locked x (ip_addr p) (\<lambda>pr. ((), abortStart pr)));
             return_go (Some ret) } } }"

subsection \<open>Starting an exec\<close>

definition exec_startProperties :: "'w env \<Rightarrow> exec_ptr \<Rightarrow> ('w, property list result) go" where
  "exec_startProperties x p = do {
     pr \<leftarrow> reading x (ep_addr p) (\<lambda>pr. pr);
     if has_terminal pr
     then try_go (exec_ttySockPath x p) (\<lambda>s. return_go (Inr (exec_unit_properties p pr (Some s))))
     else return_go (Inr (exec_unit_properties p pr None)) }"

definition getPid :: "'w env \<Rightarrow> exec_ptr \<Rightarrow> ('w, u32 result) go" where
  "getPid x p = do {
     data \<leftarrow> callS x (ReadFile (exec_pidFile p));
     case data of
       Inl err \<Rightarrow> do {
         r \<leftarrow> exec_readExitState x p;
         return_go (case r of
           Inl _ \<Rightarrow> Inl err
         | Inr st \<Rightarrow> if Pid st > 0 \<and> (Status st = ''running'' \<or> Status st = ''exited'') then Inr (Pid st) else Inl err) }
     | Inr d \<Rightarrow> return_go (case ParseUint 32 (TrimSpace d) of
         None \<Rightarrow> Inl (ErrOther ''parse exec pid'')
       | Some i \<Rightarrow> if i = 0 then Inl (ErrOther ''exec pid file contains zero'') else Inr (of_nat i)) }"

definition exec_start_error :: err where
  "exec_start_error = ErrOther ''error starting exec process''"

text \<open>After the start job ended with a status other than done.\<close>

definition exec_job_failed :: "'w env \<Rightarrow> exec_ptr \<Rightarrow> ('w, err option) go" where
  "exec_job_failed x p = do {
     ignore (exec_LoadState x p);
     st \<leftarrow> reading x (ep_addr p) ProcessState;
     if \<not> Exited st then return_go None
     else do {
       st \<leftarrow> reading x (ep_addr p) ProcessState;
       if ExitCode st \<noteq> 255 then return_go None
       else do {
         when_go (rc_Debug (c_runc (ep_conf p))) (do {
           ignore (callS x (ReadFile (processFilePath p)));
           ignore (callS x (ReadFile (rc_Log (c_runc (ep_conf p))))) });
         return_go (Some exec_start_error) } } }"

text \<open>After the unit is up: the final look at the state, and the pid.\<close>

definition exec_collect_pid :: "'w env \<Rightarrow> exec_ptr \<Rightarrow> ('w, u32 result) go" where
  "exec_collect_pid x p = do {
     ignore (exec_LoadState x p);
     st \<leftarrow> reading x (ep_addr p) ProcessState;
     if Status st = exitedInit then do {
       when_go (rc_Debug (c_runc (ep_conf p))) (ignore (callS x (ReadFile (rc_Log (c_runc (ep_conf p))))));
       return_go (Inl exec_start_error) }
     else try_go (getPid x p) (\<lambda>pid. do {
       locked x (ep_addr p) (\<lambda>pr. ((), pr\<lparr>p_state := (p_state pr)\<lparr>Pid := pid\<rparr>\<rparr>));
       return_go (Inr pid) }) }"

definition exec_launch :: "'w env \<Rightarrow> ctx \<Rightarrow> exec_ptr \<Rightarrow> property list \<Rightarrow> ('w, u32 result) go" where
  "exec_launch x c p props = do {
     e \<leftarrow> startTransientUnit x c (ep_conf p) (exec_Name p) ''replace'' props;
     e \<leftarrow> (if e = None then return_go None
       else do {
         r \<leftarrow> callE x (ResetFailedUnit c (exec_Name p));
         if r \<noteq> None then return_go e
         else startTransientUnit x c (ep_conf p) (exec_Name p) ''replace'' props });
     case e of
       Some err \<Rightarrow> return_go (Inl err)
     | None \<Rightarrow> do {
         j \<leftarrow> callJob x (JobResult c (exec_Name p));
         failed \<leftarrow> (case j of
            None \<Rightarrow> do { ignore (callE x (KillUnit (cleanupContext c) (exec_Name p) 9)); return_go None }
          | Some status \<Rightarrow> if status \<noteq> ''done'' then exec_job_failed x p else return_go None);
         case failed of
           Some err \<Rightarrow> return_go (Inl err)
         | None \<Rightarrow> exec_collect_pid x p } }"

definition parent_started :: "'w env \<Rightarrow> ctx \<Rightarrow> exec_ptr \<Rightarrow> ('w, bool) go" where
  "parent_started x c p = do {
     ps \<leftarrow> reading x (ip_addr (ep_parent p)) ProcessState;
     if Started ps then return_go True
     else do {
       ignore (init_LoadState x c (ep_parent p));
       ps \<leftarrow> reading x (ip_addr (ep_parent p)) ProcessState;
       return_go (Started ps) } }"

definition exec_Start_claimed :: "'w env \<Rightarrow> ctx \<Rightarrow> exec_ptr \<Rightarrow> ('w, u32 result) go" where
  "exec_Start_claimed x c p = do {
     ok \<leftarrow> parent_started x c p;
     if \<not> ok then return_go (Inl ErrFailedPrecondition)
     else do {
       term \<leftarrow> reading x (ep_addr p) has_terminal;
       try_go (start_tty x c term (ep_conf p) (exec_ttySockPath x p)) (\<lambda>u. do {
         props \<leftarrow> exec_startProperties x p;
         r \<leftarrow> (case props of
            Inl e \<Rightarrow> return_go (Inl e)
          | Inr props \<Rightarrow> do {
              locked x (ep_addr p) (\<lambda>pr. ((), clearRecordedSystemdExitState pr));
              r \<leftarrow> exec_launch x c p props;
              abandon_if_deleting x c (ep_addr p) (ep_conf p) (exec_Name p) r });
         kill_tty_on_error x c u r;
         return_go r }) } }"

definition exec_Start :: "'w env \<Rightarrow> ctx \<Rightarrow> exec_ptr \<Rightarrow> ('w, u32 result) go" where
  "exec_Start x c p = do {
     b \<leftarrow> locked x (ep_addr p) beginStart;
     case b of
       Some e \<Rightarrow> return_go (Inl (ite_Unwrap e))
     | None \<Rightarrow> do {
         ret \<leftarrow> exec_Start_claimed x c p;
         when_go (is_err ret) (locked x (ep_addr p) (\<lambda>pr. ((), abortStart pr)));
         return_go ret } }"

subsection \<open>The handler\<close>

definition Service_Start ::
  "'w env \<Rightarrow> ctx \<Rightarrow> string result \<Rightarrow> string \<Rightarrow> string \<Rightarrow> nat \<Rightarrow> ('w, u32 result option) go" where
  "Service_Start x c ns_req ID ExecID n = (case ns_req of
     Inl e \<Rightarrow> return_go (Some (Inl e))
   | Inr ns \<Rightarrow> do {
       q \<leftarrow> processes_Get x ns ID;
       case q of
         None \<Rightarrow> return_go (Some (Inl ErrNotFound))
       | Some p \<Rightarrow>
           if ExecID \<noteq> '''' then do {
             ep \<leftarrow> execs_Get x p ExecID;
             case ep of
               None \<Rightarrow> return_go (Some (Inl ErrNotFound))
             | Some e \<Rightarrow> do {
                 r \<leftarrow> exec_Start x c e;
                 case r of
                   Inl err \<Rightarrow> do { units_Delete x (ExecP e); return_go (Some (Inl err)) }
                 | Inr pid \<Rightarrow> do { exec_finishStart x e pid; return_go (Some (Inr pid)) } } }
           else do {
             r \<leftarrow> init_Start x c p n;
             case r of
               None \<Rightarrow> return_go None
             | Some ret \<Rightarrow> (case ret of
                 Inl err \<Rightarrow> return_go (Some (Inl err))
               | Inr pid \<Rightarrow> do { init_finishStart x c p pid; return_go (Some (Inr pid)) }) } })"

subsection \<open>What the operations never undo\<close>

lemma lo_startUnit_do: "rely lifecycle_le x \<Longrightarrow> guar lifecycle_le (startUnit_do x c p)"
  unfolding startUnit_do_def unitProps_def by (intro lo_rules lo_tasks; simp)

lemma lo_pid_poll: "rely lifecycle_le x \<Longrightarrow> guar lifecycle_le (pid_poll x c p k)"
proof (induction k)
  case 0
  show ?case by (simp add: lo.guar_return)
next
  case (Suc k)
  then show ?case unfolding pid_poll.simps by (intro lo_rules lo_tasks; simp)
qed

lemma lo_handlePid: "rely lifecycle_le x \<Longrightarrow> guar lifecycle_le (handlePid x c p)"
  unfolding handlePid_def by (intro lo_rules lo_tasks lo_pid_poll; simp)

lemma lo_startUnit: "rely lifecycle_le x \<Longrightarrow> guar lifecycle_le (startUnit x c p)"
  unfolding startUnit_def by (intro lo_rules lo_tasks lo_startUnit_do lo_handlePid; simp)

lemma lo_abandon:
  assumes x: "rely lifecycle_le x"
  shows "guar lifecycle_le (abandonStartedUnit x c conf n)" "guar lifecycle_le (abandon_if_deleting x c a conf n r)"
proof -
  show 1: "guar lifecycle_le (abandonStartedUnit x c conf n)"
    unfolding abandonStartedUnit_def by (intro lo_rules lo_tasks lo_stop_and_wait; simp add: x)
  show "guar lifecycle_le (abandon_if_deleting x c a conf n r)"
    unfolding abandon_if_deleting_def by (intro lo_rules 1; simp add: x)
qed

lemma lo_start_tty:
  "rely lifecycle_le x \<Longrightarrow> guar lifecycle_le m \<Longrightarrow> guar lifecycle_le (start_tty x c t conf m)"
  "rely lifecycle_le x \<Longrightarrow> guar lifecycle_le (kill_tty_on_error x c u r)"
  unfolding start_tty_def kill_tty_on_error_def by (intro lo_rules lo_tty; simp)+

lemma lo_restore: "rely lifecycle_le x \<Longrightarrow> guar lifecycle_le (restore x c p)"
  unfolding restore_def by (intro lo_rules lo_start_tty lo_tty lo_startUnit lo_abandon; simp)

lemma lo_await_pid: "rely lifecycle_le x \<Longrightarrow> guar lifecycle_le (await_pid x c p n)"
proof (induction n)
  case 0
  show ?case by (simp add: lo.guar_return)
next
  case (Suc n)
  then show ?case unfolding await_pid.simps by (intro lo_rules lo_tasks; simp)
qed

lemma lo_runc_start_failed: "rely lifecycle_le x \<Longrightarrow> guar lifecycle_le (runc_start_failed x c p)"
  unfolding runc_start_failed_def by (intro lo_rules lo_tasks; simp)

lemma lo_init_Start: "rely lifecycle_le x \<Longrightarrow> guar lifecycle_le (init_Start x c p n)"
  unfolding init_Start_def init_Start_claimed_def
  by (intro lo_rules lo_restore lo_await_pid lo_runc_start_failed; simp)

lemma lo_exec_parts:
  assumes x: "rely lifecycle_le x"
  shows "guar lifecycle_le (exec_startProperties x e)" "guar lifecycle_le (getPid x e)"
    "guar lifecycle_le (exec_job_failed x e)" "guar lifecycle_le (exec_collect_pid x e)"
    "guar lifecycle_le (exec_launch x c e props)" "guar lifecycle_le (parent_started x c e)"
proof -
  show "guar lifecycle_le (exec_startProperties x e)"
    unfolding exec_startProperties_def by (intro lo_rules lo_tty; simp add: x)
  show 1: "guar lifecycle_le (getPid x e)"
    unfolding getPid_def by (intro lo_rules lo_tasks; simp add: x)
  show 2: "guar lifecycle_le (exec_job_failed x e)"
    unfolding exec_job_failed_def by (intro lo_rules lo_tasks; simp add: x)
  show 3: "guar lifecycle_le (exec_collect_pid x e)"
    unfolding exec_collect_pid_def by (intro lo_rules lo_tasks 1; simp add: x)
  show "guar lifecycle_le (exec_launch x c e props)"
    unfolding exec_launch_def by (intro lo_rules lo_tasks 2 3; simp add: x)
  show "guar lifecycle_le (parent_started x c e)"
    unfolding parent_started_def by (intro lo_rules lo_tasks; simp add: x)
qed

lemma lo_exec_Start_claimed: "rely lifecycle_le x \<Longrightarrow> guar lifecycle_le (exec_Start_claimed x c e)"
  unfolding exec_Start_claimed_def by (intro lo_rules lo_exec_parts lo_start_tty lo_tty lo_abandon; simp)

lemma lo_exec_Start: "rely lifecycle_le x \<Longrightarrow> guar lifecycle_le (exec_Start x c e)"
  unfolding exec_Start_def by (intro lo_rules lo_exec_Start_claimed; simp)

lemma lo_Service_Start: "rely lifecycle_le x \<Longrightarrow> guar lifecycle_le (Service_Start x c ns i e n)"
  unfolding Service_Start_def by (intro lo_rules lo_tables lo_init_Start lo_exec_Start lo_tasks; simp)

subsection \<open>Claims are handed back\<close>

lemma abort_unclaims:
  "wp (locked x a (\<lambda>pr. ((), abortStart pr))) (\<lambda>_ s'. p_phase (sh_procs s' a) \<noteq> phaseStarting) s"
  by (simp add: locked_def wp_simps abortStart_def advance_phase)

lemma begin_refused:
  "wp (locked x a beginStart) (\<lambda>b s'. sh_calls s' = sh_calls s \<and> (b \<noteq> None \<longrightarrow> ite_Unwrap (the b) = ErrFailedPrecondition)) s"
  by (auto simp: locked_def wp_simps ite_Unwrap_def split: prod.splits)

text \<open>
  C20: a start that fails hands its claim back. A start of a task or of an exec that returns an error either was
  refused by the lifecycle, with a failed precondition and before any call to runc, systemd or
  the file system; or it has given up the claim, so that the process is not left in the starting
  phase in which no later start could be admitted.
\<close>

theorem failed_start_unclaims:
  "(run_state (init_Start x c p n) s = (Some (Inl e), s') \<longrightarrow>
      (e = ErrFailedPrecondition \<and> sh_calls s' = sh_calls s) \<or> p_phase (sh_procs s' (ip_addr p)) \<noteq> phaseStarting)
   \<and> (run_state (exec_Start x c q) s = (Inl e', s'') \<longrightarrow>
      (e' = ErrFailedPrecondition \<and> sh_calls s'' = sh_calls s) \<or> p_phase (sh_procs s'' (ep_addr q)) \<noteq> phaseStarting)"
proof -
  have "wp (init_Start x c p n) (\<lambda>r s'. \<forall>e. r = Some (Inl e) \<longrightarrow>
      (e = ErrFailedPrecondition \<and> sh_calls s' = sh_calls s) \<or> p_phase (sh_procs s' (ip_addr p)) \<noteq> phaseStarting) s"
    unfolding init_Start_def
    by (rule wp_intros, rule wp_mono [OF begin_refused], (rule wp_intros | rule wp_mono [OF abort_unclaims]
        | rule wp_mono [OF wp_True [of "init_Start_claimed x c p n"]] | (force; fail))+)
  moreover have "wp (exec_Start x c q) (\<lambda>r s'. \<forall>e. r = Inl e \<longrightarrow>
      (e = ErrFailedPrecondition \<and> sh_calls s' = sh_calls s) \<or> p_phase (sh_procs s' (ep_addr q)) \<noteq> phaseStarting) s"
    unfolding exec_Start_def
    by (rule wp_intros, rule wp_mono [OF begin_refused], (rule wp_intros | rule wp_mono [OF abort_unclaims]
        | rule wp_mono [OF wp_True [of "exec_Start_claimed x c q"]] | (force; fail))+)
  ultimately show ?thesis by (auto dest: wpD)
qed

text \<open>
  A concrete failure: every call succeeds but the exec never writes its pid file, so its start fails after the
  unit was started.
\<close>

abbreviation running_process :: process where
  "running_process \<equiv> (blank_process ''ns'')\<lparr>p_phase := phaseRunning,
     p_state := \<lparr>ExitedAt = go_zero_time, ExitCode = 0, Pid = 7, Status = ''running''\<rparr>\<rparr>"

lemma calm_exec_start:
  "fst (run_state (exec_Start calm_env ReqCtx demo_exec) (demo_shim running_process (blank_process ''ns''))) = Inl ErrNotExist"
  by (simp add: exec_Start_def exec_Start_claimed_def parent_started_def start_tty_def exec_startProperties_def
      exec_launch_def startTransientUnit_def exec_collect_pid_def exec_LoadState_def exec_readExitState_def
      readExitState_def getPid_def abandon_if_deleting_def kill_tty_on_error_def try_go_def ignore_def when_go_def
      calm_runs beginStart_def advance_def advanceLocked_def has_terminal_def Started_def ProcessState_def
      CopyTo_zero exitedInit_def isDeleting_def clearRecordedSystemdExitState_def)

theorem failed_start_unclaims_witness:
  "p_phase (sh_procs (snd (run_state (exec_Start calm_env ReqCtx demo_exec)
      (demo_shim running_process (blank_process ''ns'')))) 1) \<noteq> phaseStarting"
proof -
  let ?s = "demo_shim running_process (blank_process ''ns'')"
  obtain s' where run: "run_state (exec_Start calm_env ReqCtx demo_exec) ?s = (Inl ErrNotExist, s')"
    using calm_exec_start by (metis prod.collapse)
  from run failed_start_unclaims [of calm_env ReqCtx demo_init 0 ?s ErrNotFound s' demo_exec ErrNotExist s']
  show ?thesis by simp
qed

subsection \<open>A start that races a delete\<close>

fun starts :: "string \<Rightarrow> call \<Rightarrow> bool" where
  "starts n (StartTransientUnit _ _ n' _ _) = (n = n')"
| "starts n _ = False"

lemma tty_name_differs: "unitName a b ''tty'' \<noteq> unitName c d ''exec''"
proof
  assume "unitName a b ''tty'' = unitName c d ''exec''"
  then have "rev (unitName a b ''tty'') = rev (unitName c d ''exec'')" by simp
  then show False by (simp add: unitName_def)
qed

lemma only_obs_no_start: "only is_recording m \<Longrightarrow> only (\<lambda>k. \<not> starts n k) m"
  by (erule only_mono) (auto elim: is_recording.elims)

lemma only_no_start:
  "only (\<lambda>k. \<not> starts n k) (parent_started x c e)" "only (\<lambda>k. \<not> starts n k) (exec_startProperties x e)"
  "only (\<lambda>k. \<not> starts n k) (kill_tty_on_error x c u r)"
proof -
  show "only (\<lambda>k. \<not> starts n k) (parent_started x c e)"
    unfolding parent_started_def by (intro only_rules only_obs_no_start)
  show "only (\<lambda>k. \<not> starts n k) (exec_startProperties x e)"
    unfolding exec_startProperties_def exec_ttySockPath_def ttySockPath_def by (intro only_rules; simp)
  show "only (\<lambda>k. \<not> starts n k) (kill_tty_on_error x c u r)"
    unfolding kill_tty_on_error_def by (intro only_rules; simp)
qed

lemma only_start_tty:
  "only (\<lambda>k. \<not> starts (exec_Name e) k) (start_tty x c t (ep_conf e) (exec_ttySockPath x e))"
  unfolding start_tty_def makePty_def makePty_unit_def exec_ttySockPath_def ttySockPath_def Let_def
  by (intro only_rules; simp add: exec_Name_def ttyUnitName_def tty_name_differs [THEN not_sym])

lemma abandon_trace:
  "wp (abandonStartedUnit x c conf n) (\<lambda>_ s'. trace s s' [anything, perhaps (c_pinned conf) (UnrefUnit CleanupCtx n),
     many (\<lambda>k. \<not> starts n k)]) s"
proof -
  have leaf: "trace s t [anything, perhaps (c_pinned conf) (UnrefUnit CleanupCtx n), many (\<lambda>k. \<not> starts n k)]"
    if "trace s t [stop_trace CleanupCtx n, one (KillUnit CleanupCtx n 9), perhaps (c_pinned conf) (UnrefUnit CleanupCtx n),
          one (ResetFailedUnit CleanupCtx n)]" for t
    using trace_mono [OF trace_group [of s t "[]" "[stop_trace CleanupCtx n, one (KillUnit CleanupCtx n 9)]"
          "[perhaps (c_pinned conf) (UnrefUnit CleanupCtx n), one (ResetFailedUnit CleanupCtx n)]" anything]] that
    by simp
  show ?thesis
    unfolding abandonStartedUnit_def cleanupContext_def
    by ((rule wp_intros | rule tr_stop, rule trace_refl | rule tr_release, assumption | rule tr_rules, assumption
         | (rule leaf, simp; fail))+)
qed

lemma abandon_marked:
  assumes x: "rely lifecycle_le x" and m: "marked a s"
  shows "wp (abandon_if_deleting x c a conf n r) (\<lambda>r' s'. is_err r' \<and> trace s s' [anything,
     perhaps (c_pinned conf) (UnrefUnit CleanupCtx n), many (\<lambda>k. \<not> starts n k)]) s"
proof -
  have read: "wp (reading x a isDeleting) (\<lambda>d s'. d \<and> sh_calls s' = sh_calls s) s"
    using m x by (auto simp: reading_def wp_simps marked_def isDeleting_def rely_def interfere_def lifecycle_le_def proc_le_def)
  have same: "trace t u Ts \<Longrightarrow> sh_calls t = sh_calls s \<Longrightarrow> trace s u Ts" for t u Ts
    by (simp add: trace_def)
  show ?thesis
    unfolding abandon_if_deleting_def
    by (rule wp_intros, rule wp_mono [OF read], (rule wp_intros | rule wp_mono [OF abandon_trace]
        | (force split: sum.splits intro: same; fail))+)
qed

text \<open>Symbolic execution that carries the deleting flag and a trace without a start of the unit.\<close>

lemma unstarted_step:
  assumes "only (\<lambda>k. \<not> starts n k) m" "guar lifecycle_le m"
    and "marked a s \<and> trace s0 s [many (\<lambda>k. \<not> starts n k)]"
    and "\<And>r s'. marked a s' \<and> trace s0 s' [many (\<lambda>k. \<not> starts n k)] \<Longrightarrow> Q r s'"
  shows "wp m Q s"
proof -
  have "wp m (\<lambda>_ s'. trace s0 s' ([] @ [many (\<lambda>k. \<not> starts n k)])) s"
    by (rule tr_many [OF assms(1), of s0 s "[]"]) (use assms(3) in simp_all)
  with stable_wp [OF stables(2) assms(2), of a s] assms(3) have "wp m (\<lambda>_ s'. marked a s' \<and> trace s0 s' [many (\<lambda>k. \<not> starts n k)]) s"
    by (auto intro: wp_mono [OF wp_conj])
  then show ?thesis by (rule wp_mono) (rule assms(4))
qed

definition abandoned :: "process_conf \<Rightarrow> string \<Rightarrow> 'w shim \<Rightarrow> 'w shim \<Rightarrow> bool" where
  "abandoned conf n s s' \<longleftrightarrow> trace s s' [many (\<lambda>k. \<not> starts n k)]
     \<or> trace s s' [anything, perhaps (c_pinned conf) (UnrefUnit CleanupCtx n), many (\<lambda>k. \<not> starts n k)]"

lemma abandoned_more:
  assumes "only (\<lambda>k. \<not> starts n k) m" and "abandoned conf n s0 s"
  shows "wp m (\<lambda>_ s'. abandoned conf n s0 s') s"
  using assms(2) unfolding abandoned_def
proof
  assume "trace s0 s [many (\<lambda>k. \<not> starts n k)]"
  then show "wp m (\<lambda>_ s'. trace s0 s' [many (\<lambda>k. \<not> starts n k)]
     \<or> trace s0 s' [anything, perhaps (c_pinned conf) (UnrefUnit CleanupCtx n), many (\<lambda>k. \<not> starts n k)]) s"
    by (intro tr_many [OF assms(1), of s0 s "[]"]) simp_all
next
  assume "trace s0 s [anything, perhaps (c_pinned conf) (UnrefUnit CleanupCtx n), many (\<lambda>k. \<not> starts n k)]"
  then show "wp m (\<lambda>_ s'. trace s0 s' [many (\<lambda>k. \<not> starts n k)]
     \<or> trace s0 s' [anything, perhaps (c_pinned conf) (UnrefUnit CleanupCtx n), many (\<lambda>k. \<not> starts n k)]) s"
    by (intro tr_many [OF assms(1), of s0 s "[anything, perhaps (c_pinned conf) (UnrefUnit CleanupCtx n)]"]) simp_all
qed

lemma case_sumI: "(\<And>y. r = Inl y \<Longrightarrow> P y s) \<Longrightarrow> (\<And>y. r = Inr y \<Longrightarrow> P' y s) \<Longrightarrow> (case r of Inl y \<Rightarrow> P y | Inr y \<Rightarrow> P' y) s"
  by (cases r) simp_all

lemma launch_then_abandon:
  assumes x: "rely lifecycle_le x" and m: "marked (ep_addr e) s"
  shows "wp (exec_launch x c e props \<bind> abandon_if_deleting x c (ep_addr e) (ep_conf e) (exec_Name e))
           (\<lambda>r s'. is_err r \<and> trace s s' [anything, perhaps (c_pinned (ep_conf e)) (UnrefUnit CleanupCtx (exec_Name e)),
                               many (\<lambda>k. \<not> starts (exec_Name e) k)]) s"
proof -
  have join: "trace s u [anything, P, M]" if "trace s t [anything]" "trace t u [anything, P, M]" for t u P M
    using trace_group [of s u "[]" "[anything, anything]" "[P, M]" anything] trace_trans [OF that] by simp
  have any: "wp (exec_launch x c e props) (\<lambda>_ s'. marked (ep_addr e) s' \<and> trace s s' [anything]) s"
  proof (rule wp_conj [OF stable_wp [OF stables(2) lo_exec_parts(5) [OF x] m]])
    have "only (\<lambda>_. True) (exec_launch x c e props)"
      unfolding exec_launch_def exec_job_failed_def exec_collect_pid_def getPid_def exec_readExitState_def
        readExitState_def startTransientUnit_def
      by (intro only_rules only_mono [OF only_SetState(2)]; simp)
    then show "wp (exec_launch x c e props) (\<lambda>_ s'. trace s s' [anything]) s"
      by (rule only_wpI) (auto intro: trace_piece)
  qed
  show ?thesis
    by (rule wp_bindI, rule wp_mono [OF any], elim conjE, rule wp_mono [OF abandon_marked [OF x]], assumption)
       (blast intro: join)
qed

lemma exec_claimed_marked:
  assumes x: "rely lifecycle_le x" and m: "marked (ep_addr e) s"
  shows "wp (exec_Start_claimed x c e) (\<lambda>r s'. is_err r \<and> abandoned (ep_conf e) (exec_Name e) s s') s"
proof -
  let ?n = "exec_Name e"
  have start: "marked (ep_addr e) s \<and> trace s s [many (\<lambda>k. \<not> starts ?n k)]"
    using m by (auto simp: trace_def)
  note us = unstarted_step [where n = ?n and a = "ep_addr e"]
  have fin: "wp (kill_tty_on_error x c u r) (\<lambda>_. wp (return_go r) (\<lambda>r s'. is_err r \<and> abandoned (ep_conf e) ?n s s')) t"
    if "is_err r \<and> abandoned (ep_conf e) ?n s t" for u and r :: "u32 result" and t
    by (rule wp_mono [OF abandoned_more [OF only_no_start(3)]]) (use that in \<open>auto simp: wp_return\<close>)
  have run: "wp (exec_launch x c e props \<bind> abandon_if_deleting x c (ep_addr e) (ep_conf e) ?n)
       (\<lambda>r s'. is_err r \<and> abandoned (ep_conf e) ?n s s') t"
    if "marked (ep_addr e) t \<and> trace s t [many (\<lambda>k. \<not> starts ?n k)]" for t props
  proof -
    have join: "trace s u [anything, P, M]" if "trace s t [many C]" "trace t u [anything, P, M]" for u P M C
      using trace_group [of s u "[]" "[many C, anything]" "[P, M]" anything] trace_trans [OF that] by simp
    show ?thesis
      by (rule wp_mono [OF launch_then_abandon [OF x]]) (use that join in \<open>auto simp: abandoned_def\<close>)
  qed
  show ?thesis
    unfolding exec_Start_claimed_def
    by (rule wp_intros, rule us [OF only_no_start(1) lo_exec_parts(6) [OF x] start],
        ((rule wp_mono [OF run], assumption) | rule wp_ifI | rule wp_bindI | rule wp_returnI | rule wp_try_goI
         | rule case_sumI | rule wp_sumI
         | (rule us, rule only_rules, (intro lo_rules x; simp), assumption)
         | (rule us [OF only_start_tty], (intro lo_start_tty lo_tty x), assumption)
         | (rule us [OF only_no_start(2) lo_exec_parts(1) [OF x]], assumption)
         | (rule fin, assumption) | (rule fin, simp add: abandoned_def)
         | (simp add: abandoned_def wp_return split: sum.splits; fail))+)
qed

text \<open>
  C6: a start that races a delete leaves nothing behind. Once a delete has flagged an exec, every start of
  it that is still under way fails; and if it has created the exec's unit, then after its
  last request to systemd to start that unit it hands back the unit's reference, on a context its
  caller cannot cancel. Together with the delete, which flags the exec before it stops the unit and
  hands back the reference, no interleaving strands a referenced unit.
\<close>

theorem start_racing_delete_abandons:
  assumes "rely lifecycle_le x" and "ep_addr e < sh_next s" and "p_deleting (sh_procs s (ep_addr e))"
    and "run_state (exec_Start x c e) s = (ret, s')"
  shows "is_err ret \<and> (trace s s' [many (\<lambda>k. \<not> starts (exec_Name e) k)]
       \<or> trace s s' [anything, perhaps (c_pinned (ep_conf e)) (UnrefUnit CleanupCtx (exec_Name e)),
                     many (\<lambda>k. \<not> starts (exec_Name e) k)])"
proof -
  have m: "marked (ep_addr e) s" using assms(2,3) by (simp add: marked_def)
  let ?J = "\<lambda>s'. marked (ep_addr e) s' \<and> trace s s' []"
  have claim: "wp (locked x (ep_addr e) beginStart) (\<lambda>_. ?J) s"
    by (rule wp_conj [OF stable_wp [OF stables(2) lo_locked [OF assms(1)] m] silent_trace]) (simp_all add: only_locked)
  have same: "abandoned conf n t u \<Longrightarrow> trace s t [] \<Longrightarrow> abandoned conf n s u" for conf n t u
    by (simp add: abandoned_def trace_def)
  have "wp (exec_Start x c e) (\<lambda>r s'. is_err r \<and> abandoned (ep_conf e) (exec_Name e) s s') s"
    unfolding exec_Start_def
    by (rule wp_intros, rule wp_mono [OF claim], elim conjE,
        (rule wp_intros | (rule wp_mono [OF exec_claimed_marked [OF assms(1)]], assumption)
         | (rule wp_mono [OF abandoned_more [OF only_locked]], blast intro: same)
         | (auto simp: abandoned_def trace_def; fail))+)
  from wpD [OF this assms(4)] show ?thesis by (simp add: abandoned_def)
qed

abbreviation deleting_process :: process where
  "deleting_process \<equiv> (blank_process ''ns'')\<lparr>p_deleting := True\<rparr>"

theorem start_racing_delete_abandons_witness:
  "is_err (fst (run_state (exec_Start calm_env ReqCtx demo_exec) (demo_shim running_process deleting_process)))"
proof -
  let ?m = "exec_Start calm_env ReqCtx demo_exec" and ?s = "demo_shim running_process deleting_process"
  obtain ret s' where run: "run_state ?m ?s = (ret, s')" by fastforce
  from start_racing_delete_abandons [OF calm_rely _ _ run] run show ?thesis by simp
qed

text \<open>
  A started exec has a pid: whatever the pid file and the state file contain, a start of an exec that
  succeeds returns a pid that is not zero.
\<close>

theorem exec_start_pid:
  assumes "run_state (exec_Start x c e) s = (Inr pid, s')"
  shows "pid \<noteq> 0"
proof -
  have nz: "of_nat i \<noteq> (0 :: u32)" if "ParseUint 32 d = Some i" "i \<noteq> 0" for i d
    using that by (auto simp: ParseUint_def word_of_nat_eq_0_iff dest: nat_dvd_not_less split: if_splits)
  have get: "wp (getPid x e) (\<lambda>r _. \<forall>pid. r = Inr pid \<longrightarrow> pid \<noteq> 0) t" for t
    unfolding getPid_def
    by ((rule wp_intros | rule wp_mono [OF wp_True] | (auto split: sum.splits option.splits if_splits dest: nz; fail))+)
  have collect: "wp (exec_collect_pid x e) (\<lambda>r _. \<forall>pid. r = Inr pid \<longrightarrow> pid \<noteq> 0) t" for t
    unfolding exec_collect_pid_def
    by ((rule wp_bindI | rule wp_ifI | rule wp_returnI | rule wp_ignoreI | rule wp_try_goI | rule wp_mono [OF get]
         | rule case_sumI | rule wp_mono [OF wp_True] | (simp; fail))+)
  have launch: "wp (exec_launch x c e props) (\<lambda>r _. \<forall>pid. r = Inr pid \<longrightarrow> pid \<noteq> 0) t" for t props
    unfolding exec_launch_def
    by ((rule wp_bindI | rule wp_ifI | rule wp_returnI | rule wp_optionI | rule collect
         | rule wp_mono [OF wp_True] | (simp; fail))+)
  have abandon: "wp (abandon_if_deleting x c (ep_addr e) (ep_conf e) (exec_Name e) r)
      (\<lambda>r _. \<forall>pid. r = Inr pid \<longrightarrow> pid \<noteq> 0) t" if "\<forall>pid. r = Inr pid \<longrightarrow> pid \<noteq> 0" for r t
    unfolding abandon_if_deleting_def
    by ((rule wp_intros | rule wp_mono [OF wp_True] | (use that in \<open>force split: sum.splits\<close>; fail))+)
  have claimed: "wp (exec_Start_claimed x c e) (\<lambda>r _. \<forall>pid. r = Inr pid \<longrightarrow> pid \<noteq> 0) t" for t
    unfolding exec_Start_claimed_def
    by ((rule wp_bindI | rule wp_ifI | rule wp_returnI | rule wp_sumI | rule wp_try_goI | rule case_sumI
         | rule wp_mono [OF launch] | (rule wp_mono [OF abandon], assumption) | rule wp_mono [OF wp_True] | (simp; fail))+)
  have "wp (exec_Start x c e) (\<lambda>r _. \<forall>pid. r = Inr pid \<longrightarrow> pid \<noteq> 0) s"
    unfolding exec_Start_def
    by ((rule wp_bindI | rule wp_optionI | rule wp_returnI | rule wp_mono [OF claimed] | rule wp_mono [OF wp_True]
         | (simp; fail))+)
  from wpD [OF this assms] show ?thesis by simp
qed

text \<open>An outside in which every file has the same content.\<close>

definition file_env :: "string \<Rightarrow> unit env" where
  "file_env content = calm_env\<lparr>e_str := (\<lambda>_ s. (Inr content, s))\<rparr>"

lemma file_env_runs:
  "run_state (callE (file_env d) k) s = (None, s\<lparr>sh_calls := sh_calls s @ [k]\<rparr>)"
  "run_state (callS (file_env d) k) s = (Inr d, s\<lparr>sh_calls := sh_calls s @ [k]\<rparr>)"
  "run_state (callJob (file_env d) k) s = (Some ''done'', s\<lparr>sh_calls := sh_calls s @ [k]\<rparr>)"
  "run_state (reading (file_env d) a f) s = (f (sh_procs s a), s)"
  "run_state (locked (file_env d) a g) s =
     (fst (g (sh_procs s a)), s\<lparr>sh_procs := (sh_procs s)(a := snd (g (sh_procs s a)))\<rparr>)"
  "e_json_state (file_env d) c = Inl ErrInvalidArgument"
  by (simp_all add: call_defs ext_def reading_def locked_def atomic_def interfere_def file_env_def split: prod.splits)
     (simp_all add: calm_env_def)

lemma parse_42: "ParseUint 32 (TrimSpace ''42'') = Some 42"
  by (simp add: TrimSpace_def TrimRight_def is_space_def ParseUint_def is_digit_def nat_of_digits_def digit_val_def)

theorem exec_start_pid_witness:
  "fst (run_state (exec_Start (file_env ''42'') ReqCtx demo_exec) (demo_shim running_process (blank_process ''ns''))) = Inr 42
   \<and> (42 :: u32) \<noteq> 0"
proof -
  let ?m = "exec_Start (file_env ''42'') ReqCtx demo_exec" and ?s = "demo_shim running_process (blank_process ''ns'')"
  have "fst (run_state ?m ?s) = Inr 42"
    by (simp add: exec_Start_def exec_Start_claimed_def parent_started_def start_tty_def exec_startProperties_def
        exec_launch_def startTransientUnit_def exec_collect_pid_def exec_LoadState_def exec_readExitState_def
        readExitState_def getPid_def abandon_if_deleting_def kill_tty_on_error_def try_go_def ignore_def when_go_def
        file_env_runs parse_42 beginStart_def advance_def advanceLocked_def has_terminal_def Started_def ProcessState_def
        CopyTo_zero exitedInit_def isDeleting_def clearRecordedSystemdExitState_def)
  then obtain s' where run: "run_state ?m ?s = (Inr 42, s')" by (metis prod.collapse)
  from exec_start_pid [OF run] run show ?thesis by simp
qed

end
