(* ===== verification/Create.thy ===== *)
theory Create
  imports Start
begin

text \<open>
  Creating a task and adding an exec to it (\<open>create.go\<close>): decoding the request, building the process and
  registering it, starting the unit that holds runc's init, and undoing everything when a step fails.
\<close>

subsection \<open>The service and its requests\<close>

text \<open>The fields of \<open>Service\<close> that do not change while it serves.\<close>

record service_conf =
  sv_root :: string
  sv_runcBin :: string
  sv_debug :: bool
  sv_noNewNamespace :: bool
  sv_exe :: string
  sv_pinned :: bool
  sv_defaultLogMode :: string

record CreateTaskRequest =
  cr_ID :: string
  cr_Bundle :: string
  cr_Rootfs :: "task_mount list"
  cr_Terminal :: bool
  cr_Stdin :: string
  cr_Stdout :: string
  cr_Stderr :: string
  cr_Checkpoint :: string
  cr_ParentCheckpoint :: string
  cr_Options :: "anypb option"

record ExecProcessRequest =
  er_ID :: string
  er_ExecID :: string
  er_Terminal :: bool
  er_Stdin :: string
  er_Stdout :: string
  er_Stderr :: string
  er_Spec :: anypb

definition legacyRuncOptionsTypeURL :: string where
  "legacyRuncOptionsTypeURL = ''containerd.linux.runc.CreateOptions''"

definition unmarshalCreateOptions :: "'w env \<Rightarrow> anypb \<Rightarrow> options_msg result" where
  "unmarshalCreateOptions x v =
     (if any_TypeUrl v = legacyRuncOptionsTypeURL
      then (case e_proto_runc_opts x (any_Value v) of Inl e \<Rightarrow> Inl e | Inr opts \<Rightarrow> Inr (RuncOptions opts))
      else e_typeurl x v)"

text \<open>The options of a request, on top of the zero value.\<close>

definition decode_options :: "'w env \<Rightarrow> anypb option \<Rightarrow> CreateOptions result" where
  "decode_options x opt = (case opt of
     None \<Rightarrow> Inr blank_options
   | Some v \<Rightarrow>
       if any_TypeUrl v = '''' then Inr blank_options
       else rbind (unmarshalCreateOptions x v) (\<lambda>m. Inr (case m of
         ShimOptions logMode sdNotify \<Rightarrow> blank_options\<lparr>co_LogMode := logMode, co_SdNotifyEnable := sdNotify\<rparr>
       | RuncOptions vv \<Rightarrow> blank_options\<lparr>co_NoPivotRoot := ro_NoPivotRoot vv, co_NoNewKeyring := ro_NoNewKeyring vv,
           co_IoUid := ro_IoUid vv, co_IoGid := ro_IoGid vv, co_BinaryName := ro_BinaryName vv, co_Root := ro_Root vv,
           co_SystemdCgroup := ro_SystemdCgroup vv, co_CriuImagePath := ro_CriuImagePath vv,
           co_CriuWorkPath := ro_CriuWorkPath vv, co_ShimCgroup := ro_ShimCgroup vv\<rparr>
       | _ \<Rightarrow> blank_options)))"

definition default_options :: "service_conf \<Rightarrow> CreateOptions \<Rightarrow> CreateOptions" where
  "default_options sv opts =
     (let opts = (if co_Root opts = '''' then opts\<lparr>co_Root := path_Join [sv_root sv, ''runc'']\<rparr> else opts)
      in if co_LogMode opts = '''' then opts\<lparr>co_LogMode := sv_defaultLogMode sv\<rparr> else opts)"

definition shouldKillAllOnExit :: "spec_info \<Rightarrow> bool" where
  "shouldKillAllOnExit spec =
     (\<not> (si_linux spec \<and> list_ex (\<lambda>(ty, path). ty = ''pid'' \<and> path = '''') (si_namespaces spec)))"

subsection \<open>Creating a task\<close>

definition writeMountConfig :: "'w env \<Rightarrow> init_ptr \<Rightarrow> ('w, err option) go" where
  "writeMountConfig x p = (case e_proto_mounts x (ip_Bundle p) (ip_Rootfs p) of
     Inl _ \<Rightarrow> return_go (Some (ErrOther ''error marshaling task create config''))
   | Inr data \<Rightarrow> callE x (WriteFile (mountConfigPath p) data))"

definition set_unitProps :: "'w env \<Rightarrow> init_ptr \<Rightarrow> property list \<Rightarrow> ('w, unit) go" where
  "set_unitProps x p props = atomic x (\<lambda>s. ((), s\<lparr>sh_inits := (sh_inits s)(ip_addr p :=
     (sh_inits s (ip_addr p))\<lparr>i_unitProps := props\<rparr>)\<rparr>))"

definition restore_command :: "init_ptr \<Rightarrow> process \<Rightarrow> string list" where
  "restore_command p pr =
     [''restore'', ''--image-path='' @ ip_checkpoint p, ''--work-path='' @ co_CriuWorkPath (p_opts pr),
      ''--bundle='' @ ip_Bundle p, ''--no-pivot='' @ FormatBool (co_NoPivotRoot (p_opts pr)), ''--no-subreaper'']"

definition restore_props :: "'w env \<Rightarrow> init_ptr \<Rightarrow> ('w, unit result) go" where
  "restore_props x p = do {
     pr \<leftarrow> reading x (ip_addr p) (\<lambda>pr. pr);
     try_go (if has_terminal pr
             then try_go (init_ttySockPath x p) (\<lambda>s. do {
               locked x (ip_addr p) (\<lambda>pr. ((), pr\<lparr>p_opts := (p_opts pr)\<lparr>co_ExternalUnixSockets := True\<rparr>\<rparr>));
               return_go (Inr (restore_command p pr @ [''--detach'', ''--console-socket='' @ s])) })
             else return_go (Inr (restore_command p pr))) (\<lambda>execStart. do {
       pr \<leftarrow> reading x (ip_addr p) (\<lambda>pr. pr);
       set_unitProps x p (init_startProperties p pr (execStart @ RestoreArgs (p_opts pr)));
       return_go (Inr ()) }) }"

text \<open>
  A spec without a process section makes \<open>createRestore\<close> dereference nil. A panic is no returned error: while it unwinds, the error the deferred functions of the
  callers look at is nil, so none of their clean-ups runs, and the call does not return. This is the result \<open>None\<close>.
\<close>

definition createRestore :: "'w env \<Rightarrow> init_ptr \<Rightarrow> ('w, unit result option) go" where
  "createRestore x p = do {
     locked x (ip_addr p) (\<lambda>pr. ((),
       if co_CriuWorkPath (p_opts pr) = ''''
       then pr\<lparr>p_opts := (p_opts pr)\<lparr>co_CriuWorkPath := path_Join [c_root (ip_conf p), ''criu-work'']\<rparr>\<rparr> else pr));
     d \<leftarrow> callS x (ReadFile (path_Join [ip_Bundle p, ''config.json'']));
     case d of
       Inl e \<Rightarrow> return_go (Some (Inl e))
     | Inr data \<Rightarrow> (case e_json_spec x data of
         Inl _ \<Rightarrow> return_go (Some (Inl (ErrOther ''error unmarshalling config.json'')))
       | Inr spec \<Rightarrow>
           if \<not> si_process spec then return_go None
           else do {
             locked x (ip_addr p) (\<lambda>pr. ((), pr\<lparr>p_Terminal := si_terminal spec\<rparr>));
             r \<leftarrow> restore_props x p;
             return_go (Some r) }) }"

definition create_command :: "init_ptr \<Rightarrow> process \<Rightarrow> string list" where
  "create_command p pr =
     [''create'', ''--bundle='' @ ip_Bundle p, ''--no-pivot='' @ FormatBool (co_NoPivotRoot (p_opts pr)),
      ''--no-new-keyring='' @ FormatBool (co_NoNewKeyring (p_opts pr)), ''--pid-file='' @ init_pidFile p]"

text \<open>The body of \<open>initProcess.Create\<close>; the kill of the tty unit is its inner deferred function.\<close>

definition create_unit :: "'w env \<Rightarrow> ctx \<Rightarrow> init_ptr \<Rightarrow> ('w, u32 result) go" where
  "create_unit x c p = do {
     pr \<leftarrow> reading x (ip_addr p) (\<lambda>pr. pr);
     try_go (if has_terminal pr
             then try_go (init_ttySockPath x p) (\<lambda>s. return_go (Inr (create_command p pr @ [''--console-socket='' @ s])))
             else return_go (Inr (create_command p pr))) (\<lambda>rcmd. do {
       let props = init_startProperties p pr rcmd;
       try_go (start_tty x c (has_terminal pr) (ip_conf p) (init_ttySockPath x p)) (\<lambda>u. do {
         set_unitProps x p props;
         r \<leftarrow> startUnit x c p;
         kill_tty_on_error x c u r;
         return_go r }) }) }"

definition init_Create_body :: "'w env \<Rightarrow> ctx \<Rightarrow> init_ptr \<Rightarrow> ('w, u32 result option) go" where
  "init_Create_body x c p = do {
     e \<leftarrow> writeMountConfig x p;
     case e of
       Some e \<Rightarrow> return_go (Some (Inl e))
     | None \<Rightarrow>
         if ip_checkpoint p \<noteq> '''' then do {
           r \<leftarrow> createRestore x p;
           return_go (map_option (map_sum id (\<lambda>_. 0)) r) }
         else do { r \<leftarrow> create_unit x c p; return_go (Some r) } }"

definition init_Create :: "'w env \<Rightarrow> ctx \<Rightarrow> init_ptr \<Rightarrow> ('w, u32 result option) go" where
  "init_Create x c p = do {
     r \<leftarrow> init_Create_body x c p;
     case r of
       None \<Rightarrow> return_go None
     | Some r \<Rightarrow> do {
         when_go (is_err r) (do {
           ignore (callE x (RuncDelete (cleanupContext c) (c_runc (ip_conf p)) (c_id (ip_conf p)) True));
           t \<leftarrow> now x;
           ignore (init_SetState x (cleanupContext c) p (pState_zero\<lparr>ExitCode := 255, ExitedAt := t, Status := ''failed''\<rparr>)) });
         return_go (Some r) } }"

text \<open>The process \<open>Service.Create\<close> builds: its fixed fields, and the value it starts with.\<close>

definition new_init :: "'w env \<Rightarrow> service_conf \<Rightarrow> string \<Rightarrow> CreateTaskRequest \<Rightarrow> CreateOptions \<Rightarrow> string \<Rightarrow> spec_info \<Rightarrow> nat \<Rightarrow> init_ptr" where
  "new_init x sv ns r opts runcCommand spec a =
     (let conf = \<lparr>c_ns = ns, c_id = cr_ID r, c_root = cr_Bundle r, c_pathName = '''', c_exe = sv_exe sv,
            c_Stdin = cr_Stdin r, c_Stdout = cr_Stdout r, c_Stderr = cr_Stderr r,
            c_runc = \<lparr>rc_Debug = sv_debug sv, rc_Command = runcCommand, rc_SystemdCgroup = co_SystemdCgroup opts,
                      rc_Root = path_Join [co_Root opts, ns],
                      rc_Log = (if sv_debug sv then path_Join [cr_Bundle r, ''init-runc-debug.log''] else ''''),
                      rc_WorkDir = cr_Bundle r\<rparr>,
            c_pinned = sv_pinned sv, c_shimCgroup = co_ShimCgroup opts\<rparr>;
          p = \<lparr>ip_addr = a, ip_conf = conf, ip_Bundle = cr_Bundle r, ip_Rootfs = cr_Rootfs r,
               ip_checkpoint = cr_Checkpoint r, ip_parentCheckpoint = cr_ParentCheckpoint r,
               ip_noNewNamespace = (sv_noNewNamespace sv \<or> si_linux spec \<and> si_rootfsPropagation spec = ''shared''),
               ip_killAllOnExit = shouldKillAllOnExit spec\<rparr>
      in p\<lparr>ip_conf := conf\<lparr>c_pathName := e_PathBusEscape x (init_Name p)\<rparr>\<rparr>)"

definition new_process :: "string \<Rightarrow> bool \<Rightarrow> CreateOptions \<Rightarrow> process" where
  "new_process ns terminal opts = (blank_process ns)\<lparr>p_Terminal := terminal, p_opts := opts\<rparr>"

definition alloc :: "'w env \<Rightarrow> process \<Rightarrow> ('w, nat) go" where
  "alloc x pr = atomic x (\<lambda>s. (sh_next s, s\<lparr>sh_procs := (sh_procs s)(sh_next s := pr),
     sh_inits := (sh_inits s)(sh_next s := \<lparr>i_unitProps = [], i_execs = []\<rparr>), sh_next := Suc (sh_next s)\<rparr>))"

definition processes_Add :: "'w env \<Rightarrow> string \<Rightarrow> init_ptr \<Rightarrow> ('w, err option) go" where
  "processes_Add x ns p = atomic x (\<lambda>s. case pm_Add (sh_processes s) (path_Join [ns, c_id (ip_conf p)]) p of
     (e, m) \<Rightarrow> (e, s\<lparr>sh_processes := m\<rparr>))"

text \<open>What \<open>Service.Create\<close> does when it fails after the process was registered.\<close>

definition create_cleanup :: "'w env \<Rightarrow> ctx \<Rightarrow> string \<Rightarrow> init_ptr \<Rightarrow> nat \<Rightarrow> ('w, bool) go" where
  "create_cleanup x c ns p n = do {
     t \<leftarrow> now x;
     ignore (init_SetState x (cleanupContext c) p (pState_zero\<lparr>ExitCode := 255, ExitedAt := t, Status := ''failed''\<rparr>));
     processes_Delete x ns (c_id (ip_conf p));
     units_Delete x (InitP p);
     d \<leftarrow> init_Delete x (cleanupContext c) p n;
     return_go (d \<noteq> None) }"

definition create_registered ::
  "'w env \<Rightarrow> ctx \<Rightarrow> string \<Rightarrow> CreateTaskRequest \<Rightarrow> init_ptr \<Rightarrow> nat \<Rightarrow> ('w, u32 result option) go" where
  "create_registered x c ns r p n = do {
     units_Add x (InitP p);
     r' \<leftarrow> init_Create x c p;
     case r' of
       None \<Rightarrow> return_go None
     | Some ret \<Rightarrow> (case ret of
         Inl e \<Rightarrow> do {
           finished \<leftarrow> create_cleanup x c ns p n;
           return_go (if finished then Some (Inl e) else None) }
       | Inr pid \<Rightarrow> do {
           ignore (init_SetState x c p (pState_zero\<lparr>Pid := pid, Status := ''created''\<rparr>));
           events_Send x (ip_addr p) (TaskCreate (cr_ID r) (cr_Bundle r) (cr_Rootfs r)
             \<lparr>io_Stdin = cr_Stdin r, io_Stdout = cr_Stdout r, io_Stderr = cr_Stderr r, io_Terminal = cr_Terminal r\<rparr>
             (cr_Checkpoint r) pid);
           return_go (Some (Inr pid)) }) }"

text \<open>Everything \<open>Service.Create\<close> looks up before it builds the process.\<close>

definition create_inputs ::
  "'w env \<Rightarrow> service_conf \<Rightarrow> CreateTaskRequest \<Rightarrow> ('w, (CreateOptions \<times> string \<times> spec_info) result) go" where
  "create_inputs x sv r = (case decode_options x (cr_Options r) of
     Inl e \<Rightarrow> return_go (Inl e)
   | Inr opts \<Rightarrow> do {
       let opts = default_options sv opts;
       try_go (if co_BinaryName opts \<noteq> '''' then callS x (LookPath (co_BinaryName opts)) else return_go (Inr (sv_runcBin sv)))
         (\<lambda>cmd. try_go (callS x (ReadFile (path_Join [cr_Bundle r, ''config.json'']))) (\<lambda>data.
           return_go (rbind (e_json_spec x data) (\<lambda>spec. Inr (opts, cmd, spec))))) })"

definition Service_Create ::
  "'w env \<Rightarrow> service_conf \<Rightarrow> ctx \<Rightarrow> string result \<Rightarrow> CreateTaskRequest \<Rightarrow> nat \<Rightarrow> ('w, u32 result option) go" where
  "Service_Create x sv c ns_req r n = (case ns_req of
     Inl e \<Rightarrow> return_go (Some (Inl e))
   | Inr ns \<Rightarrow> do {
       _ \<leftarrow> OpenShimLog (\<lambda>k. callE x (ShimLog k)) (cr_Bundle r);
       inp \<leftarrow> create_inputs x sv r;
       case inp of
         Inl e \<Rightarrow> return_go (Some (Inl e))
       | Inr (opts, cmd, spec) \<Rightarrow> do {
           a \<leftarrow> alloc x (new_process ns (cr_Terminal r) opts);
           let p = new_init x sv ns r opts cmd spec a;
           e \<leftarrow> processes_Add x ns p;
           case e of
             Some e \<Rightarrow> return_go (Some (Inl e))
           | None \<Rightarrow> create_registered x c ns r p n } })"

subsection \<open>Adding an exec\<close>

definition exec_Create :: "'w env \<Rightarrow> exec_ptr \<Rightarrow> ('w, err option) go" where
  "exec_Create x p = do {
     e \<leftarrow> callE x (MkdirAll (stateDir p));
     case e of
       Some e \<Rightarrow> return_go (Some e)
     | None \<Rightarrow> do {
         term \<leftarrow> reading x (ep_addr p) has_terminal;
         case (if term then e_json_terminal x (any_Value (ep_Spec p)) else Inr (any_Value (ep_Spec p))) of
           Inl e \<Rightarrow> return_go (Some e)
         | Inr v \<Rightarrow> callE x (WriteFile (processFilePath p) v) } }"

definition new_exec :: "'w env \<Rightarrow> service_conf \<Rightarrow> string \<Rightarrow> init_ptr \<Rightarrow> ExecProcessRequest \<Rightarrow> nat \<Rightarrow> exec_ptr" where
  "new_exec x sv ns par r a =
     (let runc = \<lparr>rc_Debug = sv_debug sv, rc_Command = rc_Command (c_runc (ip_conf par)),
            rc_SystemdCgroup = rc_SystemdCgroup (c_runc (ip_conf par)), rc_Root = rc_Root (c_runc (ip_conf par)),
            rc_Log = '''', rc_WorkDir = ip_Bundle par\<rparr>;
          conf = \<lparr>c_ns = ns, c_id = er_ExecID r, c_root = c_root (ip_conf par), c_pathName = '''', c_exe = sv_exe sv,
            c_Stdin = er_Stdin r, c_Stdout = er_Stdout r, c_Stderr = (if er_Terminal r then '''' else er_Stderr r),
            c_runc = runc, c_pinned = sv_pinned sv, c_shimCgroup = ''''\<rparr>;
          e = \<lparr>ep_addr = a, ep_conf = conf, ep_Spec = er_Spec r, ep_parent = par, ep_execID = er_ExecID r\<rparr>
      in e\<lparr>ep_conf := conf\<lparr>c_runc := runc\<lparr>rc_Log := path_Join [stateDir e, ''runc-debug.log'']\<rparr>,
                           c_pathName := e_PathBusEscape x (exec_Name e)\<rparr>\<rparr>)"

definition execs_Add :: "'w env \<Rightarrow> init_ptr \<Rightarrow> exec_ptr \<Rightarrow> ('w, err option) go" where
  "execs_Add x p e = atomic x (\<lambda>s. case pm_Add (i_execs (sh_inits s (ip_addr p))) (ep_execID e) e of
     (er, m) \<Rightarrow> (er, s\<lparr>sh_inits := (sh_inits s)(ip_addr p := (sh_inits s (ip_addr p))\<lparr>i_execs := m\<rparr>)\<rparr>))"

definition unregister_exec :: "'w env \<Rightarrow> init_ptr \<Rightarrow> exec_ptr \<Rightarrow> ('w, unit) go" where
  "unregister_exec x p e = do { units_Delete x (ExecP e); execs_Delete x p (ep_execID e) }"

definition exec_registered :: "'w env \<Rightarrow> init_ptr \<Rightarrow> exec_ptr \<Rightarrow> ('w, unit result) go" where
  "exec_registered x p e = do {
     units_Add x (ExecP e);
     del \<leftarrow> reading x (ip_addr p) isDeleting;
     if del then do { unregister_exec x p e; return_go (Inl ErrFailedPrecondition) }
     else do {
       er \<leftarrow> exec_Create x e;
       case er of
         Some err \<Rightarrow> do { unregister_exec x p e; return_go (Inl err) }
       | None \<Rightarrow> do {
           events_Send x (ep_addr e) (TaskExecAdded (c_id (ip_conf p)) (ep_execID e));
           return_go (Inr ()) } } }"

definition Service_Exec ::
  "'w env \<Rightarrow> service_conf \<Rightarrow> string result \<Rightarrow> ExecProcessRequest \<Rightarrow> ('w, unit result) go" where
  "Service_Exec x sv ns_req r = (case ns_req of
     Inl e \<Rightarrow> return_go (Inl e)
   | Inr ns \<Rightarrow> do {
       q \<leftarrow> processes_Get x ns (er_ID r);
       case q of
         None \<Rightarrow> return_go (Inl ErrNotFound)
       | Some p \<Rightarrow> do {
           a \<leftarrow> alloc x (new_process ns (er_Terminal r) (blank_options\<lparr>co_LogMode := sv_defaultLogMode sv\<rparr>));
           let e = new_exec x sv ns p r a;
           er \<leftarrow> execs_Add x p e;
           case er of
             Some err \<Rightarrow> return_go (Inl err)
           | None \<Rightarrow> exec_registered x p e } })"

subsection \<open>What the operations never undo\<close>

lemma lo_set_unitProps: "rely lifecycle_le x \<Longrightarrow> guar lifecycle_le (set_unitProps x p props)"
  unfolding set_unitProps_def by (rule lo.guar_atomic) (simp_all add: lifecycle_le_def)

lemma lo_init_Create:
  assumes x: "rely lifecycle_le x"
  shows "guar lifecycle_le (writeMountConfig x p)" "guar lifecycle_le (createRestore x p)"
    "guar lifecycle_le (init_Create_body x c p)" "guar lifecycle_le (init_Create x c p)"
    "guar lifecycle_le (create_unit x c p)"
proof -
  show 1: "guar lifecycle_le (writeMountConfig x p)"
    unfolding writeMountConfig_def by (intro lo_rules; simp add: x)
  show 2: "guar lifecycle_le (createRestore x p)"
    unfolding createRestore_def restore_props_def by (intro lo_rules lo_tty lo_set_unitProps; simp add: x)
  show 4: "guar lifecycle_le (create_unit x c p)"
    unfolding create_unit_def by (intro lo_rules lo_tty lo_set_unitProps lo_start_tty lo_startUnit; simp add: x)
  show 3: "guar lifecycle_le (init_Create_body x c p)"
    unfolding init_Create_body_def by (intro lo_rules 1 2 4; simp add: x)
  show "guar lifecycle_le (init_Create x c p)"
    unfolding init_Create_def by (intro lo_rules 3 lo_tasks; simp add: x)
qed

lemma lo_alloc: "rely lifecycle_le x \<Longrightarrow> guar lifecycle_le (alloc x pr)"
  unfolding alloc_def by (rule lo.guar_atomic) (simp_all add: lifecycle_le_def)

lemma lo_adds:
  assumes x: "rely lifecycle_le x"
  shows "guar lifecycle_le (processes_Add x ns p)" "guar lifecycle_le (execs_Add x p e)"
  unfolding processes_Add_def execs_Add_def
  by (rule lo.guar_atomic; simp add: lifecycle_le_def x split: prod.splits)+

lemma lo_Service_Create: "rely lifecycle_le x \<Longrightarrow> guar lifecycle_le (Service_Create x sv c ns r n)"
  unfolding Service_Create_def create_inputs_def create_registered_def create_cleanup_def OpenShimLog_def
  by (intro lo_rules lo_alloc lo_adds lo_tables lo_init_Create lo_init_Delete lo_tasks; simp)

lemma lo_exec_Create: "rely lifecycle_le x \<Longrightarrow> guar lifecycle_le (exec_Create x e)"
  unfolding exec_Create_def by (intro lo_rules; simp)

lemma lo_Service_Exec: "rely lifecycle_le x \<Longrightarrow> guar lifecycle_le (Service_Exec x sv ns r)"
  unfolding Service_Exec_def exec_registered_def unregister_exec_def
  by (intro lo_rules lo_alloc lo_adds lo_tables lo_exec_Create; simp)

subsection \<open>Deleting a process that has exited\<close>

definition ended :: "nat \<Rightarrow> 'w shim \<Rightarrow> bool" where
  "ended a s \<longleftrightarrow> a < sh_next s \<and> Exited (p_state (sh_procs s a))"

lemma stable_ended: "stable (ended a)"
  by (auto simp: stable_def ended_def lifecycle_le_def proc_le_def)

lemma ended_interfere: "rely lifecycle_le x \<Longrightarrow> ended a s \<Longrightarrow> ended a (interfere x s)"
  using stable_ended [of a] lo.R_calls unfolding stable_def rely_def interfere_def by blast

lemma ended_wait:
  "rely lifecycle_le x \<Longrightarrow> ended a s \<Longrightarrow> wp (waitForExit x c a (Suc n)) (\<lambda>r s'. r \<noteq> None) s"
  by (rule waitForExit_ended) (auto simp: ended_def)

lemma ended_check:
  assumes x: "rely lifecycle_le x" and e: "ended (ip_addr p) s"
  shows "wp (init_Delete_check x c p) (\<lambda>r s'. r = None \<and> ended (ip_addr p) s') s"
proof (rule wp_mono [OF wp_conj])
  show "wp (init_Delete_check x c p) (\<lambda>_. ended (ip_addr p)) s"
    by (rule stable_wp [OF stable_ended lo_init_Delete(1) [OF x] e])
  show "wp (init_Delete_check x c p) (\<lambda>r s'. r = None) s"
    using ended_interfere [OF x e] by (simp add: init_Delete_check_def wp_simps reading_def ended_def)
qed simp

lemma ended_finish:
  assumes x: "rely lifecycle_le x" and e: "ended (ip_addr p) s"
  shows "wp (init_Delete_finish x c p (Suc n)) (\<lambda>r s'. r \<noteq> None) s"
  unfolding init_Delete_finish_def
  by (rule wp_intros, rule wp_intros, rule st_step [OF stable_ended _ e], intro lo_rules x,
      (rule wp_intros | (rule wp_mono [OF ended_wait [OF x]], assumption) | rule wp_mono [OF wp_True] | (simp; fail))+)

lemma ended_teardown:
  assumes x: "rely lifecycle_le x" and e: "ended (ip_addr p) s"
  shows "wp (init_Delete_teardown x c p (Suc n)) (\<lambda>r s'. r \<noteq> None) s"
  unfolding init_Delete_teardown_def
  by (rule wp_intros, rule st_step [OF stable_ended lo_stop_and_wait [OF x] e],
      (rule wp_intros | (rule ended_finish [OF x], assumption)
       | (rule st_step [OF stable_ended], (intro lo_rules x), assumption) | (simp; fail))+)

text \<open>Such a delete returns, and the last thing it does is to hand back the unit's reference.\<close>

abbreviation handed_back :: "bool \<Rightarrow> string \<Rightarrow> (call list \<Rightarrow> bool) list" where
  "handed_back pinned n \<equiv> [anything, perhaps pinned (UnrefUnit CleanupCtx n)]"

lemma trace_any:
  "trace s t [anything] \<Longrightarrow> trace t u [anything] \<Longrightarrow> trace s u [anything]"
  "trace s t [anything] \<Longrightarrow> trace t u [anything, P] \<Longrightarrow> trace s u [anything, P]"
proof -
  show "trace s t [anything] \<Longrightarrow> trace t u [anything] \<Longrightarrow> trace s u [anything]"
    by (auto simp: trace_def)
  assume "trace s t [anything]" "trace t u [anything, P]"
  from trace_trans [OF this] show "trace s u [anything, P]"
    using trace_group [of s u "[]" "[anything, anything]" "[P]" anything] by simp
qed

lemma extends_anything: "only C m \<Longrightarrow> wp m (\<lambda>_ s'. trace s s' [anything]) s"
  by (rule only_wpI) (auto intro: trace_piece)

lemma ended_Delete:
  assumes x: "rely lifecycle_le x" and e: "ended (ip_addr p) s"
  shows "wp (init_Delete x c p (Suc n)) (\<lambda>r s'. r \<noteq> None
           \<and> trace s s' (handed_back (c_pinned (ip_conf p)) (init_Name p))) s"
proof -
  let ?P = "handed_back (c_pinned (ip_conf p)) (init_Name p)"
  have only: "only (\<lambda>_. True) (init_Delete_teardown x c p (Suc n))"
    unfolding init_Delete_teardown_def stop_and_wait_def
    by (intro only_rules only_mono [OF only_init_finish]; simp)
  have tear: "wp (init_Delete_teardown x c p (Suc n)) (\<lambda>r s'. r \<noteq> None \<and> trace s s' [anything]) t"
    if "ended (ip_addr p) t" "trace s t [anything]" for t
    by (rule wp_mono [OF wp_conj [OF ended_teardown [OF x that(1)] extends_anything [OF only]]])
       (use trace_any(1) that(2) in blast)
  have mark: "wp (locked x (ip_addr p) g) (\<lambda>_ s'. ended (ip_addr p) s' \<and> trace s s' [anything]) t"
    if "ended (ip_addr p) t" "trace s t [anything]" "\<And>p. proc_le p (snd (g p))"
    for t and g :: "process \<Rightarrow> unit \<times> process"
    by (rule wp_mono [OF wp_conj [OF stable_wp [OF stable_ended lo_locked [OF x that(3)] that(1)]
          extends_anything [OF only_locked]]]) (use trace_any(1) that(2) in blast)
  have check: "wp (init_Delete_check x c p) (\<lambda>r s'. (r = None \<and> ended (ip_addr p) s') \<and> trace s s' [anything]) s"
    by (rule wp_conj [OF ended_check [OF x e] extends_anything [OF only_init_check]])
  have rel: "trace s t (Ts @ [one k]) \<Longrightarrow> Ts = [anything] \<Longrightarrow> trace s t [anything]" for t k Ts
    by (auto simp: trace_def)
  show ?thesis
    unfolding init_Delete_def init_Delete_commit_def
    by (rule wp_intros, rule wp_mono [OF check], elim conjE,
        (rule wp_intros | (rule wp_mono [OF mark], assumption, assumption, simp, elim conjE)
         | (rule wp_mono [OF tear], assumption, assumption, elim conjE)
         | (rule tr_calls(1), assumption, drule rel, rule refl) | (rule tr_release, assumption)
         | (simp add: cleanupContext_def; fail))+)
qed

subsection \<open>A create that fails\<close>

lemma init_SetState_ended:
  assumes x: "rely lifecycle_le x" and a: "allocated (ip_addr p) s" and st: "Exited st"
  shows "wp (init_SetState x c p st) (\<lambda>_ s'. ended (ip_addr p) s') s"
proof -
  have merge: "wp (process_applyState x (ip_addr p) st) (\<lambda>_ s'. ended (ip_addr p) s') s"
    unfolding process_applyState_def
  proof (rule wp_intros, rule st_step [OF stables(3) _ a], intro lo_rules x)
    fix now :: time and t :: "'a shim"
    assume "allocated (ip_addr p) t"
    from allocated_interfere [OF x this] st
    show "wp (locked x (ip_addr p) (\<lambda>p. applyState p now st)) (\<lambda>_ s'. ended (ip_addr p) s') t"
      by (auto simp: locked_def wp_simps ended_def allocated_def applyState_Exited split: prod.splits)
         (metis applyState_Exited snd_conv)
  qed
  show ?thesis
    unfolding init_SetState_def
    by (rule wp_intros, rule wp_mono [OF merge], (rule wp_intros | assumption
        | (rule st_step [OF stable_ended], (intro lo_rules lo_sweep_exec x), assumption))+)
qed

lemma failed_state_Exited: "Exited (pState_zero\<lparr>ExitCode := 255, ExitedAt := t, Status := ''failed''\<rparr>)"
  by (simp add: Exited_iff)

lemma create_cleanup_result:
  assumes x: "rely lifecycle_le x" and a: "allocated (ip_addr p) s"
  shows "wp (create_cleanup x c ns p (Suc n)) (\<lambda>r s'. r
           \<and> trace s s' (handed_back (c_pinned (ip_conf p)) (init_Name p))) s"
proof -
  have carry: "wp m (\<lambda>_ s'. ended (ip_addr p) s' \<and> trace s s' [anything]) t"
    if "wp m (\<lambda>_. ended (ip_addr p)) t" "only C m" "trace s t [anything]" for t C and m :: "('a, 'b) go"
    by (rule wp_mono [OF wp_conj [OF that(1) extends_anything [OF that(2)]]]) (use trace_any(1) that(3) in blast)
  have fin: "wp (init_Delete x (cleanupContext c) p (Suc n)) (\<lambda>d. wp (return_go (d \<noteq> None)) (\<lambda>r s'. r
           \<and> trace s s' (handed_back (c_pinned (ip_conf p)) (init_Name p)))) t"
    if "ended (ip_addr p) t" "trace s t [anything]" for t
    by (rule wp_mono [OF ended_Delete [OF x that(1)]]) (use trace_any(2) that(2) in \<open>auto simp: wp_return\<close>)
  show ?thesis
    unfolding create_cleanup_def
    by (rule wp_intros, rule wp_mono [OF wp_conj [OF stable_wp [OF stables(3) lo.guar_calls(1) [OF x] a]
           extends_anything [OF only_calls(1)]]], elim conjE,
        (rule wp_intros | (rule fin, assumption, assumption)
         | (rule wp_mono [OF carry [OF init_SetState_ended [OF x _ failed_state_Exited] only_SetState(4)]],
              assumption, assumption, elim conjE)
         | (rule wp_mono [OF carry [OF stable_wp [OF stable_ended lo_tables(2) [OF x]]]],
              assumption, simp add: processes_Delete_def only_atomic, assumption, elim conjE)
         | (rule wp_mono [OF carry [OF stable_wp [OF stable_ended lo_tables(4) [OF x]]]],
              assumption, simp add: units_Delete_def only_atomic, assumption, elim conjE))+)
qed

fun is_lookup :: "call \<Rightarrow> bool" where
  "is_lookup (LookPath _) = True" | "is_lookup (ReadFile _) = True" | "is_lookup _ = False"

lemma only_any: "only C m \<Longrightarrow> only (\<lambda>_. True) m"
  by (erule only_mono) simp

lemma any_startUnit: "only (\<lambda>_. True) (startUnit x c p)"
proof -
  have poll: "only (\<lambda>_. True) (pid_poll x c p k)" for k
    by (induction k) (auto intro!: only_rules only_any [OF only_LoadState(1)])
  have start: "only (\<lambda>_. True) (startUnit_do x c p)"
    unfolding startUnit_do_def unitProps_def startTransientUnit_def init_Kill_def
    by (intro only_rules only_any [OF only_LoadState(1)]; simp)
  have pid: "only (\<lambda>_. True) (handlePid x c p)"
    unfolding handlePid_def by (intro only_rules poll only_any [OF only_LoadState(1)])
  show ?thesis
    unfolding startUnit_def releaseUnit_def by (intro only_rules start pid; simp)
qed

lemma any_init_Create: "only (\<lambda>_. True) (init_Create x c p)"
proof -
  have sock: "only (\<lambda>_. True) (init_ttySockPath x p)"
    unfolding init_ttySockPath_def ttySockPath_def by (intro only_rules; simp)
  have tty: "only (\<lambda>_. True) (start_tty x c b conf (init_ttySockPath x p))" for b conf
    unfolding start_tty_def makePty_def makePty_unit_def by (intro only_rules sock; simp)
  show ?thesis
    unfolding init_Create_def init_Create_body_def create_unit_def writeMountConfig_def createRestore_def restore_props_def set_unitProps_def kill_tty_on_error_def
    by (intro only_rules sock tty any_startUnit only_any [OF only_SetState(4)]; simp)
qed

lemma any_init_SetState: "only (\<lambda>_. True) (init_SetState x c p st)"
  by (rule only_any [OF only_SetState(4)])

text \<open>A create that is no restore, or one whose spec has a process section, does not panic.\<close>

definition restorable :: "'w env \<Rightarrow> string \<Rightarrow> bool" where
  "restorable x checkpoint \<longleftrightarrow> checkpoint = '''' \<or> (\<forall>data spec. e_json_spec x data = Inr spec \<longrightarrow> si_process spec)"

lemma init_Create_returns: "restorable x (ip_checkpoint p) \<Longrightarrow> wp (init_Create x c p) (\<lambda>r _. r \<noteq> None) s"
proof -
  assume r: "restorable x (ip_checkpoint p)"
  have restore: "wp (createRestore x p) (\<lambda>r _. r \<noteq> None) t" if "ip_checkpoint p \<noteq> ''''" for t
    unfolding createRestore_def
    by ((rule wp_intros | rule wp_mono [OF wp_True] | (use r that in \<open>simp add: restorable_def; fail\<close>))+)
  have "wp (init_Create_body x c p) (\<lambda>r _. r \<noteq> None) s"
    unfolding init_Create_body_def
    by (rule wp_intros, rule wp_mono [OF wp_True],
        (rule wp_intros | (rule wp_mono [OF restore], assumption) | rule wp_mono [OF wp_True] | (simp; fail))+)
  then show ?thesis
    unfolding init_Create_def
    by (rule wp_bindI [OF wp_mono]) ((rule wp_intros | rule wp_mono [OF wp_True] | (simp; fail))+)
qed

lemma create_registered_result:
  assumes x: "rely lifecycle_le x" and a: "allocated (ip_addr p) s"
  shows "wp (create_registered x c ns r p (Suc n)) (\<lambda>ret s'. (restorable x (ip_checkpoint p) \<longrightarrow> ret \<noteq> None)
           \<and> (\<forall>e. ret = Some (Inl e) \<longrightarrow> trace s s' (handed_back (c_pinned (ip_conf p)) (init_Name p)))) s"
proof -
  have carry: "wp m (\<lambda>_ s'. allocated (ip_addr p) s' \<and> trace s s' [anything]) t"
    if "guar lifecycle_le m" "only C m" "allocated (ip_addr p) t" "trace s t [anything]" for t C and m :: "('a, 'b) go"
    by (rule wp_mono [OF wp_conj [OF stable_wp [OF stables(3) that(1,3)] extends_anything [OF that(2)]]])
       (use trace_any(1) that(4) in blast)
  have start: "trace s s [anything]" by (auto simp: trace_def)
  have clean: "wp (create_cleanup x c ns p (Suc n)) (\<lambda>r s'. r
           \<and> trace s s' (handed_back (c_pinned (ip_conf p)) (init_Name p))) t"
    if "allocated (ip_addr p) t" "trace s t [anything]" for t
    by (rule wp_mono [OF create_cleanup_result [OF x that(1)]]) (use trace_any(2) that(2) in blast)
  have create: "wp (init_Create x c p) (\<lambda>r s'. (restorable x (ip_checkpoint p) \<longrightarrow> r \<noteq> None)
           \<and> allocated (ip_addr p) s' \<and> trace s s' [anything]) t"
    if "allocated (ip_addr p) t" "trace s t [anything]" for t
  proof (rule wp_conj [OF _ carry [OF lo_init_Create(4) [OF x] any_init_Create that]], cases "restorable x (ip_checkpoint p)")
    case True
    then show "wp (init_Create x c p) (\<lambda>r _. restorable x (ip_checkpoint p) \<longrightarrow> r \<noteq> None) t"
      by (rule wp_mono [OF init_Create_returns]) simp
  qed (rule wp_mono [OF wp_True], simp)
  have add: "only C (units_Add x q)" for C q by (simp add: units_Add_def only_atomic)
  show ?thesis
    unfolding create_registered_def
    by (rule wp_intros, rule wp_mono [OF carry [OF lo_tables(3) [OF x] add a start]], elim conjE,
        rule wp_intros, (rule wp_mono [OF create], assumption, assumption, elim conjE),
        (rule wp_intros | (rule wp_mono [OF clean], assumption, assumption) | rule wp_mono [OF wp_True] | (simp; fail))+)
qed

lemma only_create_inputs: "only is_lookup (create_inputs x sv r)"
  unfolding create_inputs_def by (intro only_rules; simp)

text \<open>The calls of opening the log of a bundle: the first few of these.\<close>

definition log_trace :: "string \<Rightarrow> call list \<Rightarrow> bool" where
  "log_trace bundle cs \<longleftrightarrow> (let p = path_Join [bundle, ''log''] in
     cs \<in> set (map (\<lambda>k. take k [ShimLog (OpenLog p), ShimLog (MkfifoLog p), ShimLog (OpenLog p), ShimLog (RemoveLog p)]) [1, 2, 3, 4]))"

lemma OpenShimLog_trace:
  "wp (OpenShimLog (\<lambda>k. callE x (ShimLog k)) bundle) (\<lambda>_ s'. trace s s' [log_trace bundle]) s"
  by (auto simp: OpenShimLog_def wp_simps callE_def Let_def trace_def log_trace_def split: prod.splits)

lemma alloc_allocated: "wp (alloc x pr) (\<lambda>a s'. allocated a s' \<and> sh_calls s' = sh_calls s) s"
  by (simp add: alloc_def wp_simps allocated_def)

lemma new_init_simps [simp]:
  "ip_addr (new_init x sv ns r opts cmd spec a) = a"
  "c_pinned (ip_conf (new_init x sv ns r opts cmd spec a)) = sv_pinned sv"
  "c_ns (ip_conf (new_init x sv ns r opts cmd spec a)) = ns"
  "c_id (ip_conf (new_init x sv ns r opts cmd spec a)) = cr_ID r"
  by (simp_all add: new_init_def Let_def)

lemma new_init_checkpoint [simp]: "ip_checkpoint (new_init x sv ns r opts cmd spec a) = cr_Checkpoint r"
  by (simp add: new_init_def Let_def)

lemma Service_Create_result:
  assumes x: "rely lifecycle_le x"
  shows "wp (Service_Create x sv c (Inr ns) r (Suc n)) (\<lambda>ret s'. (restorable x (cr_Checkpoint r) \<longrightarrow> ret \<noteq> None)
           \<and> (\<forall>e. ret = Some (Inl e) \<longrightarrow> trace s s' [log_trace (cr_Bundle r), many is_lookup]
               \<or> trace s s' (handed_back (sv_pinned sv) (unitName ns (cr_ID r) ''init'')))) s"
proof -
  let ?h = "handed_back (sv_pinned sv) (unitName ns (cr_ID r) ''init'')"
  let ?look = "[log_trace (cr_Bundle r), many is_lookup]"
  let ?Q = "\<lambda>ret s'. (restorable x (cr_Checkpoint r) \<longrightarrow> ret \<noteq> None) \<and> (\<forall>e. ret = Some (Inl e) \<longrightarrow> trace s s' ?look \<or> trace s s' ?h)"
  have reg: "wp (create_registered x c ns r (new_init x sv ns r opts cmd spec a) (Suc n)) ?Q t"
    if "allocated a t \<and> trace s t ?look" for t opts cmd spec a
  proof -
    have "trace s t [anything]" using that by (auto simp: trace_def)
    then show ?thesis
      using that by (intro wp_mono [OF create_registered_result [OF x]])
        (auto simp: init_Name_def dest: trace_any(2))
  qed
  have fresh: "wp (alloc x pr) (\<lambda>a s'. allocated a s' \<and> trace s s' ?look) t"
    if "trace s t ?look" for t pr
    by (rule wp_mono [OF alloc_allocated]) (use that trace_same in blast)
  have add: "wp (processes_Add x ns p) (\<lambda>_ s'. allocated a s' \<and> trace s s' ?look) t"
    if "allocated a t \<and> trace s t ?look" for t p a
  proof (rule wp_conj)
    show "wp (processes_Add x ns p) (\<lambda>_. allocated a) t"
      using that by (intro stable_wp [OF stables(3) lo_adds(1) [OF x]]) simp
    show "wp (processes_Add x ns p) (\<lambda>_ s'. trace s s' ?look) t"
      unfolding processes_Add_def by (rule tr_silents(3)) (use that in simp_all)
  qed
  show ?thesis
    unfolding Service_Create_def sum.case
    by (rule wp_intros, rule wp_mono [OF OpenShimLog_trace], rule wp_intros, rule tr_only [OF only_create_inputs], assumption,
        unfold append.simps,
        (rule wp_intros | (rule wp_mono [OF fresh], assumption) | (rule wp_mono [OF add], assumption)
         | (rule reg, assumption) | (simp; fail))+)
qed

text \<open>
  C7: a create returns, and a failing one leaves no referenced unit. As long as no goroutine undoes an exit: once its calls to the outside have returned - the waits for
  systemd's jobs among them, which end with the job or with the request's context - a create has returned, unless it restores a bundle whose spec has no process section,
  which panics; and when it fails, either it only opened the bundle's log pipe, making it if need be, and looked up the runc binary
  and the bundle's spec, or the very last call it makes hands back the reference to the
  task's unit, on a context the caller cannot cancel, whatever step failed.
\<close>

theorem failed_create_hands_back:
  assumes "rely lifecycle_le x"
    and "run_state (Service_Create x sv c (Inr ns) r (Suc n)) s = (ret, s')"
  shows "(restorable x (cr_Checkpoint r) \<longrightarrow> ret \<noteq> None)
       \<and> (\<forall>e. ret = Some (Inl e) \<longrightarrow> trace s s' [log_trace (cr_Bundle r), many is_lookup]
           \<or> trace s s' [anything, perhaps (sv_pinned sv) (UnrefUnit CleanupCtx (unitName ns (cr_ID r) ''init''))])"
  using wpD [OF Service_Create_result [OF assms(1)] assms(2)] .

text \<open>A concrete failure: the mount configuration cannot be encoded.\<close>

definition demo_conf :: service_conf where
  "demo_conf = \<lparr>sv_root = ''/run'', sv_runcBin = ''runc'', sv_debug = False, sv_noNewNamespace = False, sv_exe = ''shim'',
     sv_pinned = True, sv_defaultLogMode = ''journal''\<rparr>"

definition demo_create :: "string \<Rightarrow> CreateTaskRequest" where
  "demo_create i = \<lparr>cr_ID = i, cr_Bundle = ''/b'', cr_Rootfs = [], cr_Terminal = False, cr_Stdin = '''', cr_Stdout = '''',
     cr_Stderr = '''', cr_Checkpoint = '''', cr_ParentCheckpoint = '''', cr_Options = None\<rparr>"

definition mountless_env :: "unit env" where
  "mountless_env = (file_env '''')\<lparr>e_json_spec := (\<lambda>_. Inr \<lparr>si_linux = False, si_rootfsPropagation = '''', si_namespaces = [],
     si_process = True, si_terminal = False\<rparr>), e_proto_mounts := (\<lambda>_ _. Inl ErrInvalidArgument)\<rparr>"

lemma mountless_rely: "rely lifecycle_le mountless_env"
  by (simp add: rely_def mountless_env_def file_env_def calm_env_def lo.R_refl)

lemma mountless_create_fails:
  assumes "\<And>b m. e_proto_mounts x b m = Inl e"
  shows "wp (Service_Create x sv c ns r n) (\<lambda>ret _. \<forall>pid. ret \<noteq> Some (Inr pid)) s"
proof -
  have body: "wp (init_Create_body x c p) (\<lambda>ret _. \<forall>pid. ret \<noteq> Some (Inr pid)) t" for p t
    by (simp add: init_Create_body_def writeMountConfig_def assms wp_simps)
  have create: "wp (init_Create x c p) (\<lambda>ret _. \<forall>pid. ret \<noteq> Some (Inr pid)) t" for p t
    unfolding init_Create_def
    by (rule wp_intros, rule wp_mono [OF body], (rule wp_intros | rule wp_mono [OF wp_True] | (simp; fail))+)
  show ?thesis
    unfolding Service_Create_def create_registered_def
    by ((rule wp_intros | rule wp_mono [OF create] | rule wp_mono [OF wp_True] | (simp; fail))+)
qed

abbreviation demo_idle :: "unit shim" where
  "demo_idle \<equiv> demo_shim (blank_process ''ns'') (blank_process ''ns'')"

definition failing_create :: "u32 result option \<times> unit shim" where
  "failing_create = run_state (Service_Create mountless_env demo_conf ReqCtx (Inr ''ns'') (demo_create ''d'') (Suc 0)) demo_idle"

lemma failing_create_fails: "\<forall>pid. fst failing_create \<noteq> Some (Inr pid)"
proof -
  have "wp (Service_Create mountless_env demo_conf ReqCtx (Inr ''ns'') (demo_create ''d'') (Suc 0))
      (\<lambda>ret _. \<forall>pid. ret \<noteq> Some (Inr pid)) demo_idle"
    by (rule mountless_create_fails) (simp add: mountless_env_def)
  from wpD [OF this] show ?thesis unfolding failing_create_def by (metis prod.collapse)
qed

lemma failing_create_result: "\<exists>e s'. failing_create = (Some (Inl e), s')"
proof -
  obtain ret s' where run: "failing_create = (ret, s')" by fastforce
  from wpD [OF Service_Create_result [OF mountless_rely] run [unfolded failing_create_def]]
  obtain v where "ret = Some v" by (auto simp: restorable_def demo_create_def)
  moreover have "ret \<noteq> Some (Inr pid)" for pid using failing_create_fails by (simp add: run)
  ultimately have "\<exists>e. ret = Some (Inl e)" by (cases v) auto
  with run show ?thesis by blast
qed

theorem failed_create_hands_back_witness:
  "(\<exists>e. fst failing_create = Some (Inl e))
   \<and> (trace demo_idle (snd failing_create) [log_trace ''/b'', many is_lookup]
      \<or> trace demo_idle (snd failing_create)
          [anything, perhaps True (UnrefUnit CleanupCtx (unitName ''ns'' ''d'' ''init''))])"
proof -
  obtain e s' where run: "failing_create = (Some (Inl e), s')" using failing_create_result by blast
  from failed_create_hands_back [OF mountless_rely run [unfolded failing_create_def]]
  show ?thesis by (simp add: run demo_conf_def demo_create_def)
qed

subsection \<open>A create that fails leaves no registration\<close>

text \<open>
  Relations that only look at the process table: whatever a program does to processes, execs and tty
  clients moves along them.
\<close>

locale table_guarantee = guarantee R for R :: "'w shim \<Rightarrow> 'w shim \<Rightarrow> bool" +
  assumes R_procs: "R s t \<Longrightarrow> R s (t\<lparr>sh_procs := pr\<rparr>)"
    and R_ttys: "R s t \<Longrightarrow> R s (t\<lparr>sh_ttys := tt\<rparr>)"
begin

lemma guar_locked: "rely R x \<Longrightarrow> guar R (locked x a f)"
  unfolding locked_def by (rule guar_atomic) (auto simp: R_procs R_refl split: prod.splits)

lemmas table_rules = guar_rules guar_locked

lemma table_SetState:
  assumes x: "rely R x"
  shows "guar R (process_applyState x a st)" "guar R (exec_SetState x e st)" "guar R (sweep_exec x e)"
    "guar R (init_SetState x c p st)" "guar R (exit_from_unit x c nm)"
proof -
  show 1: "guar R (process_applyState x a st)" for a st
    unfolding process_applyState_def by (intro table_rules x)
  show 2: "guar R (exec_SetState x e st)" for e st
    unfolding exec_SetState_def by (intro table_rules 1 x)
  show 3: "guar R (sweep_exec x e)" for e
    unfolding sweep_exec_def exec_LoadState_def exec_readExitState_def readExitState_def by (intro table_rules 2 x)
  show "guar R (init_SetState x c p st)"
    unfolding init_SetState_def by (intro table_rules 1 3 x)
  show "guar R (exit_from_unit x c nm)"
    unfolding exit_from_unit_def by (intro table_rules x)
qed

lemma table_waitForExit: "rely R x \<Longrightarrow> guar R (waitForExit x c a n)"
proof (induction n)
  case 0
  show ?case by (simp add: guar_return)
next
  case (Suc n)
  then show ?case unfolding waitForExit.simps by (intro table_rules; simp)
qed

lemma table_closeTTYControl: "rely R x \<Longrightarrow> guar R (closeTTYControl x a)"
  unfolding closeTTYControl_def client_op_def tc_reset_def
  by (intro table_rules guar_atomic; simp add: R_refl R_ttys)

lemma table_init_Delete: "rely R x \<Longrightarrow> guar R (init_Delete x c p n)"
  unfolding init_Delete_def init_Delete_check_def init_Delete_commit_def init_Delete_teardown_def init_Delete_finish_def
    stop_and_wait_def releaseUnit_def init_finishDelete_def
  by (intro table_rules table_SetState table_waitForExit table_closeTTYControl; simp)

end

text \<open>No registration under the key \<open>k\<close> appears.\<close>

definition free_le :: "string \<Rightarrow> 'w shim \<Rightarrow> 'w shim \<Rightarrow> bool" where
  "free_le k s t \<longleftrightarrow> (pm_Get (sh_processes s) k = None \<longrightarrow> pm_Get (sh_processes t) k = None)"

interpretation free: table_guarantee "free_le k" for k
  by unfold_locales (simp_all add: free_le_def)

lemma free_units_Delete: "rely (free_le k) x \<Longrightarrow> guar (free_le k) (units_Delete x q)"
  unfolding units_Delete_def by (rule free.guar_atomic) (simp_all add: free_le_def)

abbreviation free_key :: "string \<Rightarrow> 'w shim \<Rightarrow> bool" where
  "free_key k s \<equiv> pm_Get (sh_processes s) k = None"

lemma free_step: "guar (free_le k) m \<Longrightarrow> free_key k s \<Longrightarrow> (\<And>r s'. free_key k s' \<Longrightarrow> Q r s') \<Longrightarrow> wp m Q s"
  by (rule wp_mono [of m "\<lambda>_. free_le k s"]) (simp add: guar_wp, simp add: free_le_def)

lemma unregisters: "wp (processes_Delete x ns i) (\<lambda>_ s'. free_key (path_Join [ns, i]) s') s"
  by (simp add: processes_Delete_def wp_simps pm.get_del)

lemma free_create_cleanup:
  assumes x: "rely (free_le (path_Join [ns, c_id (ip_conf p)])) x"
  shows "wp (create_cleanup x c ns p n) (\<lambda>_ s'. free_key (path_Join [ns, c_id (ip_conf p)]) s') s"
  unfolding create_cleanup_def
  by ((rule wp_intros | rule wp_mono [OF unregisters] | (rule free_step [OF free_units_Delete [OF x]], assumption)
       | (rule free_step [OF free.table_init_Delete [OF x]], assumption) | assumption | rule wp_mono [OF wp_True])+)

text \<open>
  C24: a create that fails leaves no registration. When nobody else creates a task under the same id
  meanwhile, a create of a free id that fails, at whatever step, leaves the id free again, so that
  containerd can retry it.
\<close>

theorem failed_create_unregisters:
  assumes "rely (free_le (path_Join [ns, cr_ID r])) x"
    and "run_state (Service_Create x sv c (Inr ns) r n) s = (Some (Inl e), s')"
    and "pm_Get (sh_processes s) (path_Join [ns, cr_ID r]) = None"
  shows "pm_Get (sh_processes s') (path_Join [ns, cr_ID r]) = None"
proof -
  let ?k = "path_Join [ns, cr_ID r]"
  have inputs: "guar (free_le ?k) (create_inputs x sv r)"
    unfolding create_inputs_def by (intro free.table_rules assms(1))
  have log: "guar (free_le ?k) (OpenShimLog (\<lambda>l. callE x (ShimLog l)) b)" for b
    unfolding OpenShimLog_def by (intro free.table_rules assms(1))
  have al: "guar (free_le ?k) (alloc x pr)" for pr
    unfolding alloc_def by (rule free.guar_atomic [OF assms(1)]) (simp add: free_le_def)
  have add: "wp (processes_Add x ns (new_init x sv ns r opts cmd spec a)) (\<lambda>e s'. e = None) t"
    if "free_key ?k t" for opts cmd spec a t
    using that assms(1)
    by (auto simp: processes_Add_def wp_simps pm_Add_def pm_Get_def rely_def free_le_def interfere_def
        split: prod.splits option.splits)
  have clean: "wp (create_cleanup x c ns (new_init x sv ns r opts cmd spec a) n) (\<lambda>_ s'. free_key ?k s') t"
    for opts cmd spec a t
    using free_create_cleanup [of ns "new_init x sv ns r opts cmd spec a" x c n t] assms(1) by simp
  have "wp (Service_Create x sv c (Inr ns) r n) (\<lambda>ret s'. \<forall>e. ret = Some (Inl e) \<longrightarrow> free_key ?k s') s"
    unfolding Service_Create_def create_registered_def sum.case
    by (rule wp_intros, rule free_step [OF log assms(3)], rule wp_intros, rule free_step [OF inputs], assumption,
        (rule wp_intros | (rule free_step [OF al], assumption) | (rule wp_mono [OF add], assumption) | rule wp_mono [OF clean]
         | rule wp_mono [OF wp_True] | (simp; fail))+)
  from wpD [OF this assms(2)] assms(3) show ?thesis by blast
qed

theorem failed_create_unregisters_witness:
  "(\<exists>e. fst failing_create = Some (Inl e)) \<and> pm_Get (sh_processes (snd failing_create)) ''ns/d'' = None"
proof -
  obtain e s' where run: "failing_create = (Some (Inl e), s')" using failing_create_result by blast
  have key: "path_Join [''ns'', cr_ID (demo_create ''d'')] = ''ns/d''" by code_simp
  have x: "rely (free_le (path_Join [''ns'', cr_ID (demo_create ''d'')])) mountless_env"
    by (simp add: rely_def free_le_def mountless_env_def file_env_def calm_env_def)
  from failed_create_unregisters [OF x run [unfolded failing_create_def]]
  show ?thesis by (simp add: run key pm_Get_def)
qed

subsection \<open>An exec that is registered while its container is deleted\<close>

text \<open>
  C25: an exec that cannot be set up is not left registered. Whatever step of adding an exec fails after its
  id was claimed, the exec is gone from its container's table when the request returns; and when the
  container is already being deleted, the request fails with a failed precondition without having
  created anything outside, so that the delete's sweep over the execs and this check cannot both
  miss it.
\<close>

theorem failed_exec_unregisters:
  assumes "run_state (exec_registered x p e) s = (ret, s')"
  shows "(is_err ret \<longrightarrow> pm_Get (i_execs (sh_inits s' (ip_addr p))) (ep_execID e) = None)
       \<and> (rely lifecycle_le x \<and> ip_addr p < sh_next s \<and> p_deleting (sh_procs s (ip_addr p)) \<longrightarrow>
            ret = Inl ErrFailedPrecondition \<and> sh_calls s' = sh_calls s)"
proof
  have un: "wp (unregister_exec x p e) (\<lambda>_ s'. pm_Get (i_execs (sh_inits s' (ip_addr p))) (ep_execID e) = None) t" for t
    by (simp add: unregister_exec_def units_Delete_def execs_Delete_def wp_simps pm.get_del)
  have "wp (exec_registered x p e) (\<lambda>ret s'. is_err ret \<longrightarrow>
      pm_Get (i_execs (sh_inits s' (ip_addr p))) (ep_execID e) = None) s"
    unfolding exec_registered_def
    by ((rule wp_intros | rule wp_mono [OF un] | rule wp_mono [OF wp_True] | (simp; fail))+)
  from wpD [OF this assms]
  show "is_err ret \<longrightarrow> pm_Get (i_execs (sh_inits s' (ip_addr p))) (ep_execID e) = None" .
  show "rely lifecycle_le x \<and> ip_addr p < sh_next s \<and> p_deleting (sh_procs s (ip_addr p)) \<longrightarrow>
            ret = Inl ErrFailedPrecondition \<and> sh_calls s' = sh_calls s"
  proof (intro impI, elim conjE)
    assume x: "rely lifecycle_le x" and "ip_addr p < sh_next s" "p_deleting (sh_procs s (ip_addr p))"
    then have m: "marked (ip_addr p) s" by (simp add: marked_def)
    have keep: "marked (ip_addr p) (interfere x t)" if "marked (ip_addr p) t" for t
      using that x stables(2) [of "ip_addr p"] lo.R_calls unfolding stable_def rely_def interfere_def by blast
    have "wp (exec_registered x p e) (\<lambda>ret s'. ret = Inl ErrFailedPrecondition \<and> sh_calls s' = sh_calls s) s"
      unfolding exec_registered_def
    proof (rule wp_intros, rule wp_mono [OF wp_conj [OF stable_wp [OF stables(2) lo_tables(3) [OF x] m] silent_wp]])
      show "only (\<lambda>_. False) (units_Add x (ExecP e))" by (simp add: units_Add_def only_atomic)
      fix t :: "'a shim"
      assume "marked (ip_addr p) t \<and> sh_calls t = sh_calls s"
      with keep [of t] show "wp (reading x (ip_addr p) isDeleting \<bind> (\<lambda>del.
          if del then unregister_exec x p e \<bind> (\<lambda>_. return_go (Inl ErrFailedPrecondition))
          else exec_Create x e \<bind> (\<lambda>er. case er of
              None \<Rightarrow> events_Send x (ep_addr e) (TaskExecAdded (c_id (ip_conf p)) (ep_execID e)) \<bind> (\<lambda>_. return_go (Inr ()))
            | Some err \<Rightarrow> unregister_exec x p e \<bind> (\<lambda>_. return_go (Inl err)))))
          (\<lambda>ret s'. ret = Inl ErrFailedPrecondition \<and> sh_calls s' = sh_calls s) t"
        by (simp add: wp_simps reading_def isDeleting_def marked_def unregister_exec_def units_Delete_def execs_Delete_def)
    qed
    from wpD [OF this assms] show "ret = Inl ErrFailedPrecondition \<and> sh_calls s' = sh_calls s" .
  qed
qed

theorem failed_exec_unregisters_witness:
  "fst (run_state (exec_registered calm_env demo_init demo_exec) (demo_shim deleting_process (blank_process ''ns'')))
     = Inl ErrFailedPrecondition
   \<and> pm_Get (i_execs (sh_inits (snd (run_state (exec_registered calm_env demo_init demo_exec)
       (demo_shim deleting_process (blank_process ''ns'')))) 0)) ''e'' = None"
proof -
  let ?m = "exec_registered calm_env demo_init demo_exec" and ?s = "demo_shim deleting_process (blank_process ''ns'')"
  obtain ret s' where run: "run_state ?m ?s = (ret, s')" by fastforce
  from failed_exec_unregisters [OF run] calm_rely have "ret = Inl ErrFailedPrecondition" by simp
  with failed_exec_unregisters [OF run] run show ?thesis by (simp add: blank_exec_def)
qed

end
