(* ===== verification/Handlers.thy ===== *)
theory Handlers
  imports Create
begin

text \<open>
  The remaining handlers of the task service (\<open>manager.go\<close>, \<open>state.go\<close>, \<open>wait.go\<close>, \<open>pty.go\<close>) with the
  methods of \<open>initProcess\<close> they call (\<open>process.go\<close>), and the construction of the service.
  The namespace of a request is an argument: \<open>Inl\<close> when the request's context has none. The wrapping of
  a returned error into a status, logging and tracing are not modelled.
\<close>

subsection \<open>Finding the process of a request\<close>

text \<open>The beginning every handler shares: the namespace, the task, and the exec if one is named.\<close>

definition find_task :: "'w env \<Rightarrow> string result \<Rightarrow> string \<Rightarrow> ('w, init_ptr result) go" where
  "find_task x ns_req ID = (case ns_req of
     Inl e \<Rightarrow> return_go (Inl e)
   | Inr ns \<Rightarrow> do {
       q \<leftarrow> processes_Get x ns ID;
       return_go (case q of None \<Rightarrow> Inl ErrNotFound | Some p \<Rightarrow> Inr p) })"

definition find_process :: "'w env \<Rightarrow> string result \<Rightarrow> string \<Rightarrow> string \<Rightarrow> ('w, ptr result) go" where
  "find_process x ns_req ID ExecID = try_go (find_task x ns_req ID) (\<lambda>p.
     if ExecID \<noteq> '''' then do {
       ep \<leftarrow> execs_Get x p ExecID;
       return_go (case ep of None \<Rightarrow> Inl ErrNotFound | Some e \<Rightarrow> Inr (ExecP e)) }
     else return_go (Inr (InitP p)))"

definition ok_or :: "('w, err option) go \<Rightarrow> ('w, unit result) go" where
  "ok_or m = check_go m (return_go (Inr ()))"

subsection \<open>Methods of \<open>initProcess\<close>\<close>

definition init_Pause :: "'w env \<Rightarrow> ctx \<Rightarrow> init_ptr \<Rightarrow> ('w, err option) go" where
  "init_Pause x c p = callE x (RuncPause c (c_runc (ip_conf p)) (c_id (ip_conf p)))"

definition init_Resume :: "'w env \<Rightarrow> ctx \<Rightarrow> init_ptr \<Rightarrow> ('w, err option) go" where
  "init_Resume x c p = callE x (RuncResume c (c_runc (ip_conf p)) (c_id (ip_conf p)))"

definition init_Pids :: "'w env \<Rightarrow> ctx \<Rightarrow> init_ptr \<Rightarrow> ('w, u32 list result) go" where
  "init_Pids x c p = try_go (callPids x (RuncPs c (c_runc (ip_conf p)) (c_id (ip_conf p))))
     (\<lambda>ls. return_go (Inr (map word_of_int ls)))"

definition init_Update :: "'w env \<Rightarrow> ctx \<Rightarrow> init_ptr \<Rightarrow> string \<Rightarrow> ('w, err option) go" where
  "init_Update x c p res = callE x (RuncUpdate c (c_runc (ip_conf p)) (c_id (ip_conf p)) res)"

text \<open>The options of a checkpoint and whether the task is to exit.\<close>

definition blank_checkpoint :: checkpoint_opts where
  "blank_checkpoint = \<lparr>ck_AllowOpenTCP = False, ck_AllowExternalUnixSockets = False, ck_AllowTerminal = False,
     ck_FileLocks = False, ck_EmptyNamespaces = [], ck_Cgroups = '''', ck_ImagePath = '''', ck_WorkDir = ''''\<rparr>"

definition checkpoint_options :: "'w env \<Rightarrow> anypb option \<Rightarrow> (checkpoint_opts \<times> bool) result" where
  "checkpoint_options x r = (case r of
     None \<Rightarrow> Inr (blank_checkpoint, False)
   | Some v \<Rightarrow> rbind (e_typeurl x v) (\<lambda>m. case m of
       CheckpointOptions vv \<Rightarrow> Inr (\<lparr>ck_AllowOpenTCP = cko_OpenTcp vv,
         ck_AllowExternalUnixSockets = cko_ExternalUnixSockets vv, ck_AllowTerminal = cko_Terminal vv,
         ck_FileLocks = cko_FileLocks vv, ck_EmptyNamespaces = cko_EmptyNamespaces vv, ck_Cgroups = cko_CgroupsMode vv,
         ck_ImagePath = cko_ImagePath vv, ck_WorkDir = cko_WorkPath vv\<rparr>, cko_Exit vv)
     | _ \<Rightarrow> Inl ErrInvalidArgument))"

text \<open>The last argument of the call says whether the task is left running.\<close>

definition init_Checkpoint :: "'w env \<Rightarrow> ctx \<Rightarrow> init_ptr \<Rightarrow> anypb option \<Rightarrow> ('w, unit result) go" where
  "init_Checkpoint x c p r = (case checkpoint_options x r of
     Inl e \<Rightarrow> return_go (Inl e)
   | Inr (opts, exit) \<Rightarrow>
       try_go (if ck_WorkDir opts = '''' then do {
                 let workDir = path_Join [c_root (ip_conf p), ''criu-work''];
                 check_go (callE x (MkdirAll workDir)) (return_go (Inr (opts\<lparr>ck_WorkDir := workDir\<rparr>))) }
               else return_go (Inr opts)) (\<lambda>opts. do {
         e \<leftarrow> callE x (RuncCheckpoint c (c_runc (ip_conf p)) (c_id (ip_conf p)) opts (\<not> exit));
         case e of
           None \<Rightarrow> return_go (Inr ())
         | Some err \<Rightarrow> do {
             when_go (rc_Debug (c_runc (ip_conf p))) (ignore (callS x (ReadFile (path_Join [ck_WorkDir opts, ''dump.log'']))));
             return_go (Inl err) } }))"

subsection \<open>State of a process\<close>

record State_info =
  st_State :: pState
  st_Bundle :: string
  st_ID :: string
  st_Stdin :: string
  st_Stdout :: string
  st_Stderr :: string
  st_Terminal :: bool

definition init_State :: "'w env \<Rightarrow> init_ptr \<Rightarrow> ('w, State_info) go" where
  "init_State x p = do {
     term \<leftarrow> reading x (ip_addr p) p_Terminal;
     st \<leftarrow> reading x (ip_addr p) (\<lambda>pr. CopyTo (p_state pr) pState_zero);
     return_go \<lparr>st_State = st, st_Bundle = ip_Bundle p, st_ID = c_id (ip_conf p), st_Stdin = c_Stdin (ip_conf p),
       st_Stdout = c_Stdout (ip_conf p), st_Stderr = c_Stderr (ip_conf p), st_Terminal = term\<rparr> }"

definition exec_State :: "'w env \<Rightarrow> exec_ptr \<Rightarrow> ('w, State_info) go" where
  "exec_State x p = do {
     term \<leftarrow> reading x (ep_addr p) p_Terminal;
     (st, beforeRunning) \<leftarrow> reading x (ep_addr p) (\<lambda>pr. (CopyTo (p_state pr) pState_zero, p_phase pr < phaseRunning));
     initDied \<leftarrow> (if Status st = exitedInit
       then do { ps \<leftarrow> reading x (ip_addr (ep_parent p)) ProcessState; return_go (Exited ps) }
       else return_go False);
     let st = (if initDied \<or> (beforeRunning \<and> \<not> Exited st)
               then st\<lparr>Status := ''created'', ExitCode := 0, ExitedAt := timeZero\<rparr> else st);
     return_go \<lparr>st_State = st, st_Bundle = ip_Bundle (ep_parent p), st_ID = c_id (ep_conf p), st_Stdin = c_Stdin (ep_conf p),
       st_Stdout = c_Stdout (ep_conf p), st_Stderr = c_Stderr (ep_conf p), st_Terminal = term\<rparr> }"

fun ptr_State :: "'w env \<Rightarrow> ptr \<Rightarrow> ('w, State_info) go" where
  "ptr_State x (InitP p) = init_State x p"
| "ptr_State x (ExecP p) = exec_State x p"

subsection \<open>The handlers\<close>

record StateResponse =
  sr_ID :: string
  sr_ExecID :: string
  sr_Bundle :: string
  sr_Pid :: u32
  sr_ExitStatus :: u32
  sr_ExitedAt :: time
  sr_Status :: task_status
  sr_Stdin :: string
  sr_Stdout :: string
  sr_Stderr :: string
  sr_Terminal :: bool

definition Service_State :: "'w env \<Rightarrow> string result \<Rightarrow> string \<Rightarrow> string \<Rightarrow> ('w, StateResponse result) go" where
  "Service_State x ns_req ID ExecID = try_go (find_process x ns_req ID ExecID) (\<lambda>q. do {
     st \<leftarrow> ptr_State x q;
     return_go (Inr \<lparr>sr_ID = ID, sr_ExecID = ExecID, sr_Bundle = st_Bundle st, sr_Pid = Pid (st_State st),
       sr_ExitStatus = ExitCode (st_State st), sr_ExitedAt = ExitedAt (st_State st), sr_Status = toStatus (Status (st_State st)),
       sr_Stdin = st_Stdin st, sr_Stdout = st_Stdout st, sr_Stderr = st_Stderr st, sr_Terminal = st_Terminal st\<rparr>) })"

definition Service_Pause :: "'w env \<Rightarrow> ctx \<Rightarrow> string result \<Rightarrow> string \<Rightarrow> ('w, unit result) go" where
  "Service_Pause x c ns_req ID = try_go (find_task x ns_req ID) (\<lambda>p. ok_or (init_Pause x c p))"

definition Service_Resume :: "'w env \<Rightarrow> ctx \<Rightarrow> string result \<Rightarrow> string \<Rightarrow> ('w, unit result) go" where
  "Service_Resume x c ns_req ID = try_go (find_task x ns_req ID) (\<lambda>p. ok_or (init_Resume x c p))"

definition Service_Kill ::
  "'w env \<Rightarrow> ctx \<Rightarrow> string result \<Rightarrow> string \<Rightarrow> string \<Rightarrow> u32 \<Rightarrow> bool \<Rightarrow> ('w, unit result) go" where
  "Service_Kill x c ns_req ID ExecID Signal all =
     try_go (find_process x ns_req ID ExecID) (\<lambda>q. ok_or (Kill x c q (uint Signal) all))"

definition Service_Pids :: "'w env \<Rightarrow> ctx \<Rightarrow> string result \<Rightarrow> string \<Rightarrow> ('w, u32 list result) go" where
  "Service_Pids x c ns_req ID = try_go (find_task x ns_req ID) (\<lambda>p. init_Pids x c p)"

definition Service_Checkpoint :: "'w env \<Rightarrow> ctx \<Rightarrow> string result \<Rightarrow> string \<Rightarrow> anypb option \<Rightarrow> ('w, unit result) go" where
  "Service_Checkpoint x c ns_req ID opts = try_go (find_task x ns_req ID) (\<lambda>p. init_Checkpoint x c p opts)"

text \<open>The process ids of task and shim, and the version, which the service leaves empty.\<close>

definition Service_Connect :: "'w env \<Rightarrow> string result \<Rightarrow> string \<Rightarrow> int \<Rightarrow> ('w, (u32 \<times> u32 \<times> string) result) go" where
  "Service_Connect x ns_req ID getpid = try_go (find_task x ns_req ID) (\<lambda>p. do {
     pid \<leftarrow> reading x (ip_addr p) process_Pid;
     return_go (Inr (pid, word_of_int getpid, '''')) })"

definition Service_Shutdown :: "('w, unit result) go" where
  "Service_Shutdown = return_go (Inr ())"

definition Service_CloseIO :: "('w, unit result) go" where
  "Service_CloseIO = return_go (Inr ())"

definition Service_Cleanup :: "('w, DeleteResponse result) go" where
  "Service_Cleanup = return_go (Inr \<lparr>dr_Pid = 0, dr_ExitStatus = 0, dr_ExitedAt = go_zero_time\<rparr>)"

text \<open>Reading the statistics of the task's control group and encoding them is one call here.\<close>

definition Service_Stats :: "'w env \<Rightarrow> string result \<Rightarrow> string \<Rightarrow> ('w, string result) go" where
  "Service_Stats x ns_req ID = try_go (find_task x ns_req ID) (\<lambda>p. do {
     pid \<leftarrow> reading x (ip_addr p) process_Pid;
     callS x (CgroupStats pid) })"

text \<open>\<open>json_resources\<close> is the JSON decoding of the request's resources.\<close>

definition Service_Update ::
  "'w env \<Rightarrow> (string \<Rightarrow> string result) \<Rightarrow> ctx \<Rightarrow> string result \<Rightarrow> string \<Rightarrow> anypb option \<Rightarrow> ('w, unit result) go" where
  "Service_Update x json_resources c ns_req ID resources = try_go (find_task x ns_req ID) (\<lambda>p.
     case resources of
       None \<Rightarrow> return_go (Inl (Panic ''nil pointer dereference''))
     | Some v \<Rightarrow> (case json_resources (any_Value v) of
         Inl e \<Rightarrow> return_go (Inl e)
       | Inr res \<Rightarrow> ok_or (init_Update x c p res)))"

text \<open>An exec id that is not registered yields a nil interface value, and the method call on it panics.\<close>

definition Service_ResizePty ::
  "'w env \<Rightarrow> ctx \<Rightarrow> string result \<Rightarrow> string \<Rightarrow> string \<Rightarrow> u32 \<Rightarrow> u32 \<Rightarrow> ('w, unit result) go" where
  "Service_ResizePty x c ns_req ID ExecID width height = try_go (find_task x ns_req ID) (\<lambda>p.
     if ExecID \<noteq> '''' then do {
       ep \<leftarrow> execs_Get x p ExecID;
       case ep of
         None \<Rightarrow> return_go (Inl (Panic ''nil pointer dereference''))
       | Some e \<Rightarrow> ok_or (ResizePTY x c (ExecP e) (uint width) (uint height)) }
     else ok_or (ResizePTY x c (InitP p) (uint width) (uint height)))"

record WaitResponse =
  wr_ExitedAt :: time
  wr_ExitStatus :: u32

definition wait_load :: "'w env \<Rightarrow> ctx \<Rightarrow> ptr \<Rightarrow> ('w, unit) go" where
  "wait_load x c q = do {
     ignore (LoadState x c q);
     st \<leftarrow> reading x (ptr_addr q) ProcessState;
     pid \<leftarrow> reading x (ptr_addr q) process_Pid;
     when_go (\<not> Exited st \<and> pid > 0) (ignore (LoadExitState x c q)) }"

text \<open>The answer for the state the wait ended with; a state without an exit time is completed from the unit.\<close>

definition wait_answer :: "'w env \<Rightarrow> ctx \<Rightarrow> ptr \<Rightarrow> pState \<Rightarrow> ('w, WaitResponse) go" where
  "wait_answer x c q st = do {
     st \<leftarrow> (if \<not> After (ExitedAt st) timeZero then do {
              g \<leftarrow> unit_state x c (Name q) st;
              return_go (case g of Inl _ \<Rightarrow> st | Inr st' \<Rightarrow> st') }
            else return_go st);
     return_go \<lparr>wr_ExitedAt = ExitedAt st, wr_ExitStatus = ExitCode st\<rparr> }"

definition Service_Wait ::
  "'w env \<Rightarrow> ctx \<Rightarrow> string result \<Rightarrow> string \<Rightarrow> string \<Rightarrow> nat \<Rightarrow> ('w, WaitResponse result option) go" where
  "Service_Wait x c ns_req ID ExecID n = do {
     f \<leftarrow> find_process x ns_req ID ExecID;
     case f of
       Inl e \<Rightarrow> return_go (Some (Inl e))
     | Inr q \<Rightarrow> do {
         wait_load x c q;
         w \<leftarrow> waitForExit x c (ptr_addr q) n;
         case w of
           None \<Rightarrow> return_go None
         | Some r \<Rightarrow> (case r of
             Inl e \<Rightarrow> return_go (Some (Inl e))
           | Inr st \<Rightarrow> do { resp \<leftarrow> wait_answer x c q st; return_go (Some (Inr resp)) }) } }"

subsection \<open>Construction of the service\<close>

record Config =
  cfg_Root :: string
  cfg_LogMode :: string
  cfg_NoNewNamespace :: bool

definition newServiceWithConfig ::
  "'w env \<Rightarrow> Config \<Rightarrow> bool \<Rightarrow> string \<Rightarrow> string \<Rightarrow> bool \<Rightarrow> ('w, service_conf result) go" where
  "newServiceWithConfig x cfg pinned runcBin exe debug =
     check_go (callE x (MkdirAll (path_Join [cfg_Root cfg, ''runc''])))
       (return_go (Inr \<lparr>sv_root = cfg_Root cfg, sv_runcBin = runcBin, sv_debug = debug,
          sv_noNewNamespace = cfg_NoNewNamespace cfg, sv_exe = exe, sv_pinned = pinned,
          sv_defaultLogMode = cfg_LogMode cfg\<rparr>))"

text \<open>
  \<open>New\<close> dials systemd's private bus and the message bus; only the first is fatal. \<open>executable\<close> is the outcome
  of \<open>os.Executable\<close>, \<open>arg0\<close> the first argument of the process.
\<close>

definition New ::
  "'w env \<Rightarrow> Config \<Rightarrow> string result \<Rightarrow> string \<Rightarrow> bool \<Rightarrow> ('w, service_conf result) go" where
  "New x cfg executable arg0 debug = check_go (callE x DialSystemd) (do {
     r \<leftarrow> callS x (LookPath ''runc'');
     case r of
       Inl e \<Rightarrow> do { ignore (callE x CloseSystemdConn); return_go (Inl e) }
     | Inr runcPath \<Rightarrow> do {
         pin \<leftarrow> callE x DialMessageBus;
         s \<leftarrow> newServiceWithConfig x cfg (pin = None) runcPath (case executable of Inl _ \<Rightarrow> arg0 | Inr exe \<Rightarrow> exe) debug;
         case s of
           Inl e \<Rightarrow> do {
             ignore (callE x CloseSystemdConn);
             when_go (pin = None) (ignore (callE x CloseMessageBus));
             return_go (Inl e) }
         | Inr sv \<Rightarrow> return_go (Inr sv) } })"

subsection \<open>What the handlers never undo\<close>

lemma lo_find:
  assumes x: "rely lifecycle_le x"
  shows "guar lifecycle_le (find_task x ns i)" "guar lifecycle_le (find_process x ns i e)"
proof -
  show 1: "guar lifecycle_le (find_task x ns i)"
    unfolding find_task_def by (intro lo_rules lo_tables; simp add: x)
  show "guar lifecycle_le (find_process x ns i e)"
    unfolding find_process_def by (intro lo_rules lo_tables 1; simp add: x)
qed

lemma lo_ok_or: "guar lifecycle_le m \<Longrightarrow> guar lifecycle_le (ok_or m)"
  unfolding ok_or_def by (intro lo_rules)

lemma lo_states: "rely lifecycle_le x \<Longrightarrow> guar lifecycle_le (ptr_State x q)"
  by (cases q) (simp_all add: init_State_def exec_State_def, (intro lo_rules; simp)+)

lemma lo_Kill_ptr: "rely lifecycle_le x \<Longrightarrow> guar lifecycle_le (Kill x c q sig all)"
  by (cases q) (simp_all add: lo_Kill)

lemma lo_simple_handlers:
  assumes x: "rely lifecycle_le x"
  shows "guar lifecycle_le (Service_State x ns i e)" "guar lifecycle_le (Service_Pause x c ns i)"
    "guar lifecycle_le (Service_Resume x c ns i)" "guar lifecycle_le (Service_Kill x c ns i e sig all)"
    "guar lifecycle_le (Service_Pids x c ns i)" "guar lifecycle_le (Service_Checkpoint x c ns i oo)"
    "guar lifecycle_le (Service_Connect x ns i gp)" "guar lifecycle_le (Service_Stats x ns i)"
    "guar lifecycle_le (Service_Update x js c ns i res)" "guar lifecycle_le (Service_ResizePty x c ns i e w h)"
  unfolding Service_State_def Service_Pause_def Service_Resume_def Service_Kill_def Service_Pids_def Service_Checkpoint_def
    Service_Connect_def Service_Stats_def Service_Update_def Service_ResizePty_def init_Pause_def init_Resume_def
    init_Pids_def init_Checkpoint_def init_Update_def
  by (intro lo_rules lo_find lo_ok_or lo_states lo_Kill_ptr lo_tty lo_tables; simp add: x)+

lemma lo_wait_load: "rely lifecycle_le x \<Longrightarrow> guar lifecycle_le (wait_load x c q)"
  unfolding wait_load_def by (intro lo_rules lo_tasks; simp)

lemma lo_Service_Wait: "rely lifecycle_le x \<Longrightarrow> guar lifecycle_le (Service_Wait x c ns i e n)"
  unfolding Service_Wait_def wait_answer_def by (intro lo_rules lo_find lo_wait_load lo_tasks; simp)

subsection \<open>Requests for a task that does not exist\<close>

lemma find_task_unknown:
  assumes "rely (free_le (path_Join [ns, i])) x" and "free_key (path_Join [ns, i]) s"
  shows "wp (find_task x (Inr ns) i) (\<lambda>r s'. r = Inl ErrNotFound \<and> sh_calls s' = sh_calls s) s"
proof -
  have "free_key (path_Join [ns, i]) (interfere x s)"
    using assms by (simp add: rely_def free_le_def interfere_def)
  then show ?thesis by (simp add: find_task_def processes_Get_def wp_simps)
qed

lemma find_process_unknown:
  assumes "rely (free_le (path_Join [ns, i])) x" and "free_key (path_Join [ns, i]) s"
  shows "wp (find_process x (Inr ns) i e) (\<lambda>r s'. r = Inl ErrNotFound \<and> sh_calls s' = sh_calls s) s"
  unfolding find_process_def by (rule wp_intros, rule wp_mono [OF find_task_unknown [OF assms]]) simp

lemma processes_Get_unknown:
  assumes "rely (free_le (path_Join [ns, i])) x" and "free_key (path_Join [ns, i]) s"
  shows "wp (processes_Get x ns i) (\<lambda>r s'. r = None \<and> sh_calls s' = sh_calls s) s"
  using assms by (simp add: processes_Get_def wp_simps rely_def free_le_def interfere_def)

abbreviation refused :: "'a \<Rightarrow> ('w, 'a) go \<Rightarrow> 'w shim \<Rightarrow> bool" where
  "refused r m s \<equiv> wp m (\<lambda>r' s'. r' = r \<and> sh_calls s' = sh_calls s) s"

lemma refused_try: "refused (Inl e) m s \<Longrightarrow> refused (Inl e) (try_go m f) s"
  by (rule wp_intros, erule wp_mono) simp

lemma refusedD: "refused r m s \<Longrightarrow> fst (run_state m s) = r \<and> sh_calls (snd (run_state m s)) = sh_calls s"
  by (simp add: wp_def split: prod.splits)

text \<open>
  C30: requests for an unknown task. When no task is registered under the id and none appears meanwhile, each
  of the handlers that act on a task answers that it was not found, without any call to systemd,
  runc or the file system.
\<close>

theorem unknown_task_not_found:
  assumes "rely (free_le (path_Join [ns, i])) x" and "pm_Get (sh_processes s) (path_Join [ns, i]) = None"
  shows "refused (Inl ErrNotFound) (Service_State x (Inr ns) i e) s \<and> refused (Inl ErrNotFound) (Service_Pause x c (Inr ns) i) s
    \<and> refused (Inl ErrNotFound) (Service_Resume x c (Inr ns) i) s
    \<and> refused (Inl ErrNotFound) (Service_Kill x c (Inr ns) i e sig all) s
    \<and> refused (Inl ErrNotFound) (Service_Pids x c (Inr ns) i) s
    \<and> refused (Inl ErrNotFound) (Service_Checkpoint x c (Inr ns) i oo) s
    \<and> refused (Inl ErrNotFound) (Service_Connect x (Inr ns) i gp) s \<and> refused (Inl ErrNotFound) (Service_Stats x (Inr ns) i) s
    \<and> refused (Inl ErrNotFound) (Service_Update x js c (Inr ns) i res) s
    \<and> refused (Inl ErrNotFound) (Service_ResizePty x c (Inr ns) i e w h) s
    \<and> refused (Some (Inl ErrNotFound)) (Service_Wait x c (Inr ns) i e n) s
    \<and> refused (Some (Inl ErrNotFound)) (Service_Start x c (Inr ns) i e n) s
    \<and> refused (Some (Inl ErrNotFound)) (Service_Delete x c (Inr ns) i e n) s
    \<and> (er_ID er = i \<longrightarrow> refused (Inl ErrNotFound) (Service_Exec x sv (Inr ns) er) s)"
proof -
  note t = refused_try [OF find_task_unknown [OF assms]] and p = refused_try [OF find_process_unknown [OF assms]]
  have g: "refused r (processes_Get x ns i \<bind> (\<lambda>q. case q of None \<Rightarrow> return_go r | Some v \<Rightarrow> f v)) s"
    for r :: "'b" and f :: "init_ptr \<Rightarrow> ('a, 'b) go"
    by (rule wp_intros, rule wp_mono [OF processes_Get_unknown [OF assms]]) (simp add: wp_simps)
  have w: "refused (Some (Inl ErrNotFound)) (Service_Wait x c (Inr ns) i e n) s"
    unfolding Service_Wait_def
    by (rule wp_intros, rule wp_mono [OF find_process_unknown [OF assms]]) (simp add: wp_simps)
  have h: "refused (Some (Inl ErrNotFound)) (Service_Start x c (Inr ns) i e n) s"
    "refused (Some (Inl ErrNotFound)) (Service_Delete x c (Inr ns) i e n) s"
    "er_ID er = i \<longrightarrow> refused (Inl ErrNotFound) (Service_Exec x sv (Inr ns) er) s"
    unfolding Service_Start_def Service_Delete_def Service_Exec_def sum.case by (rule g, rule g, simp add: g)
  show ?thesis
    unfolding Service_State_def Service_Pause_def Service_Resume_def Service_Kill_def Service_Pids_def
      Service_Checkpoint_def Service_Connect_def Service_Stats_def Service_Update_def Service_ResizePty_def
    by (intro conjI t p w h)
qed

theorem unknown_task_not_found_witness:
  "fst (run_state (Service_Delete calm_env ReqCtx (Inr ''ns'') ''d'' '''' 1) demo_idle) = Some (Inl ErrNotFound)
   \<and> sh_calls (snd (run_state (Service_Delete calm_env ReqCtx (Inr ''ns'') ''d'' '''' 1) demo_idle)) = []"
proof -
  have x: "rely (free_le (path_Join [''ns'', ''d''])) calm_env"
    by (simp add: rely_def free_le_def calm_env_def)
  have k: "path_Join [''ns'', ''d''] = ''ns/d''" by code_simp
  have f: "pm_Get (sh_processes demo_idle) (path_Join [''ns'', ''d'']) = None" by (simp add: k pm_Get_def)
  have "refused (Some (Inl ErrNotFound)) (Service_Delete calm_env ReqCtx (Inr ''ns'') ''d'' '''' 1) demo_idle"
    using unknown_task_not_found [OF x f, where c = ReqCtx and e = "''''" and n = 1] by blast
  from refusedD [OF this] show ?thesis by simp
qed

subsection \<open>Waiting\<close>

lemma unit_state_ExitedAt: "wp (unit_state x c nm st) (\<lambda>g _. \<forall>st'. g = Inr st' \<longrightarrow> ExitedAt st' = ExitedAt st) s"
  by (auto simp: unit_state_def wp_simps countState_def callProps_def getUnitState_ExitedAt split: prod.splits)

text \<open>The answer \<open>resp\<close> is the exit recorded for \<open>q\<close>, which has ended.\<close>

definition recorded :: "ptr \<Rightarrow> WaitResponse \<Rightarrow> 'w shim \<Rightarrow> bool" where
  "recorded q resp s \<longleftrightarrow> (let p = sh_procs s (ptr_addr q) in
     resp = \<lparr>wr_ExitedAt = ExitedAt (ProcessState p), wr_ExitStatus = ExitCode (p_state p)\<rparr>
     \<and> (Exited (p_state p) \<or> p_phase p = phaseDeleted))"

lemma wait_answer_recorded:
  assumes "st = ProcessState (sh_procs s (ptr_addr q)) \<and> (Exited st \<or> p_phase (sh_procs s (ptr_addr q)) = phaseDeleted)"
  shows "wp (wait_answer x c q st) (\<lambda>resp s'. 0 < wr_ExitedAt resp \<longrightarrow> recorded q resp s') s"
proof (cases "After (ExitedAt st) timeZero")
  case True
  with assms show ?thesis by (auto simp: wait_answer_def wp_simps recorded_def Let_def)
next
  case False
  have keep: "ExitedAt (case g of Inl _ \<Rightarrow> st | Inr st' \<Rightarrow> st') = ExitedAt st"
    if "\<forall>st'. g = Inr st' \<longrightarrow> ExitedAt st' = ExitedAt st" for g :: "pState result"
    using spec [OF that, of "projr g"] by (cases g) simp_all
  have "wp (unit_state x c (Name q) st) (\<lambda>g _. ExitedAt (case g of Inl _ \<Rightarrow> st | Inr st' \<Rightarrow> st') = ExitedAt st) s"
    by (rule wp_mono [OF unit_state_ExitedAt]) (rule keep)
  then have "wp (unit_state x c (Name q) st) (\<lambda>g _. \<not> 0 < ExitedAt (case g of Inl _ \<Rightarrow> st | Inr st' \<Rightarrow> st')) s"
    by (rule wp_mono) (use False in simp)
  with False show ?thesis by (simp add: wait_answer_def wp_simps) (erule wp_mono, simp add: wp_simps)
qed

lemma waitForExit_Some:
  "wp (waitForExit x c a n) (\<lambda>w s'. case w of Some (Inr st) \<Rightarrow>
       st = ProcessState (sh_procs s' a) \<and> (Exited st \<or> p_phase (sh_procs s' a) = phaseDeleted) | _ \<Rightarrow> True) s"
  by (rule wp_mono [OF waitForExit_result]) (simp split: option.splits sum.splits)

text \<open>The task registered under the key \<open>k\<close> stays registered.\<close>

definition kept_le :: "string \<Rightarrow> 'w shim \<Rightarrow> 'w shim \<Rightarrow> bool" where
  "kept_le k s t \<longleftrightarrow> (pm_Get (sh_processes s) k \<noteq> None \<longrightarrow> pm_Get (sh_processes t) k = pm_Get (sh_processes s) k)"

lemma find_task_known:
  assumes "rely (kept_le (path_Join [ns, i])) x" and "pm_Get (sh_processes s) (path_Join [ns, i]) = Some p"
  shows "wp (find_task x (Inr ns) i) (\<lambda>r s'. r = Inr p) s"
  using assms by (simp add: find_task_def processes_Get_def wp_simps rely_def kept_le_def interfere_def)

lemma find_process_known:
  assumes "rely (kept_le (path_Join [ns, i])) x" and "pm_Get (sh_processes s) (path_Join [ns, i]) = Some p"
  shows "wp (find_process x (Inr ns) i '''') (\<lambda>r s'. r = Inr (InitP p)) s"
  unfolding find_process_def by (rule wp_intros, rule wp_mono [OF find_task_known [OF assms]]) (simp add: wp_simps)

lemma Service_Wait_recorded:
  assumes f: "wp (find_process x ns i e) (\<lambda>r s'. r = Inr q) s"
  shows "wp (Service_Wait x c ns i e n) (\<lambda>r s'. case r of Some (Inr resp) \<Rightarrow> 0 < wr_ExitedAt resp \<longrightarrow> recorded q resp s'
       | _ \<Rightarrow> True) s"
proof -
  have answer: "wp (wait_answer x c q st) (\<lambda>resp s'. 0 < wr_ExitedAt resp \<longrightarrow> recorded q resp s') t"
    if "case w of Some (Inr st) \<Rightarrow>
       st = ProcessState (sh_procs t (ptr_addr q)) \<and> (Exited st \<or> p_phase (sh_procs t (ptr_addr q)) = phaseDeleted)
       | _ \<Rightarrow> True" "w = Some v" "v = Inr st" for w v st t
    by (rule wp_mono [OF wait_answer_recorded]) (use that in auto)
  have tail: "wp (wait_load x c q \<bind> (\<lambda>_. waitForExit x c (ptr_addr q) n \<bind> (\<lambda>w. case w of
         None \<Rightarrow> return_go None
       | Some (Inl e) \<Rightarrow> return_go (Some (Inl e))
       | Some (Inr st) \<Rightarrow> wait_answer x c q st \<bind> (\<lambda>resp. return_go (Some (Inr resp))))))
     (\<lambda>r s'. case r of Some (Inr resp) \<Rightarrow> 0 < wr_ExitedAt resp \<longrightarrow> recorded q resp s' | _ \<Rightarrow> True) t" for t
    by (rule wp_bindI, rule wp_mono [OF wp_True], rule wp_bindI, rule wp_mono [OF waitForExit_Some],
        (rule wp_optionI | rule wp_sumI | rule wp_bindI | rule wp_returnI | (rule wp_mono [OF answer], assumption, assumption, assumption)
         | (simp; fail))+)
  show ?thesis
    unfolding Service_Wait_def
    by (rule wp_bindI, rule wp_mono [OF f]) (simp add: tail)
qed

text \<open>
  C23: what a wait answers. While the task stays registered, a wait for it that answers with an exit time
  answers with exactly the exit time and the exit code recorded for the task at the moment it returns,
  and the task has then exited or been deleted.
\<close>

theorem wait_answers_recorded_exit:
  assumes "rely (kept_le (path_Join [ns, i])) x" and "pm_Get (sh_processes s) (path_Join [ns, i]) = Some p"
    and "run_state (Service_Wait x c (Inr ns) i '''' n) s = (Some (Inr resp), s')" and "0 < wr_ExitedAt resp"
  shows "resp = \<lparr>wr_ExitedAt = ExitedAt (ProcessState (sh_procs s' (ip_addr p))),
                 wr_ExitStatus = ExitCode (p_state (sh_procs s' (ip_addr p)))\<rparr>
       \<and> (Exited (p_state (sh_procs s' (ip_addr p))) \<or> p_phase (sh_procs s' (ip_addr p)) = phaseDeleted)"
  using wpD [OF Service_Wait_recorded [OF find_process_known [OF assms(1,2)]] assms(3)] assms(4)
  by (simp add: recorded_def Let_def)

lemma calm_atomic: "run_state (atomic calm_env f) s = (case f s of (r, s') \<Rightarrow> (r, s'\<lparr>sh_calls := sh_calls s\<rparr>))"
  by (simp add: atomic_def)

lemma demo_key: "path_Join [''ns'', ''c''] = ''ns/c''"
  by code_simp

lemma calm_wait:
  "fst (run_state (Service_Wait calm_env ReqCtx (Inr ''ns'') ''c'' '''' 1) (demo_shim exited_process (blank_process ''ns'')))
     = Some (Inr \<lparr>wr_ExitedAt = ExitedAt exit_obs, wr_ExitStatus = ExitCode exit_obs\<rparr>)"
  by (simp add: Service_Wait_def find_process_def find_task_def processes_Get_def wait_load_def init_LoadState_def
      init_readExitState_def readExitState_def unit_state_def countState_def ignore_def when_go_def try_go_def wait_answer_def
      calm_runs calm_atomic demo_key pm_Get_def getUnitState_def ProcessState_def CopyTo_zero process_Pid_def Exited_iff)

theorem wait_answers_recorded_exit_witness:
  "\<exists>resp. fst (run_state (Service_Wait calm_env ReqCtx (Inr ''ns'') ''c'' '''' 1) (demo_shim exited_process (blank_process ''ns'')))
       = Some (Inr resp)
     \<and> resp = \<lparr>wr_ExitedAt = ExitedAt (ProcessState (sh_procs (snd (run_state (Service_Wait calm_env ReqCtx (Inr ''ns'') ''c'' '''' 1)
                 (demo_shim exited_process (blank_process ''ns'')))) 0)),
               wr_ExitStatus = ExitCode (p_state (sh_procs (snd (run_state (Service_Wait calm_env ReqCtx (Inr ''ns'') ''c'' '''' 1)
                 (demo_shim exited_process (blank_process ''ns'')))) 0))\<rparr>"
proof -
  let ?m = "Service_Wait calm_env ReqCtx (Inr ''ns'') ''c'' '''' 1" and ?s = "demo_shim exited_process (blank_process ''ns'')"
  let ?resp = "\<lparr>wr_ExitedAt = ExitedAt exit_obs, wr_ExitStatus = ExitCode exit_obs\<rparr>"
  obtain s' where run: "run_state ?m ?s = (Some (Inr ?resp), s')" using calm_wait by (metis prod.collapse)
  have x: "rely (kept_le (path_Join [''ns'', ''c''])) calm_env" by (simp add: rely_def kept_le_def calm_env_def)
  have "pm_Get (sh_processes ?s) (path_Join [''ns'', ''c'']) = Some demo_init" by (simp add: demo_key pm_Get_def)
  from wait_answers_recorded_exit [OF x this run] run show ?thesis by simp
qed

subsection \<open>Signals\<close>

text \<open>
  Signals. A kill of a task sends nothing, and says why, when the task has no pid or has exited; otherwise it asks systemd
  exactly once to send the signal, to the main process or to all processes of the unit as requested, and
  it succeeds only if that request was its only call. A failed request is reported as an error, after
  asking runc and systemd whether the task still exists.
\<close>

theorem kill_sends_once:
  assumes "run_state (init_Kill x c p sig all) s = (r, s')"
  shows "(sh_calls s' = sh_calls s \<and> (r = Some ErrFailedPrecondition \<or> r = Some ErrNotFound))
       \<or> trace s s' [one (KillUnitWithTarget c (init_Name p) (if all then KillAll else KillMain) (word_of_int sig))]
          \<and> (r = None \<or> r = Some ErrNotFound)
       \<or> trace s s' [one (KillUnitWithTarget c (init_Name p) (if all then KillAll else KillMain) (word_of_int sig)),
                     one (RuncState c (c_runc (ip_conf p)) (c_id (ip_conf p))),
                     many (\<lambda>k. k = ListUnitsByNames c [init_Name p])] \<and> r \<noteq> None"
proof -
  let ?k = "KillUnitWithTarget c (init_Name p) (if all then KillAll else KillMain) (word_of_int sig)"
  let ?q = "RuncState c (c_runc (ip_conf p)) (c_id (ip_conf p))"
  let ?l = "many (\<lambda>k. k = ListUnitsByNames c [init_Name p])"
  let ?Q = "\<lambda>r s'. (trace s s' [] \<and> (r = Some ErrFailedPrecondition \<or> r = Some ErrNotFound))
       \<or> trace s s' [one ?k] \<and> (r = None \<or> r = Some ErrNotFound) \<or> trace s s' [one ?k, one ?q, ?l] \<and> r \<noteq> None"
  have nil: "trace s t Ts \<Longrightarrow> trace s t (Ts @ [?l])" for t Ts
    using trace_merge [of s t Ts "[]" "[]" "\<lambda>k. k = ListUnitsByNames c [init_Name p]"] by simp
  have listed: "wp (callList x (ListUnitsByNames c [init_Name p])) (\<lambda>_ t. trace s t [one ?k, one ?q, ?l]) t"
    if "trace s t [one ?k, one ?q]" for t
    by (rule tr_only [of "\<lambda>k. k = ListUnitsByNames c [init_Name p]", OF _ that]) (intro only_rules, simp, simp)
  have "wp (init_Kill x c p sig all) ?Q s"
    unfolding init_Kill_def Let_def
    by (rule wp_intros, rule tr_silents(5), rule trace_refl,
        (rule wp_bindI | rule wp_ifI | rule wp_optionI | rule wp_sumI | rule wp_returnI
         | (rule wp_mono [OF listed], simp; fail) | (rule wp_mono [OF listed], simp)
         | (rule tr_silents(5), assumption) | (rule tr_calls(1), assumption)
         | (simp; fail) | (drule nil, simp; fail))+)
  from wpD [OF this assms] show ?thesis by (simp add: trace_def)
qed

theorem kill_sends_once_witness:
  "fst (run_state (init_Kill calm_env ReqCtx demo_init 15 False) (demo_shim running_process (blank_process ''ns''))) = None
   \<and> trace (demo_shim running_process (blank_process ''ns''))
        (snd (run_state (init_Kill calm_env ReqCtx demo_init 15 False) (demo_shim running_process (blank_process ''ns''))))
        [one (KillUnitWithTarget ReqCtx (init_Name demo_init) KillMain 15)]"
proof -
  let ?m = "init_Kill calm_env ReqCtx demo_init 15 False" and ?s = "demo_shim running_process (blank_process ''ns'')"
  have "fst (run_state ?m ?s) = None"
    by (simp add: init_Kill_def calm_runs process_Pid_def ProcessState_def CopyTo_zero Exited_iff)
  then obtain s' where run: "run_state ?m ?s = (None, s')" by (metis prod.collapse)
  from kill_sends_once [OF run] run show ?thesis by simp
qed

end
