(* ===== verification/Api.thy ===== *)
theory Api
  imports Handlers
begin

text \<open>
  The task service as clients see it: the interface of version 3 that \<open>Service\<close> implements, the requests of
  both API versions, and the adapter that answers version 2 clients (\<open>service_v2.go\<close>, registered in \<open>service.go\<close>).
\<close>

subsection \<open>The interface\<close>

text \<open>
  \<open>TTRPCTaskService\<close> of version 3, one field per method. Methods that may wait have an optional result:
  \<open>None\<close> is a call that has not returned.
\<close>

record 'w TTRPCTaskService =
  ts_State :: "string \<Rightarrow> string \<Rightarrow> ('w, StateResponse result) go"
  ts_Create :: "CreateTaskRequest \<Rightarrow> ('w, u32 result option) go"
  ts_Start :: "string \<Rightarrow> string \<Rightarrow> ('w, u32 result option) go"
  ts_Delete :: "string \<Rightarrow> string \<Rightarrow> ('w, DeleteResponse result option) go"
  ts_Pids :: "string \<Rightarrow> ('w, u32 list result) go"
  ts_Pause :: "string \<Rightarrow> ('w, unit result) go"
  ts_Resume :: "string \<Rightarrow> ('w, unit result) go"
  ts_Checkpoint :: "string \<Rightarrow> string \<Rightarrow> anypb option \<Rightarrow> ('w, unit result) go"
  ts_Kill :: "string \<Rightarrow> string \<Rightarrow> u32 \<Rightarrow> bool \<Rightarrow> ('w, unit result) go"
  ts_Exec :: "ExecProcessRequest \<Rightarrow> ('w, unit result) go"
  ts_ResizePty :: "string \<Rightarrow> string \<Rightarrow> u32 \<Rightarrow> u32 \<Rightarrow> ('w, unit result) go"
  ts_CloseIO :: "string \<Rightarrow> string \<Rightarrow> bool \<Rightarrow> ('w, unit result) go"
  ts_Update :: "string \<Rightarrow> anypb option \<Rightarrow> (string \<times> string) list \<Rightarrow> ('w, unit result) go"
  ts_Wait :: "string \<Rightarrow> string \<Rightarrow> ('w, WaitResponse result option) go"
  ts_Stats :: "string \<Rightarrow> ('w, string result) go"
  ts_Connect :: "string \<Rightarrow> ('w, (u32 \<times> u32 \<times> string) result) go"
  ts_Shutdown :: "string \<Rightarrow> bool \<Rightarrow> ('w, unit result) go"

text \<open>
  The service behind it: \<open>ns\<close> is the namespace of the request's context, \<open>js\<close> the JSON decoding of resources, \<open>pid\<close> the
  shim's own process id, \<open>n\<close> the fuel of the methods that wait.
\<close>

definition Service_TTRPC ::
  "'w env \<Rightarrow> service_conf \<Rightarrow> (string \<Rightarrow> string result) \<Rightarrow> int \<Rightarrow> ctx \<Rightarrow> string result \<Rightarrow> nat \<Rightarrow> 'w TTRPCTaskService" where
  "Service_TTRPC x sv js pid c ns n =
     \<lparr>ts_State = Service_State x ns, ts_Create = (\<lambda>r. Service_Create x sv c ns r n), ts_Start = (\<lambda>i e. Service_Start x c ns i e n),
      ts_Delete = (\<lambda>i e. Service_Delete x c ns i e n), ts_Pids = Service_Pids x c ns, ts_Pause = Service_Pause x c ns,
      ts_Resume = Service_Resume x c ns, ts_Checkpoint = (\<lambda>i _ opts. Service_Checkpoint x c ns i opts),
      ts_Kill = Service_Kill x c ns, ts_Exec = Service_Exec x sv ns, ts_ResizePty = Service_ResizePty x c ns,
      ts_CloseIO = (\<lambda>_ _ _. Service_CloseIO), ts_Update = (\<lambda>i res _. Service_Update x js c ns i res),
      ts_Wait = (\<lambda>i e. Service_Wait x c ns i e n), ts_Stats = Service_Stats x ns, ts_Connect = (\<lambda>i. Service_Connect x ns i pid),
      ts_Shutdown = (\<lambda>_ _. Service_Shutdown)\<rparr>"

subsection \<open>Version 3 requests\<close>

datatype v3_request =
    V3State string string
  | V3Create CreateTaskRequest
  | V3Start string string
  | V3Delete string string
  | V3Pids string
  | V3Pause string
  | V3Resume string
  | V3Checkpoint string string "anypb option"
  | V3Kill string string u32 bool
  | V3Exec ExecProcessRequest
  | V3ResizePty string string u32 u32
  | V3CloseIO string string bool
  | V3Update string "anypb option" "(string \<times> string) list"
  | V3Wait string string
  | V3Stats string
  | V3Connect string
  | V3Shutdown string bool

datatype v3_response =
    V3StateResponse StateResponse
  | V3PidResponse u32
  | V3DeleteResponse DeleteResponse
  | V3PidsResponse "u32 list"
  | V3Empty
  | V3WaitResponse WaitResponse
  | V3StatsResponse string
  | V3ConnectResponse u32 u32 string

definition done_with :: "('a \<Rightarrow> 'b) \<Rightarrow> ('w, 'a result) go \<Rightarrow> ('w, 'b result option) go" where
  "done_with f m = do { r \<leftarrow> m; return_go (Some (map_sum id f r)) }"

definition maybe_with :: "('a \<Rightarrow> 'b) \<Rightarrow> ('w, 'a result option) go \<Rightarrow> ('w, 'b result option) go" where
  "maybe_with f m = do { r \<leftarrow> m; return_go (map_option (map_sum id f) r) }"

fun serve_v3 :: "'w TTRPCTaskService \<Rightarrow> v3_request \<Rightarrow> ('w, v3_response result option) go" where
  "serve_v3 s (V3State i e) = done_with V3StateResponse (ts_State s i e)"
| "serve_v3 s (V3Create r) = maybe_with V3PidResponse (ts_Create s r)"
| "serve_v3 s (V3Start i e) = maybe_with V3PidResponse (ts_Start s i e)"
| "serve_v3 s (V3Delete i e) = maybe_with V3DeleteResponse (ts_Delete s i e)"
| "serve_v3 s (V3Pids i) = done_with V3PidsResponse (ts_Pids s i)"
| "serve_v3 s (V3Pause i) = done_with (\<lambda>_. V3Empty) (ts_Pause s i)"
| "serve_v3 s (V3Resume i) = done_with (\<lambda>_. V3Empty) (ts_Resume s i)"
| "serve_v3 s (V3Checkpoint i p oo) = done_with (\<lambda>_. V3Empty) (ts_Checkpoint s i p oo)"
| "serve_v3 s (V3Kill i e sig all) = done_with (\<lambda>_. V3Empty) (ts_Kill s i e sig all)"
| "serve_v3 s (V3Exec r) = done_with (\<lambda>_. V3Empty) (ts_Exec s r)"
| "serve_v3 s (V3ResizePty i e w h) = done_with (\<lambda>_. V3Empty) (ts_ResizePty s i e w h)"
| "serve_v3 s (V3CloseIO i e b) = done_with (\<lambda>_. V3Empty) (ts_CloseIO s i e b)"
| "serve_v3 s (V3Update i res ann) = done_with (\<lambda>_. V3Empty) (ts_Update s i res ann)"
| "serve_v3 s (V3Wait i e) = maybe_with V3WaitResponse (ts_Wait s i e)"
| "serve_v3 s (V3Stats i) = done_with V3StatsResponse (ts_Stats s i)"
| "serve_v3 s (V3Connect i) = done_with (\<lambda>(task, shim, version). V3ConnectResponse task shim version) (ts_Connect s i)"
| "serve_v3 s (V3Shutdown i b) = done_with (\<lambda>_. V3Empty) (ts_Shutdown s i b)"

subsection \<open>Version 2 requests and the adapter\<close>

record v2_CreateTaskRequest =
  c2_ID :: string
  c2_Bundle :: string
  c2_Rootfs :: "task_mount list"
  c2_Terminal :: bool
  c2_Stdin :: string
  c2_Stdout :: string
  c2_Stderr :: string
  c2_Checkpoint :: string
  c2_ParentCheckpoint :: string
  c2_Options :: "anypb option"

record v2_ExecProcessRequest =
  e2_ID :: string
  e2_ExecID :: string
  e2_Terminal :: bool
  e2_Stdin :: string
  e2_Stdout :: string
  e2_Stderr :: string
  e2_Spec :: anypb

text \<open>Time stamps are pointers: \<open>None\<close> is nil.\<close>

record v2_StateResponse =
  s2_ID :: string
  s2_Bundle :: string
  s2_Pid :: u32
  s2_Status :: task_status
  s2_Stdin :: string
  s2_Stdout :: string
  s2_Stderr :: string
  s2_Terminal :: bool
  s2_ExitStatus :: u32
  s2_ExitedAt :: "time option"
  s2_ExecID :: string

datatype v2_request =
    V2State string string
  | V2Create v2_CreateTaskRequest
  | V2Start string string
  | V2Delete string string
  | V2Pids string
  | V2Pause string
  | V2Resume string
  | V2Checkpoint string string "anypb option"
  | V2Kill string string u32 bool
  | V2Exec v2_ExecProcessRequest
  | V2ResizePty string string u32 u32
  | V2CloseIO string string bool
  | V2Update string "anypb option" "(string \<times> string) list"
  | V2Wait string string
  | V2Stats string
  | V2Connect string
  | V2Shutdown string bool

datatype v2_response =
    V2StateResponse v2_StateResponse
  | V2PidResponse u32
  | V2DeleteResponse u32 u32 "time option"
  | V2PidsResponse "u32 list"
  | V2Empty
  | V2WaitResponse u32 "time option"
  | V2StatsResponse "string option"
  | V2ConnectResponse u32 u32 string

text \<open>
  The result of an adapted method: a response and an error. A method that builds its response reads a nil response of
  the service through the getters, which give zero values; a method that only forwards hands nil on.
\<close>

definition built :: "'b \<Rightarrow> ('a \<Rightarrow> 'b) \<Rightarrow> 'a result \<Rightarrow> 'b option \<times> err option" where
  "built zero f r = (case r of Inl e \<Rightarrow> (Some zero, Some e) | Inr v \<Rightarrow> (Some (f v), None))"

definition forwarded :: "unit result \<Rightarrow> v2_response option \<times> err option" where
  "forwarded r = (case r of Inl e \<Rightarrow> (None, Some e) | Inr _ \<Rightarrow> (Some V2Empty, None))"

definition adapted :: "('a \<Rightarrow> 'b) \<Rightarrow> ('w, 'a) go \<Rightarrow> ('w, 'b option) go" where
  "adapted f m = do { r \<leftarrow> m; return_go (Some (f r)) }"

definition adapted_wait :: "('a \<Rightarrow> 'b) \<Rightarrow> ('w, 'a option) go \<Rightarrow> ('w, 'b option) go" where
  "adapted_wait f m = do { r \<leftarrow> m; return_go (map_option f r) }"

fun taskV2Adapter :: "'w TTRPCTaskService \<Rightarrow> v2_request \<Rightarrow> ('w, (v2_response option \<times> err option) option) go" where
  "taskV2Adapter s (V2State i e) = adapted (built
     (V2StateResponse \<lparr>s2_ID = '''', s2_Bundle = '''', s2_Pid = 0, s2_Status = Status_UNKNOWN, s2_Stdin = '''', s2_Stdout = '''',
        s2_Stderr = '''', s2_Terminal = False, s2_ExitStatus = 0, s2_ExitedAt = None, s2_ExecID = ''''\<rparr>)
     (\<lambda>r. V2StateResponse \<lparr>s2_ID = sr_ID r, s2_Bundle = sr_Bundle r, s2_Pid = sr_Pid r, s2_Status = sr_Status r,
        s2_Stdin = sr_Stdin r, s2_Stdout = sr_Stdout r, s2_Stderr = sr_Stderr r, s2_Terminal = sr_Terminal r,
        s2_ExitStatus = sr_ExitStatus r, s2_ExitedAt = Some (sr_ExitedAt r), s2_ExecID = sr_ExecID r\<rparr>))
     (ts_State s i e)"
| "taskV2Adapter s (V2Create r) = adapted_wait (built (V2PidResponse 0) V2PidResponse)
     (ts_Create s \<lparr>cr_ID = c2_ID r, cr_Bundle = c2_Bundle r, cr_Rootfs = c2_Rootfs r, cr_Terminal = c2_Terminal r,
        cr_Stdin = c2_Stdin r, cr_Stdout = c2_Stdout r, cr_Stderr = c2_Stderr r, cr_Checkpoint = c2_Checkpoint r,
        cr_ParentCheckpoint = c2_ParentCheckpoint r, cr_Options = c2_Options r\<rparr>)"
| "taskV2Adapter s (V2Start i e) = adapted_wait (built (V2PidResponse 0) V2PidResponse) (ts_Start s i e)"
| "taskV2Adapter s (V2Delete i e) = adapted_wait (built (V2DeleteResponse 0 0 None)
     (\<lambda>r. V2DeleteResponse (dr_Pid r) (dr_ExitStatus r) (Some (dr_ExitedAt r)))) (ts_Delete s i e)"
| "taskV2Adapter s (V2Pids i) = adapted (built (V2PidsResponse []) V2PidsResponse) (ts_Pids s i)"
| "taskV2Adapter s (V2Pause i) = adapted forwarded (ts_Pause s i)"
| "taskV2Adapter s (V2Resume i) = adapted forwarded (ts_Resume s i)"
| "taskV2Adapter s (V2Checkpoint i p oo) = adapted forwarded (ts_Checkpoint s i p oo)"
| "taskV2Adapter s (V2Kill i e sig all) = adapted forwarded (ts_Kill s i e sig all)"
| "taskV2Adapter s (V2Exec r) = adapted forwarded (ts_Exec s \<lparr>er_ID = e2_ID r, er_ExecID = e2_ExecID r,
     er_Terminal = e2_Terminal r, er_Stdin = e2_Stdin r, er_Stdout = e2_Stdout r, er_Stderr = e2_Stderr r, er_Spec = e2_Spec r\<rparr>)"
| "taskV2Adapter s (V2ResizePty i e w h) = adapted forwarded (ts_ResizePty s i e w h)"
| "taskV2Adapter s (V2CloseIO i e b) = adapted forwarded (ts_CloseIO s i e b)"
| "taskV2Adapter s (V2Update i res ann) = adapted forwarded (ts_Update s i res ann)"
| "taskV2Adapter s (V2Wait i e) = adapted_wait (built (V2WaitResponse 0 None)
     (\<lambda>r. V2WaitResponse (wr_ExitStatus r) (Some (wr_ExitedAt r)))) (ts_Wait s i e)"
| "taskV2Adapter s (V2Stats i) = adapted (built (V2StatsResponse None) (\<lambda>d. V2StatsResponse (Some d))) (ts_Stats s i)"
| "taskV2Adapter s (V2Connect i) = adapted (built (V2ConnectResponse 0 0 '''') (\<lambda>(task, shim, version). V2ConnectResponse shim task version)) (ts_Connect s i)"
| "taskV2Adapter s (V2Shutdown i b) = adapted forwarded (ts_Shutdown s i b)"

subsection \<open>Clients of both versions get the same answers\<close>

text \<open>The same request as a client of version 2 words it, and the answer it reads off a response.\<close>

fun as_v2 :: "v3_request \<Rightarrow> v2_request" where
  "as_v2 (V3State i e) = V2State i e"
| "as_v2 (V3Create r) = V2Create \<lparr>c2_ID = cr_ID r, c2_Bundle = cr_Bundle r, c2_Rootfs = cr_Rootfs r, c2_Terminal = cr_Terminal r,
     c2_Stdin = cr_Stdin r, c2_Stdout = cr_Stdout r, c2_Stderr = cr_Stderr r, c2_Checkpoint = cr_Checkpoint r,
     c2_ParentCheckpoint = cr_ParentCheckpoint r, c2_Options = cr_Options r\<rparr>"
| "as_v2 (V3Start i e) = V2Start i e"
| "as_v2 (V3Delete i e) = V2Delete i e"
| "as_v2 (V3Pids i) = V2Pids i"
| "as_v2 (V3Pause i) = V2Pause i"
| "as_v2 (V3Resume i) = V2Resume i"
| "as_v2 (V3Checkpoint i p oo) = V2Checkpoint i p oo"
| "as_v2 (V3Kill i e sig all) = V2Kill i e sig all"
| "as_v2 (V3Exec r) = V2Exec \<lparr>e2_ID = er_ID r, e2_ExecID = er_ExecID r, e2_Terminal = er_Terminal r, e2_Stdin = er_Stdin r,
     e2_Stdout = er_Stdout r, e2_Stderr = er_Stderr r, e2_Spec = er_Spec r\<rparr>"
| "as_v2 (V3ResizePty i e w h) = V2ResizePty i e w h"
| "as_v2 (V3CloseIO i e b) = V2CloseIO i e b"
| "as_v2 (V3Update i res ann) = V2Update i res ann"
| "as_v2 (V3Wait i e) = V2Wait i e"
| "as_v2 (V3Stats i) = V2Stats i"
| "as_v2 (V3Connect i) = V2Connect i"
| "as_v2 (V3Shutdown i b) = V2Shutdown i b"

fun read_v2 :: "v2_response \<Rightarrow> v3_response" where
  "read_v2 (V2StateResponse r) = V3StateResponse \<lparr>sr_ID = s2_ID r, sr_ExecID = s2_ExecID r, sr_Bundle = s2_Bundle r, sr_Pid = s2_Pid r,
     sr_ExitStatus = s2_ExitStatus r, sr_ExitedAt = the (s2_ExitedAt r), sr_Status = s2_Status r, sr_Stdin = s2_Stdin r,
     sr_Stdout = s2_Stdout r, sr_Stderr = s2_Stderr r, sr_Terminal = s2_Terminal r\<rparr>"
| "read_v2 (V2PidResponse pid) = V3PidResponse pid"
| "read_v2 (V2DeleteResponse pid code t) = V3DeleteResponse \<lparr>dr_Pid = pid, dr_ExitStatus = code, dr_ExitedAt = the t\<rparr>"
| "read_v2 (V2PidsResponse ps) = V3PidsResponse ps"
| "read_v2 V2Empty = V3Empty"
| "read_v2 (V2WaitResponse code t) = V3WaitResponse \<lparr>wr_ExitedAt = the t, wr_ExitStatus = code\<rparr>"
| "read_v2 (V2StatsResponse d) = V3StatsResponse (the d)"
| "read_v2 (V2ConnectResponse shim task version) = V3ConnectResponse task shim version"

definition v2_answer :: "v2_response option \<times> err option \<Rightarrow> v3_response result" where
  "v2_answer a = (case a of (_, Some e) \<Rightarrow> Inl e | (r, None) \<Rightarrow> Inr (read_v2 (the r)))"

lemma read_built:
  "do { a \<leftarrow> adapted (built z f) m; return_go (map_option v2_answer a) } = done_with (\<lambda>v. read_v2 (f v)) m"
  "do { a \<leftarrow> adapted_wait (built z f) w; return_go (map_option v2_answer a) } = maybe_with (\<lambda>v. read_v2 (f v)) w"
proof -
  have "v2_answer (built z f v) = map_sum id (\<lambda>v. read_v2 (f v)) v" for v by (cases v) (simp_all add: v2_answer_def built_def)
  then show "do { a \<leftarrow> adapted (built z f) m; return_go (map_option v2_answer a) } = done_with (\<lambda>v. read_v2 (f v)) m"
    "do { a \<leftarrow> adapted_wait (built z f) w; return_go (map_option v2_answer a) } = maybe_with (\<lambda>v. read_v2 (f v)) w"
    by (simp_all add: adapted_def done_with_def adapted_wait_def maybe_with_def option.map_comp comp_def)
qed

lemma read_forwarded:
  "do { a \<leftarrow> adapted forwarded m; return_go (map_option v2_answer a) } = done_with (\<lambda>_. V3Empty) m"
proof -
  have "v2_answer (forwarded v) = map_sum id (\<lambda>_. V3Empty) v" for v by (cases v) (simp_all add: v2_answer_def forwarded_def)
  then show ?thesis by (simp add: adapted_def done_with_def)
qed

lemma record_eta:
  "\<lparr>cr_ID = cr_ID c, cr_Bundle = cr_Bundle c, cr_Rootfs = cr_Rootfs c, cr_Terminal = cr_Terminal c, cr_Stdin = cr_Stdin c,
     cr_Stdout = cr_Stdout c, cr_Stderr = cr_Stderr c, cr_Checkpoint = cr_Checkpoint c,
     cr_ParentCheckpoint = cr_ParentCheckpoint c, cr_Options = cr_Options c\<rparr> = c"
  "\<lparr>er_ID = er_ID e, er_ExecID = er_ExecID e, er_Terminal = er_Terminal e, er_Stdin = er_Stdin e, er_Stdout = er_Stdout e,
     er_Stderr = er_Stderr e, er_Spec = er_Spec e\<rparr> = e"
  "\<lparr>sr_ID = sr_ID r, sr_ExecID = sr_ExecID r, sr_Bundle = sr_Bundle r, sr_Pid = sr_Pid r, sr_ExitStatus = sr_ExitStatus r,
     sr_ExitedAt = sr_ExitedAt r, sr_Status = sr_Status r, sr_Stdin = sr_Stdin r, sr_Stdout = sr_Stdout r,
     sr_Stderr = sr_Stderr r, sr_Terminal = sr_Terminal r\<rparr> = r"
  "\<lparr>dr_Pid = dr_Pid d, dr_ExitStatus = dr_ExitStatus d, dr_ExitedAt = dr_ExitedAt d\<rparr> = d"
  "\<lparr>wr_ExitedAt = wr_ExitedAt w, wr_ExitStatus = wr_ExitStatus w\<rparr> = w"
  by simp_all

text \<open>
  C16: both API versions are one service. For every implementation of the task service, every request and every state, a
  version 2 client that sends the request through the adapter changes the state exactly as a version 3 client does, waits
  exactly when that one waits, gets an error exactly when that one does, the same one, and otherwise reads off its response
  the same values, field by field.
\<close>

theorem v2_adapter_agrees:
  "do { a \<leftarrow> taskV2Adapter s (as_v2 r); return_go (map_option v2_answer a) } = serve_v3 s r"
  by (cases r) (simp_all add: read_built read_forwarded record_eta case_prod_beta')

subsection \<open>What answering keeps\<close>

context guarantee
begin

lemma guar_answers:
  "guar R m \<Longrightarrow> guar R (done_with f m)" "guar R w \<Longrightarrow> guar R (maybe_with g w)"
  "guar R m' \<Longrightarrow> guar R (adapted f' m')" "guar R w' \<Longrightarrow> guar R (adapted_wait g' w')"
  unfolding done_with_def maybe_with_def adapted_def adapted_wait_def by (intro guar_rules; assumption)+

end

end
