(* ===== verification/Reactor.thy ===== *)
theory Reactor
  imports Api
begin

text \<open>
  The event reactor (\<open>unitevents.go\<close>, \<open>unitsignals.go\<close>): decoding systemd's signals, the informer that
  records an exit and enqueues the unit, the workers that reconcile a unit with systemd, and the
  resynchronisation after a reconnect. The work queue is the one of theory \<open>WorkQueue\<close>.
\<close>

subsection \<open>Decoding signals\<close>

definition unitInterface :: string where "unitInterface = ''org.freedesktop.systemd1.Unit''"
definition serviceInterface :: string where "serviceInterface = ''org.freedesktop.systemd1.Service''"
definition propertiesChangedSignal :: string where
  "propertiesChangedSignal = ''org.freedesktop.DBus.Properties.PropertiesChanged''"

record unitUpdate =
  pathBase :: string
  interfaceName :: string
  changed :: props

text \<open>The elements of a signal's body: a single value, or a dictionary of properties.\<close>

datatype body_value = BValue variant | BProps props

fun body_str :: "body_value \<Rightarrow> string" where
  "body_str (BValue (VStr s)) = s" | "body_str _ = ''''"
fun body_props :: "body_value \<Rightarrow> props option" where
  "body_props (BProps m) = Some m" | "body_props _ = None"

record dbus_signal =
  sig_Name :: string
  sig_Path :: string
  sig_Body :: "body_value list"

definition decodeSystemdPropertiesChanged :: "dbus_signal option \<Rightarrow> unitUpdate option" where
  "decodeSystemdPropertiesChanged sig = (case sig of
     None \<Rightarrow> None
   | Some g \<Rightarrow>
       if sig_Name g \<noteq> propertiesChangedSignal \<or> length (sig_Body g) < 2 then None
       else let iface = body_str (sig_Body g ! 0) in
         if iface \<noteq> unitInterface \<and> iface \<noteq> serviceInterface then None
         else (case body_props (sig_Body g ! 1) of
             None \<Rightarrow> None
           | Some m \<Rightarrow> Some \<lparr>pathBase = path_Base (sig_Path g), interfaceName = iface, changed = m\<rparr>))"

text \<open>The updates a stream of signals yields before it ends or is cancelled.\<close>

definition unitUpdates :: "dbus_signal option list \<Rightarrow> unitUpdate list" where
  "unitUpdates sigs = List.map_filter decodeSystemdPropertiesChanged sigs"

subsection \<open>The informer\<close>

definition units_GetByPath :: "'w env \<Rightarrow> string \<Rightarrow> ('w, ptr option) go" where
  "units_GetByPath x n = atomic x (\<lambda>s. (GetByPath (sh_units s) n, s))"

text \<open>The process of a signal, if it is tracked and not known to have exited.\<close>

definition live_process :: "'w env \<Rightarrow> string \<Rightarrow> ('w, ptr option) go" where
  "live_process x n = do {
     p \<leftarrow> units_GetByPath x n;
     case p of
       None \<Rightarrow> return_go None
     | Some q \<Rightarrow> do {
         st \<leftarrow> reading x (ptr_addr q) ProcessState;
         return_go (if Exited st then None else Some q) } }"

text \<open>\<open>enqueueIfExit\<close> up to the call of \<open>Add\<close>; the result says whether the unit is to be added.\<close>

definition enqueueIfExit :: "'w env \<Rightarrow> unitUpdate \<Rightarrow> ('w, bool) go" where
  "enqueueIfExit x u =
     (if interfaceName u = serviceInterface then
        (case serviceExitState (changed u) of
           None \<Rightarrow> return_go False
         | Some state \<Rightarrow> do {
             p \<leftarrow> live_process x (pathBase u);
             case p of
               None \<Rightarrow> return_go False
             | Some q \<Rightarrow> do {
                 locked x (ptr_addr q) (\<lambda>pr. ((), RecordSystemdExitState pr state));
                 return_go True } })
      else if interfaceName u = unitInterface then
        (if \<not> unitEventIsExit (changed u) then return_go False
         else do { p \<leftarrow> live_process x (pathBase u); return_go (p \<noteq> None) })
      else return_go False)"

subsection \<open>The workers\<close>

definition reconcileUnit :: "'w env \<Rightarrow> ctx \<Rightarrow> string \<Rightarrow> ('w, err option) go" where
  "reconcileUnit x c n = do {
     p \<leftarrow> units_GetByPath x n;
     case p of
       None \<Rightarrow> return_go None
     | Some q \<Rightarrow> do {
         st \<leftarrow> reading x (ptr_addr q) ProcessState;
         if Exited st then return_go None
         else do {
           e \<leftarrow> LoadState x c q;
           case e of
             Some err \<Rightarrow> return_go (Some err)
           | None \<Rightarrow> do {
               st \<leftarrow> reading x (ptr_addr q) ProcessState;
               pid \<leftarrow> reading x (ptr_addr q) process_Pid;
               if \<not> Exited st \<and> pid > 0 then LoadExitState x c q else return_go None } } } }"

definition reconcileMaxRetries :: int where "reconcileMaxRetries = 5"
definition reconcileRetryBase :: i64 where "reconcileRetryBase = 200000000"
definition reconcileRetryMax :: i64 where "reconcileRetryMax = 10000000000"

text \<open>
  What a worker does with the queue after a reconcile, in the two steps other goroutines can come in
  between: \<open>Done\<close>, and then \<open>Forget\<close> or \<open>Retry\<close>; the second component says that it gave up.
\<close>

definition after_reconcile :: "unitWorkQueue \<Rightarrow> string \<Rightarrow> err option \<Rightarrow> unitWorkQueue \<times> bool" where
  "after_reconcile q n e = (case e of
     None \<Rightarrow> (wq_Forget q n, False)
   | Some _ \<Rightarrow> (case wq_Retry q n reconcileMaxRetries reconcileRetryBase reconcileRetryMax of
       (True, q') \<Rightarrow> (q', False)
     | (False, q') \<Rightarrow> (wq_Forget q' n, True)))"

text \<open>The units that are enqueued, one after the other, when a connection comes up: every tracked one.\<close>

definition resync :: "(string \<times> ptr) list \<Rightarrow> string list" where
  "resync units = Paths units"

subsection \<open>The reactor as a transition system\<close>

text \<open>
  \<open>WGot n\<close>: the worker has got \<open>n\<close> and not yet reconciled it; \<open>WRec n e\<close>: it has, with outcome \<open>e\<close>;
  \<open>WDone n e\<close>: it has called \<open>Done\<close>. \<open>ra_add\<close> are the units the informer's goroutine is about to add to the queue.
  Two components are history: \<open>ra_gave\<close>, the units a worker has given up on, and \<open>ra_exits\<close>, those
  for which the informer took an exit signal while the process had a pid. \<open>R\<close> is what
  the rest of the shim does between two steps.
\<close>

datatype worker = WIdle | WGot string | WRec string "err option" | WDone string "err option"

record 'w reactor =
  ra_q :: unitWorkQueue
  ra_s :: "'w shim"
  ra_add :: "string list"
  ra_w :: "nat \<Rightarrow> worker"
  ra_gave :: "string set"
  ra_exits :: "string set"

definition has_pid :: "'w shim \<Rightarrow> string \<Rightarrow> bool" where
  "has_pid s n \<longleftrightarrow> (case GetByPath (sh_units s) n of None \<Rightarrow> False | Some q \<Rightarrow> Pid (p_state (sh_procs s (ptr_addr q))) \<noteq> 0)"

inductive reactor_step :: "'w env \<Rightarrow> ctx \<Rightarrow> ('w shim \<Rightarrow> 'w shim \<Rightarrow> bool) \<Rightarrow> 'w reactor \<Rightarrow> 'w reactor \<Rightarrow> bool"
  for x :: "'w env" and c :: ctx and R :: "'w shim \<Rightarrow> 'w shim \<Rightarrow> bool" where
  signal: "ra_add r = [] \<Longrightarrow> run_state (enqueueIfExit x u) (ra_s r) = (b, s') \<Longrightarrow>
     reactor_step x c R r (r\<lparr>ra_s := s', ra_add := (if b then [pathBase u] else []),
       ra_exits := (if b \<and> interfaceName u = serviceInterface \<and> has_pid s' (pathBase u)
                    then insert (pathBase u) (ra_exits r) else ra_exits r)\<rparr>)"
| reconnect: "ra_add r = [] \<Longrightarrow> reactor_step x c R r (r\<lparr>ra_add := resync (sh_units (ra_s r))\<rparr>)"
| enqueue: "ra_add r = n # ns \<Longrightarrow> reactor_step x c R r (r\<lparr>ra_q := wq_Add (ra_q r) n, ra_add := ns\<rparr>)"
| get: "ra_w r w = WIdle \<Longrightarrow> wq_Get (ra_q r) = (Got n, q') \<Longrightarrow>
     reactor_step x c R r (r\<lparr>ra_q := q', ra_w := (ra_w r)(w := WGot n)\<rparr>)"
| reconcile: "ra_w r w = WGot n \<Longrightarrow> run_state (reconcileUnit x c n) (ra_s r) = (e, s') \<Longrightarrow>
     reactor_step x c R r (r\<lparr>ra_s := s', ra_w := (ra_w r)(w := WRec n e)\<rparr>)"
| finish: "ra_w r w = WRec n e \<Longrightarrow>
     reactor_step x c R r (r\<lparr>ra_q := wq_Done (ra_q r) n, ra_w := (ra_w r)(w := WDone n e)\<rparr>)"
| settle: "ra_w r w = WDone n e \<Longrightarrow> after_reconcile (ra_q r) n e = (q', gave) \<Longrightarrow>
     reactor_step x c R r (r\<lparr>ra_q := q', ra_w := (ra_w r)(w := WIdle),
       ra_gave := (if gave then insert n (ra_gave r) else ra_gave r)\<rparr>)"
| fire: "reactor_step x c R r (r\<lparr>ra_q := wq_timer_fires (ra_q r) i\<rparr>)"
| stop: "reactor_step x c R r (r\<lparr>ra_q := wq_ShutDown (ra_q r)\<rparr>)"
| abandon: "wq_shutdown (ra_q r) \<Longrightarrow> reactor_step x c R r (r\<lparr>ra_q := wq_timer_abandoned (ra_q r) i\<rparr>)"
| others: "R (ra_s r) s' \<Longrightarrow> reactor_step x c R r (r\<lparr>ra_s := s'\<rparr>)"

inductive_cases reactor_stepE: "reactor_step x c R r r'"

inductive reactor_reach :: "'w env \<Rightarrow> ctx \<Rightarrow> ('w shim \<Rightarrow> 'w shim \<Rightarrow> bool) \<Rightarrow> 'w reactor \<Rightarrow> 'w reactor \<Rightarrow> bool"
  for x :: "'w env" and c :: ctx and R :: "'w shim \<Rightarrow> 'w shim \<Rightarrow> bool" and r0 :: "'w reactor" where
  reach_refl: "reactor_reach x c R r0 r0"
| reach_step: "reactor_reach x c R r0 r \<Longrightarrow> reactor_step x c R r r' \<Longrightarrow> reactor_reach x c R r0 r'"

definition newEventReactor :: "'w shim \<Rightarrow> 'w reactor" where
  "newEventReactor s = \<lparr>ra_q = newUnitWorkQueue, ra_s = s, ra_add = [], ra_w = (\<lambda>_. WIdle), ra_gave = {}, ra_exits = {}\<rparr>"

subsection \<open>What the reactor never undoes\<close>

lemma lo_reactor:
  assumes x: "rely lifecycle_le x"
  shows "guar lifecycle_le (live_process x n)" "guar lifecycle_le (enqueueIfExit x u)" "guar lifecycle_le (reconcileUnit x c n)"
proof -
  show 1: "guar lifecycle_le (live_process x n)" for n
    unfolding live_process_def units_GetByPath_def by (intro lo_rules; simp add: x)
  show "guar lifecycle_le (enqueueIfExit x u)"
    unfolding enqueueIfExit_def by (intro lo_rules 1; simp add: x)
  show "guar lifecycle_le (reconcileUnit x c n)"
    unfolding reconcileUnit_def units_GetByPath_def by (intro lo_rules lo_tasks; simp add: x)
qed

subsection \<open>An exit that has been seen\<close>

text \<open>
  What must survive between the informer's look at a signal and the worker's: the exit recorded from the signal, the pid,
  and the registration of the unit.
\<close>

definition exit_known :: "process \<Rightarrow> bool" where
  "exit_known p \<longleftrightarrow> p_hasSystemdExitState p \<and> Exited (p_systemdExitState p) \<and> Pid (p_state p) \<noteq> 0"

definition exit_proc_le :: "process \<Rightarrow> process \<Rightarrow> bool" where
  "exit_proc_le p p' \<longleftrightarrow> (Exited (p_state p) \<longrightarrow> Exited (p_state p')) \<and> (exit_known p \<longrightarrow> exit_known p' \<or> Exited (p_state p'))
     \<and> ((p_hasSystemdExitState p \<longrightarrow> Exited (p_systemdExitState p)) \<longrightarrow> p_hasSystemdExitState p' \<longrightarrow> Exited (p_systemdExitState p'))"

definition exit_le :: "string \<Rightarrow> ptr \<Rightarrow> 'w shim \<Rightarrow> 'w shim \<Rightarrow> bool" where
  "exit_le n q s t \<longleftrightarrow> (GetByPath (sh_units s) n = Some q \<longrightarrow> GetByPath (sh_units t) n = Some q)
     \<and> exit_proc_le (sh_procs s (ptr_addr q)) (sh_procs t (ptr_addr q))"

lemma exit_proc_le_refl [simp]: "exit_proc_le p p"
  by (simp add: exit_proc_le_def)

lemma exit_proc_le_trans: "exit_proc_le p q \<Longrightarrow> exit_proc_le q r \<Longrightarrow> exit_proc_le p r"
  by (auto simp: exit_proc_le_def)

lemma exit_proc_le_events [simp]: "exit_proc_le p (p\<lparr>p_events := ob\<rparr>)"
  by (simp add: exit_proc_le_def exit_known_def)

lemma exit_proc_le_applyState [simp]: "exit_proc_le p (snd (applyState p t st))"
  by (auto simp: exit_proc_le_def exit_known_def applyState_eq Let_def CopyTo_Pid)

interpretation ex: guarantee "exit_le n q" for n q
proof
  fix s t :: "'w shim" and a ob
  show "exit_le n q s t \<Longrightarrow> exit_le n q s (t\<lparr>sh_procs := (sh_procs t)(a := (sh_procs t a)\<lparr>p_events := ob\<rparr>)\<rparr>)"
    using exit_proc_le_trans [OF _ exit_proc_le_events] by (auto simp: exit_le_def)
qed (auto simp: exit_le_def intro: exit_proc_le_trans)

lemma ex_locked: "rely (exit_le n q) x \<Longrightarrow> (\<And>p. exit_proc_le p (snd (f p))) \<Longrightarrow> guar (exit_le n q) (locked x a f)"
  unfolding locked_def
  by (rule ex.guar_atomic) (auto simp: exit_le_def split: prod.splits, metis snd_conv)

lemmas ex_rules = ex.guar_rules ex_locked

lemma ex_reads:
  assumes x: "rely (exit_le n q) x"
  shows "guar (exit_le n q) (readExitState x f)" "guar (exit_le n q) (unit_state x c nm st)"
    "guar (exit_le n q) (exit_from_unit x c nm)" "guar (exit_le n q) (process_applyState x a st)"
  unfolding readExitState_def unit_state_def exit_from_unit_def process_applyState_def
  by (intro ex_rules; simp add: x)+

lemma ex_SetState:
  assumes x: "rely (exit_le n q) x"
  shows "guar (exit_le n q) (exec_SetState x e st)" "guar (exit_le n q) (exec_LoadState x e)"
    "guar (exit_le n q) (sweep_exec x e)" "guar (exit_le n q) (init_SetState x c p st)"
proof -
  show 1: "guar (exit_le n q) (exec_SetState x e st)" for e st
    unfolding exec_SetState_def by (intro ex_rules ex_reads; simp add: x)
  show 2: "guar (exit_le n q) (exec_LoadState x e)" for e
    unfolding exec_LoadState_def exec_readExitState_def by (intro ex_rules ex_reads 1; simp add: x)
  show 3: "guar (exit_le n q) (sweep_exec x e)" for e
    unfolding sweep_exec_def by (intro ex_rules 1 2; simp add: x)
  show "guar (exit_le n q) (init_SetState x c p st)"
    unfolding init_SetState_def by (intro ex_rules ex_reads 3; simp add: x)
qed

lemma ex_Load:
  assumes x: "rely (exit_le n q) x"
  shows "guar (exit_le n q) (LoadState x c p)" "guar (exit_le n q) (SetState x c p st)" "guar (exit_le n q) (LoadExitState x c p)"
proof -
  note r = ex_rules ex_reads ex_SetState
  show "guar (exit_le n q) (LoadState x c p)"
    by (cases p) (simp_all add: init_LoadState_def init_readExitState_def, (intro r; simp add: x)+)
  show "guar (exit_le n q) (SetState x c p st)"
    by (cases p) (simp_all add: ex_SetState x)
  show "guar (exit_le n q) (LoadExitState x c p)"
    by (cases p) (simp_all add: init_LoadExitState_def exec_LoadExitState_def, (intro r; simp add: x)+)
qed

subsection \<open>Requests that leave a recorded exit alone\<close>

text \<open>
  What the reactor needs of everybody else is \<^term>\<open>exit_le n q\<close>: the unit stays registered and an exit that was recorded for it is not discarded. Every request keeps
  that, of whatever task, but those that create, start or delete: these clear a recorded exit before a start and unregister units.
\<close>

lemma ex_client:
  assumes x: "rely (exit_le n q) x"
  shows "guar (exit_le n q) (read_string x h lim k buf)" "guar (exit_le n q) (tc_reset x cl)" "guar (exit_le n q) (tc_Resize x ctx cl w ht)"
proof -
  show 1: "guar (exit_le n q) (read_string x h lim k buf)" for h lim k buf
    using x
  proof (induction x h lim k buf rule: read_string.induct)
    case (1 x h lim k buf)
    show ?case by (subst read_string.simps) (intro ex_rules "1.IH"; simp add: "1.prems")
  qed
  show 2: "guar (exit_le n q) (tc_reset x cl)" for cl unfolding tc_reset_def by (intro ex_rules; simp add: x)
  show "guar (exit_le n q) (tc_Resize x ctx cl w ht)"
    unfolding tc_Resize_def tc_dial_def tc_exchange_def tc_readMsg_def by (intro ex_rules 1 2; simp add: x)
qed

lemma ex_ResizePTY:
  assumes x: "rely (exit_le n q) x"
  shows "guar (exit_le n q) (ResizePTY x ctx p w h)"
proof -
  have op: "guar (exit_le n q) (client_op x t f)" if "\<And>c. guar (exit_le n q) (f c)" for t and f :: "ttyControlClient \<Rightarrow> ('a, 'b \<times> ttyControlClient) go"
    unfolding client_op_def using that by (intro ex_rules ex.guar_atomic; simp add: x exit_le_def)
  have pr: "guar (exit_le n q) (process_ResizePTY x ctx a w h sp)" for a sp
    unfolding process_ResizePTY_def
    by (intro ex_rules ex.guar_atomic op ex_client; simp add: x exit_le_def exit_proc_le_def exit_known_def split: option.splits)
  show ?thesis
    by (cases p; simp add: init_ttySockPath_def exec_ttySockPath_def ttySockPath_def) (intro ex_rules pr; simp add: x)+
qed

lemma ex_find:
  assumes x: "rely (exit_le n q) x"
  shows "guar (exit_le n q) (find_task x ns i)" "guar (exit_le n q) (find_process x ns i e)" "guar (exit_le n q) (execs_Get x p i)"
    "guar (exit_le n q) (ptr_State x r)" "guar (exit_le n q) (Kill x c r sig all)"
proof -
  show 1: "guar (exit_le n q) (find_task x ns i)"
    unfolding find_task_def processes_Get_def by (intro ex_rules; simp add: x)
  show 2: "guar (exit_le n q) (execs_Get x p i)" for p i
    unfolding execs_Get_def by (intro ex_rules; simp add: x)
  show "guar (exit_le n q) (find_process x ns i e)"
    unfolding find_process_def by (intro ex_rules 1 2; simp add: x)
  show "guar (exit_le n q) (ptr_State x r)"
    by (cases r) (simp_all add: init_State_def exec_State_def, (intro ex_rules; simp add: x)+)
  have "guar (exit_le n q) (init_Kill x c p sig all)" "guar (exit_le n q) (exec_Kill x c e' sig)" for p e'
    unfolding init_Kill_def exec_Kill_def by (intro ex_rules; simp add: x)+
  then show "guar (exit_le n q) (Kill x c r sig all)" by (cases r) simp_all
qed

lemma ex_Service_Wait:
  assumes x: "rely (exit_le n q) x"
  shows "guar (exit_le n q) (Service_Wait x c ns i e k)"
proof -
  have w: "guar (exit_le n q) (waitForExit x c a k)" for a k
  proof (induction k)
    case (Suc k)
    then show ?case unfolding waitForExit.simps by (intro ex_rules; simp add: x)
  qed (simp add: ex.guar_return)
  show ?thesis
    unfolding Service_Wait_def wait_load_def wait_answer_def by (intro ex_rules ex_find ex_Load ex_reads w; simp add: x)
qed

lemma ex_handlers:
  assumes x: "rely (exit_le n q) x"
  shows "guar (exit_le n q) (Service_State x ns i e)" "guar (exit_le n q) (Service_Pause x c ns i)"
    "guar (exit_le n q) (Service_Resume x c ns i)" "guar (exit_le n q) (Service_Kill x c ns i e sig all)"
    "guar (exit_le n q) (Service_Pids x c ns i)" "guar (exit_le n q) (Service_Checkpoint x c ns i oo)"
    "guar (exit_le n q) (Service_Connect x ns i gp)" "guar (exit_le n q) (Service_Stats x ns i)"
    "guar (exit_le n q) (Service_Update x js c ns i res)" "guar (exit_le n q) (Service_ResizePty x c ns i e w h)"
  unfolding Service_State_def Service_Pause_def Service_Resume_def Service_Kill_def Service_Pids_def Service_Checkpoint_def
    Service_Connect_def Service_Stats_def Service_Update_def Service_ResizePty_def init_Pause_def init_Resume_def
    init_Pids_def init_Checkpoint_def init_Update_def ok_or_def
  by (intro ex_rules ex_find ex_ResizePTY; simp add: x)+

fun bystander :: "v3_request \<Rightarrow> bool" where
  "bystander (V3Create _) = False"
| "bystander (V3Start _ _) = False"
| "bystander (V3Delete _ _) = False"
| "bystander (V3Exec _) = False"
| "bystander _ = True"

lemma ex_bystander:
  assumes x: "rely (exit_le n q) x" and "bystander r"
  shows "guar (exit_le n q) (serve_v3 (Service_TTRPC x sv js pid c ns k) r)"
  using assms(2) ex_handlers [OF x] ex_Service_Wait [OF x]
  by (cases r) (simp_all add: ex.guar_answers ex.guar_return Service_TTRPC_def Service_CloseIO_def Service_Shutdown_def)

text \<open>Stepping over a program while a predicate that the relation keeps is carried along.\<close>

definition kept :: "('s \<Rightarrow> 's \<Rightarrow> bool) \<Rightarrow> ('s \<Rightarrow> bool) \<Rightarrow> bool" where
  "kept R P \<longleftrightarrow> (\<forall>s t. R s t \<longrightarrow> P s \<longrightarrow> P t)"

lemma kept_step: "kept R P \<Longrightarrow> guar R m \<Longrightarrow> P s \<Longrightarrow> (\<And>r t. P t \<Longrightarrow> Q r t) \<Longrightarrow> wp m Q s"
  by (rule wp_mono [of m "\<lambda>_. R s"]) (simp_all add: guar_wp kept_def)

context guarantee
begin

text \<open>A read sees some state the others have moved to.\<close>

lemma read_step:
  assumes "rely R x" and "kept R P" and "P s" and "\<And>t. P t \<Longrightarrow> Q (f t) t"
  shows "wp (atomic x (\<lambda>s. (f s, s))) Q s"
proof -
  have "R s (interfere x s)" using assms(1) by (simp add: rely_def interfere_def R_calls)
  with assms(2,3) have "P (interfere x s)" by (auto simp: kept_def)
  with assms(4) [of "interfere x s"] show ?thesis by (simp add: wp_simps interfere_def)
qed

end

definition over :: "ptr \<Rightarrow> 'w shim \<Rightarrow> bool" where
  "over q s \<longleftrightarrow> Exited (p_state (sh_procs s (ptr_addr q)))"

definition due :: "string \<Rightarrow> ptr \<Rightarrow> 'w shim \<Rightarrow> bool" where
  "due n q s \<longleftrightarrow> GetByPath (sh_units s) n = Some q \<and> (exit_known (sh_procs s (ptr_addr q)) \<or> over q s)"

lemma kept_over: "kept (exit_le n q) (over q)" and kept_due: "kept (exit_le n q) (due n q)"
  by (auto simp: kept_def exit_le_def exit_proc_le_def over_def due_def)

lemma merge_over:
  assumes x: "rely (exit_le n q) x" and st: "Exited st \<or> over q s"
  shows "wp (process_applyState x (ptr_addr q) st) (\<lambda>_. over q) s"
  unfolding process_applyState_def
proof (rule wp_bindI)
  have keep: "kept (exit_le n q) (\<lambda>t. Exited st \<or> over q t)" using kept_over [of n q] by (auto simp: kept_def)
  show "wp (now x) (\<lambda>t. wp (locked x (ptr_addr q) (\<lambda>p. applyState p t st)) (\<lambda>_. over q)) s"
  proof (rule kept_step [OF keep ex.guar_calls(1) [OF x] st])
    fix now and t :: "'a shim"
    assume "Exited st \<or> over q t"
    moreover have "exit_le n q t (interfere x t)" using x by (simp add: rely_def interfere_def ex.R_calls)
    ultimately have "Exited st \<or> over q (interfere x t)" using keep by (auto simp: kept_def)
    then show "wp (locked x (ptr_addr q) (\<lambda>p. applyState p now st)) (\<lambda>_. over q) t"
      using applyState_Exited [of "sh_procs (interfere x t) (ptr_addr q)" now st]
      by (auto simp: locked_def wp_simps over_def split: prod.splits)
  qed
qed

lemma SetState_over:
  assumes x: "rely (exit_le n q) x" and st: "Exited st \<or> over q s"
  shows "wp (SetState x c q st) (\<lambda>_. over q) s"
proof (cases q)
  case (InitP p)
  have "wp (init_SetState x c p st) (\<lambda>_. over q) s"
    unfolding init_SetState_def
    by (rule wp_bindI, rule wp_mono [OF merge_over [OF x st, unfolded InitP ptr_addr.simps]], fold InitP)
       (rule kept_step [OF kept_over [of n q]], (intro ex_rules ex_SetState x), assumption, assumption)
  with InitP show ?thesis by simp
next
  case (ExecP e)
  have "wp (exec_SetState x e st) (\<lambda>_. over q) s"
    unfolding exec_SetState_def
    by (rule wp_bindI, rule wp_mono [OF merge_over [OF x st, unfolded ExecP ptr_addr.simps]], fold ExecP)
       (rule kept_step [OF kept_over [of n q]], (intro ex_rules x), assumption, assumption)
  with ExecP show ?thesis by simp
qed

lemma LoadExitState_eq:
  "LoadExitState x c q = do {
     rec \<leftarrow> reading x (ptr_addr q) loadRecordedSystemdExitState;
     if snd rec then do { countState x metricReactorHits; ignore (SetState x c q (fst rec)); return_go None }
     else do {
       g \<leftarrow> exit_from_unit x c (Name q);
       case g of
         Inl e \<Rightarrow> return_go (Some e)
       | Inr st \<Rightarrow> do {
           when_go (Exited st) (countState x metricGetAllFallbacks);
           ignore (SetState x c q st);
           return_go None } } }"
proof (cases q)
  case (InitP p)
  show ?thesis unfolding InitP LoadExitState.simps SetState.simps Name.simps ptr_addr.simps init_LoadExitState_def ..
next
  case (ExecP e)
  show ?thesis unfolding ExecP LoadExitState.simps SetState.simps Name.simps ptr_addr.simps exec_LoadExitState_def ..
qed

lemma LoadExitState_over:
  assumes x: "rely (exit_le n q) x" and d: "due n q s"
  shows "wp (LoadExitState x c q) (\<lambda>_. over q) s"
  unfolding LoadExitState_eq reading_def
proof (rule wp_bindI, rule ex.read_step [OF x kept_due d])
  fix t :: "'a shim" assume d: "due n q t"
  let ?rec = "loadRecordedSystemdExitState (sh_procs t (ptr_addr q))"
  have rec: "Exited (fst ?rec) \<and> snd ?rec \<or> over q t"
    using d by (auto simp: due_def exit_known_def loadRecordedSystemdExitState_def)
  have set: "wp (ignore (SetState x c q st) \<bind> (\<lambda>_. return_go None)) (\<lambda>_. over q) u" if "Exited st \<or> over q u" for st u
    by (rule wp_bindI, rule wp_ignoreI, rule wp_mono [OF SetState_over [OF x that]]) (simp add: wp_return)
  show "wp (if snd ?rec then countState x metricReactorHits \<bind> (\<lambda>_. ignore (SetState x c q (fst ?rec)) \<bind> (\<lambda>_. return_go None))
      else exit_from_unit x c (Name q) \<bind> (\<lambda>g. case g of Inl e \<Rightarrow> return_go (Some e)
        | Inr st \<Rightarrow> when_go (Exited st) (countState x metricGetAllFallbacks) \<bind>
            (\<lambda>_. ignore (SetState x c q st) \<bind> (\<lambda>_. return_go None)))) (\<lambda>_. over q) t"
  proof (rule wp_ifI)
    assume "snd ?rec"
    have k: "kept (exit_le n q) (\<lambda>t. Exited (fst ?rec) \<or> over q t)" using kept_over [of n q] by (auto simp: kept_def)
    show "wp (countState x metricReactorHits \<bind> (\<lambda>_. ignore (SetState x c q (fst ?rec)) \<bind> (\<lambda>_. return_go None))) (\<lambda>_. over q) t"
      by (rule wp_bindI, rule kept_step [OF k ex.guar_countState [OF x]]) (use rec set in blast)+
  next
    assume "\<not> snd ?rec"
    with rec have o: "over q t" by blast
    show "wp (exit_from_unit x c (Name q) \<bind> (\<lambda>g. case g of Inl e \<Rightarrow> return_go (Some e)
        | Inr st \<Rightarrow> when_go (Exited st) (countState x metricGetAllFallbacks) \<bind>
            (\<lambda>_. ignore (SetState x c q st) \<bind> (\<lambda>_. return_go None)))) (\<lambda>_. over q) t"
      by (rule kept_step [OF kept_over [of n] _ o]) (intro ex_rules ex_reads ex_Load x, assumption)
  qed
qed

subsection \<open>Reconciling a unit\<close>

lemma reconcile_over:
  assumes x: "rely (exit_le n q) x" and d: "due n q s"
  shows "wp (reconcileUnit x c n) (\<lambda>e s'. e = None \<longrightarrow> over q s') s"
proof -
  note rd = ex.read_step [OF x kept_due]
  have load: "wp (LoadState x c q) (\<lambda>_. due n q) t" if "due n q t" for t
    by (rule kept_step [OF kept_due ex_Load(1) [OF x] that])
  have final: "wp (LoadExitState x c q) (\<lambda>e s'. e = None \<longrightarrow> over q s') t" if "due n q t" for t
    by (rule wp_mono [OF LoadExitState_over [OF x that]]) simp
  have decide: "wp (if \<not> Exited st \<and> pid > 0 then LoadExitState x c q else return_go None) (\<lambda>e s'. e = None \<longrightarrow> over q s') t"
    if "due n q t" "Exited st \<longrightarrow> over q t" "pid = process_Pid (sh_procs t (ptr_addr q))" for st pid t
    using that final [of t] by (auto simp: wp_return due_def exit_known_def process_Pid_def word_gt_0)
  have look: "wp (reading x (ptr_addr q) ProcessState \<bind> (\<lambda>st. reading x (ptr_addr q) process_Pid \<bind>
      (\<lambda>pid. if \<not> Exited st \<and> pid > 0 then LoadExitState x c q else return_go None))) (\<lambda>e s'. e = None \<longrightarrow> over q s') t"
    if "due n q t" for t
  proof (unfold reading_def, rule wp_bindI, rule rd [OF that])
    fix u :: "'a shim" assume u: "due n q u"
    let ?st = "ProcessState (sh_procs u (ptr_addr q))"
    have k: "kept (exit_le n q) (\<lambda>v. due n q v \<and> (Exited ?st \<longrightarrow> over q v))"
      using kept_due [of n q] kept_over [of n q] unfolding kept_def by blast
    show "wp (atomic x (\<lambda>s. (process_Pid (sh_procs s (ptr_addr q)), s)) \<bind>
        (\<lambda>pid. if \<not> Exited ?st \<and> pid > 0 then LoadExitState x c q else return_go None)) (\<lambda>e s'. e = None \<longrightarrow> over q s') u"
      by (rule wp_bindI, rule ex.read_step [OF x k]) (use u decide in \<open>auto simp: over_def\<close>)
  qed
  have tail: "wp (reading x (ptr_addr q) ProcessState \<bind> (\<lambda>st. if Exited st then return_go None
      else LoadState x c q \<bind> (\<lambda>e. case e of Some err \<Rightarrow> return_go (Some err)
        | None \<Rightarrow> reading x (ptr_addr q) ProcessState \<bind> (\<lambda>st. reading x (ptr_addr q) process_Pid \<bind>
            (\<lambda>pid. if \<not> Exited st \<and> pid > 0 then LoadExitState x c q else return_go None)))))
      (\<lambda>e s'. e = None \<longrightarrow> over q s') t" if "due n q t" for t
    unfolding reading_def [of x "ptr_addr q" ProcessState]
    by (rule wp_bindI, rule rd [OF that], rule wp_ifI, simp add: wp_return over_def, rule wp_bindI, rule wp_mono [OF load], assumption,
        rule wp_optionI, fold reading_def, erule look, simp add: wp_return)
  show ?thesis
    unfolding reconcileUnit_def units_GetByPath_def
  proof (rule wp_bindI, rule rd [OF d])
    fix t :: "'a shim" assume t: "due n q t"
    then have "GetByPath (sh_units t) n = Some q" by (simp add: due_def)
    with tail [OF t] show "wp (case GetByPath (sh_units t) n of None \<Rightarrow> return_go None
        | Some q \<Rightarrow> reading x (ptr_addr q) ProcessState \<bind> (\<lambda>st. if Exited st then return_go None
      else LoadState x c q \<bind> (\<lambda>e. case e of Some err \<Rightarrow> return_go (Some err)
        | None \<Rightarrow> reading x (ptr_addr q) ProcessState \<bind> (\<lambda>st. reading x (ptr_addr q) process_Pid \<bind>
            (\<lambda>pid. if \<not> Exited st \<and> pid > 0 then LoadExitState x c q else return_go None)))))
       (\<lambda>e s'. e = None \<longrightarrow> over q s') t"
      by simp
  qed
qed

lemma only_reconcile: "only is_recording (reconcileUnit x c n)"
  unfolding reconcileUnit_def units_GetByPath_def by (intro only_rules)

text \<open>
  Reconciling. A reconcile only observes: it reads files and properties, and may kill what is left in a
  container whose init died. A unit that is not tracked any more is left alone, without a call. And while the unit
  stays tracked and nobody discards the exit recorded for it from a signal, a reconcile of a started process
  that does not report an error ends with the process known as exited: no recorded exit is dropped.
\<close>

theorem reconcile_consumes_exit:
  assumes "run_state (reconcileUnit x c n) s = (e, s')"
  shows "trace s s' [many is_recording]
    \<and> (e_others x = id \<and> GetByPath (sh_units s) n = None \<longrightarrow> e = None \<and> sh_calls s' = sh_calls s)
    \<and> (rely (exit_le n q) x \<and> GetByPath (sh_units s) n = Some q \<and> exit_known (sh_procs s (ptr_addr q)) \<and> e = None
         \<longrightarrow> Exited (p_state (sh_procs s' (ptr_addr q))))"
proof (intro conjI impI)
  show "trace s s' [many is_recording]" by (rule wpD [OF only_trace [OF only_reconcile] assms])
  show "e = None" "sh_calls s' = sh_calls s" if "e_others x = id \<and> GetByPath (sh_units s) n = None"
    using assms that by (auto simp: reconcileUnit_def units_GetByPath_def atomic_def interfere_def)
  assume "rely (exit_le n q) x \<and> GetByPath (sh_units s) n = Some q \<and> exit_known (sh_procs s (ptr_addr q)) \<and> e = None"
  then have "rely (exit_le n q) x" "due n q s" "e = None" by (simp_all add: due_def)
  from wpD [OF reconcile_over [OF this(1,2)] assms] this(3) show "Exited (p_state (sh_procs s' (ptr_addr q)))"
    by (simp add: over_def)
qed

abbreviation signalled_process :: process where
  "signalled_process \<equiv> running_process\<lparr>p_systemdExitState := exit_obs, p_hasSystemdExitState := True\<rparr>"

lemma calm_exit_rely: "rely (exit_le n q) calm_env"
  by (simp add: rely_def calm_env_def ex.R_refl)

lemma calm_reconcile:
  "fst (run_state (reconcileUnit calm_env ReqCtx ''u_e'') (demo_shim running_process signalled_process)) = None"
  by (simp add: reconcileUnit_def units_GetByPath_def GetByPath_def exec_LoadState_def exec_readExitState_def readExitState_def
      exec_LoadExitState_def loadRecordedSystemdExitState_def countState_def process_Pid_def ProcessState_def CopyTo_zero
      calm_runs calm_atomic ignore_def Exited_iff split: prod.splits)

theorem reconcile_consumes_exit_witness:
  "Exited (p_state (sh_procs (snd (run_state (reconcileUnit calm_env ReqCtx ''u_e'') (demo_shim running_process signalled_process))) 1))"
proof -
  let ?s = "demo_shim running_process signalled_process"
  obtain s' where run: "run_state (reconcileUnit calm_env ReqCtx ''u_e'') ?s = (None, s')"
    using calm_reconcile by (metis prod.collapse)
  have "GetByPath (sh_units ?s) ''u_e'' = Some (ExecP demo_exec)" by (simp add: GetByPath_def)
  with reconcile_consumes_exit [OF run, of "ExecP demo_exec"] calm_exit_rely run show ?thesis
    by (simp add: exit_known_def)
qed

subsection \<open>The workers and the queue\<close>

fun held :: "worker \<Rightarrow> string option" where
  "held WIdle = None" | "held (WGot n) = Some n" | "held (WRec n _) = Some n" | "held (WDone _ _) = None"

definition queue_view :: "'w reactor \<Rightarrow> unitWorkQueue \<times> (nat \<rightharpoonup> string)" where
  "queue_view r = (ra_q r, \<lambda>w. held (ra_w r w))"

lemma held_upd: "(\<lambda>v. held ((f(w := z)) v)) = (\<lambda>v. held (f v))(w := held z)"
  by auto

lemma wq_run_one: "wq_step s l t \<Longrightarrow> wq_run s [l] t"
  by (blast intro: wq_run.intros)

lemma wq_run_two: "wq_step s l t \<Longrightarrow> wq_step t l' u \<Longrightarrow> wq_run s [l, l'] u"
  by (blast intro: wq_run.intros)

lemma after_reconcile_run: "after_reconcile q n e = (q', g) \<Longrightarrow> \<exists>ls. wq_run (q, hold) ls (q', hold)"
proof (cases e)
  case None
  then show "after_reconcile q n e = (q', g) \<Longrightarrow> ?thesis"
    using wq_run_one [OF step_forget [of q hold n]] by (auto simp: after_reconcile_def)
next
  case (Some er)
  obtain b q1 where b: "wq_Retry q n reconcileMaxRetries reconcileRetryBase reconcileRetryMax = (b, q1)" by fastforce
  have st: "wq_step (q, hold) (LRetry n reconcileMaxRetries reconcileRetryBase reconcileRetryMax) (q1, hold)"
    using step_retry [of q hold n reconcileMaxRetries reconcileRetryBase reconcileRetryMax] by (simp add: b)
  show "after_reconcile q n e = (q', g) \<Longrightarrow> ?thesis"
    using wq_run_one [OF st] wq_run_two [OF st step_forget [of q1 hold n]] Some b
    by (cases b) (auto simp: after_reconcile_def)
qed

lemma reactor_step_view: "reactor_step x c R r r' \<Longrightarrow> \<exists>ls. wq_run (queue_view r) ls (queue_view r')"
proof (induction rule: reactor_step.induct)
  case (get r w n q')
  then have "wq_step (queue_view r) (LGet w n) (queue_view (r\<lparr>ra_q := q', ra_w := (ra_w r)(w := WGot n)\<rparr>))"
    using step_get [of "\<lambda>w. held (ra_w r w)" w "ra_q r" n q'] by (simp add: queue_view_def held_upd del: fun_upd_apply)
  then show ?case by (blast intro: wq_run_one)
next
  case (reconcile r w n e s')
  then have "(\<lambda>v. held (ra_w r v))(w := Some n) = (\<lambda>v. held (ra_w r v))" by auto
  then show ?case by (auto simp: queue_view_def held_upd simp del: fun_upd_apply intro: wq_run.intros)
next
  case (finish r w n e)
  then have "wq_step (queue_view r) (LDone w) (queue_view (r\<lparr>ra_q := wq_Done (ra_q r) n, ra_w := (ra_w r)(w := WDone n e)\<rparr>))"
    using step_done [of "\<lambda>w. held (ra_w r w)" w n "ra_q r"] by (simp add: queue_view_def held_upd del: fun_upd_apply)
  then show ?case by (blast intro: wq_run_one)
next
  case (settle r w n e q' gave)
  then have "(\<lambda>v. held (ra_w r v))(w := None) = (\<lambda>v. held (ra_w r v))" by auto
  then show ?case
    using after_reconcile_run [OF settle(2), of "\<lambda>v. held (ra_w r v)"] by (simp add: queue_view_def held_upd del: fun_upd_apply)
next
  case (abandon r i)
  show ?case
    using wq_run_one [OF step_abandon [OF abandon, of "\<lambda>w. held (ra_w r w)" i]] by (auto simp: queue_view_def)
qed (auto simp: queue_view_def intro: wq_run.intros wq_run_one [OF step_add] wq_run_one [OF step_fire] wq_run_one [OF step_shutdown])

lemma wq_run_append: "wq_run s ls t \<Longrightarrow> wq_run t ls' u \<Longrightarrow> wq_run s (ls @ ls') u"
  by (induction rule: wq_run.induct) (auto intro: wq_run.intros)

lemma reactor_reach_view: "reactor_reach x c R r0 r \<Longrightarrow> \<exists>ls. wq_run (queue_view r0) ls (queue_view r)"
  by (induction rule: reactor_reach.induct) (blast intro: wq_run.intros, blast dest: reactor_step_view intro: wq_run_append)

lemma reactor_queue_inv:
  assumes "reactor_reach x c R (newEventReactor s) r"
  shows "wq_sys_inv (queue_view r)" and "\<exists>ls. wq_run wq_start ls (queue_view r)"
proof -
  have "queue_view (newEventReactor s) = wq_start" by (simp add: queue_view_def newEventReactor_def wq_start_def)
  with reactor_reach_view [OF assms] show 1: "\<exists>ls. wq_run wq_start ls (queue_view r)" by simp
  then show "wq_sys_inv (queue_view r)" using wq_reachable_inv by blast
qed

text \<open>
  C11: the reactor refines the work queue. Whatever the informer, the workers, the retry timers, reconnects and
  the rest of the shim do, the queue and the units the workers hold go through a run of the queue's own
  transition system; so the queue keeps its invariant and no two workers ever reconcile the same unit at once.
\<close>

theorem reactor_refines_queue:
  assumes "reactor_reach x c R (newEventReactor s) r"
  shows "(\<exists>ls. wq_run wq_start ls (queue_view r)) \<and> wq_inv (ra_q r)
       \<and> (\<forall>v w. held (ra_w r v) \<noteq> None \<and> held (ra_w r v) = held (ra_w r w) \<longrightarrow> v = w)"
proof -
  from reactor_queue_inv(1) [OF assms] have "wq_inv (ra_q r)" and inj: "inj_on (\<lambda>w. held (ra_w r w)) (dom (\<lambda>w. held (ra_w r w)))"
    by (simp_all add: queue_view_def)
  moreover have "v = w" if "held (ra_w r v) \<noteq> None" "held (ra_w r v) = held (ra_w r w)" for v w
    using inj_onD [OF inj that(2)] that by (simp add: domIff)
  ultimately show ?thesis using reactor_queue_inv(2) [OF assms] by blast
qed

subsection \<open>No exit is lost\<close>

text \<open>The unit \<open>n\<close> is somewhere on its way to a (further) reconcile.\<close>

fun busy :: "string \<Rightarrow> worker \<Rightarrow> bool" where
  "busy n WIdle = False" | "busy n (WGot m) = (m = n)" | "busy n (WRec m e) = (m = n \<and> e \<noteq> None)"
| "busy n (WDone m e) = (m = n \<and> e \<noteq> None)"

definition active :: "string \<Rightarrow> 'w reactor \<Rightarrow> bool" where
  "active n r \<longleftrightarrow> n \<in> set (ra_add r) \<or> n \<in> wq_dirty (ra_q r) \<or> n \<in> fst ` set (wq_timers (ra_q r)) \<or> (\<exists>w. busy n (ra_w r w))"

lemma busy_upd: "(\<exists>v. busy n (f v)) \<Longrightarrow> (busy n (f w) \<Longrightarrow> busy n z) \<Longrightarrow> \<exists>v. busy n ((f(w := z)) v)"
  by (metis fun_upd_apply)

definition settled :: "string \<Rightarrow> ptr \<Rightarrow> 'w reactor \<Rightarrow> bool" where
  "settled n q r \<longleftrightarrow> over q (ra_s r) \<or> active n r \<or> n \<in> ra_gave r \<or> wq_shutdown (ra_q r)"

definition rec_ok :: "process \<Rightarrow> bool" where
  "rec_ok p \<longleftrightarrow> (p_hasSystemdExitState p \<longrightarrow> Exited (p_systemdExitState p))"

definition watched :: "string \<Rightarrow> ptr \<Rightarrow> 'w shim \<Rightarrow> bool" where
  "watched n q s \<longleftrightarrow> GetByPath (sh_units s) n = Some q \<and> rec_ok (sh_procs s (ptr_addr q))"

definition exits_inv :: "string \<Rightarrow> ptr \<Rightarrow> 'w reactor \<Rightarrow> bool" where
  "exits_inv n q r \<longleftrightarrow> watched n q (ra_s r) \<and> (n \<in> ra_exits r \<longrightarrow> due n q (ra_s r) \<and> settled n q r)"

lemma kept_watched: "kept (exit_le n q) (watched n q)"
  by (auto simp: kept_def exit_le_def exit_proc_le_def watched_def rec_ok_def)

lemma serviceExitState_Exited: "serviceExitState m = Some st \<Longrightarrow> Exited st"
  by (auto simp: serviceExitState_Some Exited_iff)

lemma exit_proc_le_record: "Exited st \<Longrightarrow> exit_proc_le p (RecordSystemdExitState p st)"
  by (auto simp: exit_proc_le_def exit_known_def RecordSystemdExitState_def)

lemma ex_enqueueIfExit:
  assumes x: "rely (exit_le n q) x"
  shows "guar (exit_le n q) (enqueueIfExit x u)"
proof (cases "serviceExitState (changed u)")
  case None
  show ?thesis unfolding enqueueIfExit_def None option.case live_process_def units_GetByPath_def by (intro ex_rules x)
next
  case (Some st)
  from serviceExitState_Exited [OF this] show ?thesis
    unfolding enqueueIfExit_def Some option.case live_process_def units_GetByPath_def
    by (intro ex_rules x; simp add: exit_proc_le_record)
qed

lemma ex_reconcileUnit: "rely (exit_le n q) x \<Longrightarrow> guar (exit_le n q) (reconcileUnit x c m)"
  unfolding reconcileUnit_def units_GetByPath_def by (intro ex_rules ex_Load)

lemma live_process_watched:
  assumes x: "rely (exit_le n q) x" and "watched n q s"
  shows "wp (live_process x n) (\<lambda>p s'. watched n q s' \<and> (p = None \<or> p = Some q)) s"
  unfolding live_process_def units_GetByPath_def
proof (rule wp_bindI, rule ex.read_step [OF x kept_watched assms(2)])
  fix t :: "'a shim" assume t: "watched n q t"
  then have "GetByPath (sh_units t) n = Some q" by (simp add: watched_def)
  then show "wp (case GetByPath (sh_units t) n of None \<Rightarrow> return_go None
      | Some q \<Rightarrow> reading x (ptr_addr q) ProcessState \<bind> (\<lambda>st. return_go (if Exited st then None else Some q)))
      (\<lambda>p s'. watched n q s' \<and> (p = None \<or> p = Some q)) t"
    by (simp, intro wp_bindI kept_step [OF kept_watched [of n q] ex.guar_reading [OF x] t]) (simp add: wp_return)
qed

text \<open>A service signal that is taken leaves its exit on record.\<close>

lemma signal_recorded:
  assumes x: "rely (exit_le (pathBase u) q) x" and w: "watched (pathBase u) q s" and i: "interfaceName u = serviceInterface"
  shows "wp (enqueueIfExit x u) (\<lambda>b s'. b \<longrightarrow> p_hasSystemdExitState (sh_procs s' (ptr_addr q))
           \<and> Exited (p_systemdExitState (sh_procs s' (ptr_addr q)))) s"
proof (cases "serviceExitState (changed u)")
  case None
  then show ?thesis by (simp add: enqueueIfExit_def i wp_return)
next
  case (Some st)
  let ?Q = "\<lambda>b s'. b \<longrightarrow> p_hasSystemdExitState (sh_procs s' (ptr_addr q)) \<and> Exited (p_systemdExitState (sh_procs s' (ptr_addr q)))"
  have rcd: "wp (locked x (ptr_addr q) (\<lambda>pr. ((), RecordSystemdExitState pr st)) \<bind> (\<lambda>_. return_go True)) ?Q t"
    if "watched (pathBase u) q t" for t
  proof -
    have "exit_le (pathBase u) q t (interfere x t)" using x by (simp add: rely_def interfere_def ex.R_calls)
    with that kept_watched have "watched (pathBase u) q (interfere x t)" by (auto simp: kept_def)
    then show ?thesis
      using serviceExitState_Exited [OF Some]
      by (auto simp: wp_simps locked_def watched_def rec_ok_def RecordSystemdExitState_def)
  qed
  have "wp (live_process x (pathBase u) \<bind> (\<lambda>p. case p of None \<Rightarrow> return_go False
      | Some q \<Rightarrow> locked x (ptr_addr q) (\<lambda>pr. ((), RecordSystemdExitState pr st)) \<bind> (\<lambda>_. return_go True))) ?Q s"
    by (rule wp_bindI, rule wp_mono [OF live_process_watched [OF x w]], rule wp_optionI) (auto simp: wp_return intro: rcd)
  then show ?thesis by (simp add: enqueueIfExit_def i Some)
qed

subsubsection \<open>The invariant\<close>

lemma Add_dirty: "n \<in> wq_dirty (wq_Add q n) \<or> wq_shutdown (wq_Add q n)"
  by (simp add: dirty_Add)

lemma Add_more: "wq_dirty q \<subseteq> wq_dirty (wq_Add q m)" "wq_timers (wq_Add q m) = wq_timers q"
  "wq_shutdown (wq_Add q m) = wq_shutdown q"
  by (auto simp: wq_defs)

lemma fire_cases:
  "n \<in> fst ` set (wq_timers q) \<Longrightarrow> n \<in> fst ` set (wq_timers (wq_timer_fires q i)) \<or> n \<in> wq_dirty (wq_timer_fires q i)
     \<or> wq_shutdown (wq_timer_fires q i)"
proof (cases "i < length (wq_timers q)")
  case True
  assume "n \<in> fst ` set (wq_timers q)"
  moreover have "set (wq_timers q) = insert (wq_timers q ! i) (set (take i (wq_timers q) @ drop (Suc i) (wq_timers q)))"
    using arg_cong [OF id_take_nth_drop [OF True], of set] by simp
  ultimately have "n = fst (wq_timers q ! i) \<or> n \<in> fst ` set (take i (wq_timers q) @ drop (Suc i) (wq_timers q))"
    by auto
  then show ?thesis
    using True Add_dirty [of n "q\<lparr>wq_timers := take i (wq_timers q) @ drop (Suc i) (wq_timers q)\<rparr>"]
    by (auto simp: wq_timer_fires_def Add_more)
qed (simp add: wq_timer_fires_def)

lemma fire_frame: "wq_dirty q \<subseteq> wq_dirty (wq_timer_fires q i)" "wq_shutdown (wq_timer_fires q i) = wq_shutdown q"
  by (auto simp: wq_timer_fires_def dirty_Add Add_more)

lemma retry_cases:
  assumes "wq_Retry q n m b mx = (ok, q')"
  shows "wq_dirty q \<subseteq> wq_dirty q'" "set (wq_timers q) \<subseteq> set (wq_timers q')" "wq_shutdown q' = wq_shutdown q"
    "ok \<Longrightarrow> n \<in> wq_dirty q' \<or> n \<in> fst ` set (wq_timers q')"
  using assms by (auto simp: wq_Retry_def wq_AddAfter_def Let_def dirty_Add Add_more split: if_splits)

lemma after_reconcile_cases:
  assumes "after_reconcile q n e = (q', gave)"
  shows "wq_dirty q \<subseteq> wq_dirty q'" "set (wq_timers q) \<subseteq> set (wq_timers q')" "wq_shutdown q' = wq_shutdown q"
    "e \<noteq> None \<Longrightarrow> gave \<or> n \<in> wq_dirty q' \<or> n \<in> fst ` set (wq_timers q')"
proof -
  obtain ok q1 where r: "wq_Retry q n reconcileMaxRetries reconcileRetryBase reconcileRetryMax = (ok, q1)" by fastforce
  from assms show "wq_dirty q \<subseteq> wq_dirty q'" "set (wq_timers q) \<subseteq> set (wq_timers q')" "wq_shutdown q' = wq_shutdown q"
    "e \<noteq> None \<Longrightarrow> gave \<or> n \<in> wq_dirty q' \<or> n \<in> fst ` set (wq_timers q')"
    using retry_cases [OF r] r by (cases e; cases ok; auto simp: after_reconcile_def wq_Forget_def)+
qed

lemma exits_inv_world:
  assumes "exits_inv n q r" and "exit_le n q (ra_s r) s'"
  shows "exits_inv n q (r\<lparr>ra_s := s'\<rparr>)"
proof -
  have "watched n q (ra_s r) \<Longrightarrow> watched n q s'" "due n q (ra_s r) \<Longrightarrow> due n q s'" "over q (ra_s r) \<Longrightarrow> over q s'"
    using assms(2) kept_watched [of n q] kept_due [of n q] kept_over [of n q] unfolding kept_def by blast+
  with assms(1) show ?thesis by (auto simp: exits_inv_def settled_def active_def)
qed

text \<open>A step that leaves the shim's state alone keeps the invariant if it loses no pending work.\<close>

lemma exits_inv_keep:
  assumes "exits_inv n q r" and "ra_s r' = ra_s r" and "ra_exits r' = ra_exits r" and "active n r \<Longrightarrow> settled n q r'"
    and "ra_gave r \<subseteq> ra_gave r'" and "wq_shutdown (ra_q r) \<Longrightarrow> wq_shutdown (ra_q r')"
  shows "exits_inv n q r'"
  using assms by (auto simp: exits_inv_def settled_def)

lemma exits_signal:
  assumes x: "rely (exit_le n q) x" and a: "ra_add r = []" and run: "run_state (enqueueIfExit x u) (ra_s r) = (b, s')"
    and inv: "exits_inv n q r"
  shows "exits_inv n q (r\<lparr>ra_s := s', ra_add := (if b then [pathBase u] else []),
       ra_exits := (if b \<and> interfaceName u = serviceInterface \<and> has_pid s' (pathBase u)
                    then insert (pathBase u) (ra_exits r) else ra_exits r)\<rparr>)"
proof -
  have w: "exits_inv n q (r\<lparr>ra_s := s'\<rparr>)"
    by (rule exits_inv_world [OF inv guar_run [OF ex_enqueueIfExit [OF x] run]])
  have "due n q s'" if b "interfaceName u = serviceInterface" "has_pid s' n" "pathBase u = n"
  proof -
    have "watched n q (ra_s r)" "watched n q s'" using inv w by (simp_all add: exits_inv_def)
    with wpD [OF signal_recorded [of u q x "ra_s r"] run] x that show ?thesis
      by (auto simp: due_def exit_known_def has_pid_def watched_def)
  qed
  then have "due n q s'" if "b \<and> interfaceName u = serviceInterface \<and> has_pid s' (pathBase u)" "pathBase u = n" using that by blast
  with w a show ?thesis by (cases "pathBase u = n"; cases b) (simp_all add: exits_inv_def settled_def active_def)
qed

lemma exits_reconcile:
  assumes x: "rely (exit_le n q) x" and g: "ra_w r w = WGot m" and run: "run_state (reconcileUnit x c m) (ra_s r) = (e, s')"
    and inv: "exits_inv n q r"
  shows "exits_inv n q (r\<lparr>ra_s := s', ra_w := (ra_w r)(w := WRec m e)\<rparr>)"
proof -
  from exits_inv_world [OF inv guar_run [OF ex_reconcileUnit [OF x] run]] have i: "exits_inv n q (r\<lparr>ra_s := s'\<rparr>)" .
  have "over q s'" if "m = n" "e = None" "n \<in> ra_exits r"
    using wpD [OF reconcile_over [OF x, of "ra_s r" c]] run inv that by (auto simp: exits_inv_def)
  then have "n \<in> ra_exits r \<Longrightarrow> over q s' \<or> (busy n (WGot m) \<longrightarrow> busy n (WRec m e))" by auto
  with i g busy_upd [of n "ra_w r" w "WRec m e"] show ?thesis
    by (auto simp: exits_inv_def settled_def active_def simp del: fun_upd_apply busy.simps)
qed

lemma exits_step:
  assumes x: "rely (exit_le n q) x" and step: "reactor_step x c (exit_le n q) r r'" and inv: "exits_inv n q r"
  shows "exits_inv n q r'"
  using step inv
proof (induction rule: reactor_step.induct)
  case (signal r u b s')
  then show ?case by (intro exits_signal [OF x])
next
  case (reconnect r)
  show ?case by (rule exits_inv_keep [OF reconnect(2)]) (auto simp: settled_def active_def reconnect(1))
next
  case (enqueue r m ns)
  show ?case
    by (rule exits_inv_keep [OF enqueue(2)])
       (use Add_dirty [of m "ra_q r"] Add_more [of "ra_q r" m] enqueue(1) in \<open>auto simp: settled_def active_def\<close>)
next
  case (get r w m q')
  then have q': "wq_dirty q' = wq_dirty (ra_q r) - {m}" "wq_timers q' = wq_timers (ra_q r)" "wq_shutdown q' = wq_shutdown (ra_q r)"
    by (auto simp: wq_Get_def split: list.splits if_splits)
  have "\<exists>v. busy n (((ra_w r)(w := WGot m)) v)" if "m = n" by (rule exI [of _ w]) (simp add: that)
  then show ?case
    by (intro exits_inv_keep [OF get(3)])
       (use q' busy_upd [of n "ra_w r" w "WGot m"] get(1) in \<open>auto simp: settled_def active_def simp del: fun_upd_apply\<close>)
next
  case (reconcile r w m e s')
  then show ?case by (intro exits_reconcile [OF x])
next
  case (finish r w m e)
  have d: "wq_dirty (wq_Done (ra_q r) m) = wq_dirty (ra_q r)" "wq_timers (wq_Done (ra_q r) m) = wq_timers (ra_q r)"
    "wq_shutdown (wq_Done (ra_q r) m) = wq_shutdown (ra_q r)" by (simp_all add: wq_Done_def Let_def)
  show ?case
    by (rule exits_inv_keep [OF finish(2)])
       (use d busy_upd [of n "ra_w r" w "WDone m e"] finish(1) in \<open>auto simp: settled_def active_def simp del: fun_upd_apply\<close>)
next
  case (settle r w m e q' gave)
  note ac = after_reconcile_cases [OF settle(2)]
  show ?case
  proof (rule exits_inv_keep [OF settle(3)])
    assume "active n r"
    moreover have "(\<exists>v. busy n (ra_w r v)) \<Longrightarrow> m = n \<and> e \<noteq> None \<or> (\<exists>v. busy n (((ra_w r)(w := WIdle)) v))"
      using settle(1) by (metis busy.simps(4) fun_upd_apply)
    ultimately show "settled n q (r\<lparr>ra_q := q', ra_w := (ra_w r)(w := WIdle),
        ra_gave := (if gave then insert m (ra_gave r) else ra_gave r)\<rparr>)"
      using ac by (auto simp: settled_def active_def simp del: fun_upd_apply)
  qed (use ac(3) in auto)
next
  case (fire r i)
  show ?case
    by (rule exits_inv_keep [OF fire])
       (use fire_cases [of n "ra_q r" i] fire_frame [of "ra_q r" i] in \<open>auto simp: settled_def active_def\<close>)
next
  case (stop r)
  then show ?case by (simp add: exits_inv_def settled_def wq_ShutDown_def)
next
  case (abandon r i)
  then show ?case by (simp add: exits_inv_def settled_def wq_timer_abandoned_def)
next
  case (others r s')
  then show ?case by (simp add: exits_inv_world)
qed

lemma exits_reach:
  assumes x: "rely (exit_le n q) x" and r: "reactor_reach x c (exit_le n q) r0 r" and i: "exits_inv n q r0"
  shows "exits_inv n q r"
  using r i by (induction rule: reactor_reach.induct) (auto dest: exits_step [OF x])

text \<open>
  Nothing is left to do: the informer has added what it took, the queue is empty, no retry timer runs and every worker is idle.
\<close>

definition quiescent :: "'w reactor \<Rightarrow> bool" where
  "quiescent r \<longleftrightarrow> ra_add r = [] \<and> wq_queue (ra_q r) = [] \<and> wq_timers (ra_q r) = [] \<and> (\<forall>w. ra_w r w = WIdle)"

lemma quiescent_idle:
  assumes "quiescent r" and "wq_sys_inv (queue_view r)"
  shows "\<not> active n r"
proof -
  from assms have "(\<lambda>w. held (ra_w r w)) = Map.empty" by (simp add: quiescent_def)
  with assms have "wq_dirty (ra_q r) = {}" by (auto simp: queue_view_def quiescent_def wq_inv_def)
  with assms(1) show ?thesis by (simp add: active_def quiescent_def)
qed


subsection \<open>A concrete run\<close>

text \<open>One exit signal of the exec's unit, taken, enqueued, reconciled and settled by worker 0.\<close>

definition exit_signal :: unitUpdate where
  "exit_signal = \<lparr>pathBase = ''u_e'', interfaceName = serviceInterface,
     changed = [(''ExecMainPID'', VU32 7), (''ExecMainStatus'', VI32 0), (''ExecMainCode'', VI32 1),
                (''ExecMainExitTimestamp'', VU64 1)]\<rparr>"

abbreviation demo_running :: "unit shim" where
  "demo_running \<equiv> demo_shim running_process running_process"

definition demo_taken :: "bool \<times> unit shim" where
  "demo_taken = run_state (enqueueIfExit calm_env exit_signal) demo_running"

lemma exit_signal_state: "serviceExitState (changed exit_signal) = Some \<lparr>ExitedAt = 1000, ExitCode = 0, Pid = 7, Status = ''exited''\<rparr>"
  by (simp add: exit_signal_def serviceExitState_def exitStatusFor_def UnixMicro_def)

lemma demo_taken_eq: "demo_taken = (True, demo_running\<lparr>sh_procs := (sh_procs demo_running)(1 :=
    running_process\<lparr>p_systemdExitState := \<lparr>ExitedAt = 1000, ExitCode = 0, Pid = 7, Status = ''exited''\<rparr>, p_hasSystemdExitState := True\<rparr>)\<rparr>)"
proof -
  have i: "interfaceName exit_signal = serviceInterface" "pathBase exit_signal = ''u_e''" by (simp_all add: exit_signal_def)
  show ?thesis
    by (simp add: demo_taken_def enqueueIfExit_def i exit_signal_state live_process_def units_GetByPath_def GetByPath_def
        calm_runs calm_atomic ProcessState_def CopyTo_zero Exited_iff RecordSystemdExitState_def blank_process_def)
qed

lemma demo_taken_reconcile: "fst (run_state (reconcileUnit calm_env ReqCtx ''u_e'') (snd demo_taken)) = None"
  by (simp add: demo_taken_eq reconcileUnit_def units_GetByPath_def GetByPath_def exec_LoadState_def exec_readExitState_def readExitState_def
      exec_LoadExitState_def loadRecordedSystemdExitState_def countState_def process_Pid_def ProcessState_def CopyTo_zero
      calm_runs calm_atomic ignore_def Exited_iff split: prod.splits)

definition demo_rest :: "unit reactor" where
  "demo_rest = \<lparr>ra_q = newUnitWorkQueue, ra_s = snd (run_state (reconcileUnit calm_env ReqCtx ''u_e'') (snd demo_taken)),
     ra_add = [], ra_w = (\<lambda>_. WIdle), ra_gave = {}, ra_exits = {''u_e''}\<rparr>"

lemma demo_reach: "reactor_reach calm_env ReqCtx R (newEventReactor demo_running) demo_rest"
proof -
  define s1 where "s1 = snd demo_taken"
  define s2 where "s2 = snd (run_state (reconcileUnit calm_env ReqCtx ''u_e'') s1)"
  let ?q = "newUnitWorkQueue" and ?n = "''u_e''"
  let ?r1 = "\<lparr>ra_q = ?q, ra_s = s1, ra_add = [?n], ra_w = (\<lambda>_. WIdle), ra_gave = {}, ra_exits = {?n}\<rparr>"
  let ?r2 = "?r1\<lparr>ra_q := wq_Add ?q ?n, ra_add := []\<rparr>"
  let ?q3 = "?q\<lparr>wq_processing := {?n}\<rparr>"
  let ?r3 = "?r2\<lparr>ra_q := ?q3, ra_w := (\<lambda>_. WIdle)(0 := WGot ?n)\<rparr>"
  let ?r4 = "?r3\<lparr>ra_s := s2, ra_w := (\<lambda>_. WIdle)(0 := WRec ?n None)\<rparr>"
  let ?r5 = "?r4\<lparr>ra_q := ?q, ra_w := (\<lambda>_. WIdle)(0 := WDone ?n None)\<rparr>"
  let ?step = "reactor_step calm_env ReqCtx R"
  have pid: "has_pid s1 ?n" by (simp add: has_pid_def s1_def demo_taken_eq GetByPath_def)
  have a1: "?step (newEventReactor demo_running) ?r1"
    using reactor_step.signal [of "newEventReactor demo_running" calm_env exit_signal True s1 ReqCtx R] pid demo_taken_eq
    by (simp add: newEventReactor_def s1_def demo_taken_def exit_signal_def)
  have a2: "?step ?r1 ?r2" using reactor_step.enqueue [of ?r1 ?n "[]"] by simp
  have a3: "?step ?r2 ?r3"
    using reactor_step.get [of ?r2 0 ?n ?q3] by (simp add: wq_Get_def wq_Add_def newUnitWorkQueue_def)
  have a4: "?step ?r3 ?r4"
    using reactor_step.reconcile [of ?r3 0 ?n calm_env ReqCtx None s2] demo_taken_reconcile
    by (simp add: s1_def s2_def prod_eq_iff)
  have a5: "?step ?r4 ?r5"
    using reactor_step.finish [of ?r4 0 ?n None] by (simp add: wq_Done_def newUnitWorkQueue_def)
  have a6: "?step ?r5 demo_rest"
    using reactor_step.settle [of ?r5 0 ?n None ?q False] fun_upd_idem [of "\<lambda>_::nat. WIdle" 0 WIdle]
    by (simp add: after_reconcile_def wq_Forget_def newUnitWorkQueue_def demo_rest_def s1_def s2_def)
  show ?thesis
    by (rule reach_step [OF reach_step [OF reach_step [OF reach_step [OF reach_step [OF reach_step [OF reach_refl a1] a2] a3] a4] a5] a6])
qed


theorem reactor_refines_queue_witness:
  "(\<exists>ls. wq_run wq_start ls (queue_view demo_rest)) \<and> wq_inv (ra_q demo_rest)"
  using reactor_refines_queue [OF demo_reach] by blast

end
