(* ===== verification/ReExec.thy ===== *)
theory ReExec
  imports Logic
begin

text \<open>
  The helper the shim runs inside a unit: the \<open>create\<close> command of the binary (\<open>create.go\<close>, from
  \<open>createCmd\<close> on). It runs runc, finds out what became of the workload runc left behind, writes that to the
  state file the shim reads, and tells systemd. It is a process of its own and shares no memory with
  the shim, so it has a state and an outside of its own here: \<open>helper\<close> and \<open>henv\<close>.
\<close>

subsection \<open>The outside of the helper\<close>

datatype open_mode = O_RDWR | O_RDONLY | O_WRONLY

text \<open>
  A decoded \<open>unix.WaitStatus\<close>: the answers of its methods \<open>Signaled\<close>, \<open>ExitStatus\<close> and \<open>Signal\<close>.
\<close>

record wait_status =
  ws_Signaled :: bool
  ws_ExitStatus :: int
  ws_Signal :: int

text \<open>
  The calls of the helper. The ones whose answer matters to what may happen later carry it:
  what \<open>cmd.Wait\<close> and \<open>wait4\<close> returned, and whether a file was written.
\<close>

datatype hcall =
    LoadCgroup bool string
  | AddProc string
  | OpenFifo string open_mode
  | SetSubreaper
  | StartCommand "string list" "string option" "string option" "string option"
  | WaitCommand "int option"
  | HRead string
  | Wait4 int "(int \<times> wait_status) result"
  | WriteState string string "err option"
  | SdNotify string
  | NotifySocket
  | NotifyPipe
  | SendBarrier string
  | BarrierDeadline time
  | ReadBarrier
  | Mkdir string
  | MountAll "task_mount list" string "err option"
  | UnmountAll string
  | ReadStdin
  | HLookPath string
  | RunFeatures string
  | Output string
  | WriteAddress string string
  | Executable
  | SystemdConnect
  | SystemdReload
  | SystemdStart string
  | JobStatus string
  | SystemdStop string
  | SystemdDisable "string list"
  | HWriteFile string string
  | HRemove string
  | HShimLog log_call "err option"

record 'w henv =
  h_getenv :: "string \<Rightarrow> string"
  h_unified :: bool
  h_err :: "hcall \<Rightarrow> 'w \<Rightarrow> err option \<times> 'w"
  h_wait :: "'w \<Rightarrow> int option \<times> 'w"
  h_cmd_pid :: int
  h_str :: "hcall \<Rightarrow> 'w \<Rightarrow> string result \<times> 'w"
  h_wait4 :: "int \<Rightarrow> 'w \<Rightarrow> (int \<times> wait_status) result \<times> 'w"
  h_write :: "string \<Rightarrow> string \<Rightarrow> 'w \<Rightarrow> err option \<times> 'w"
  h_now :: "'w \<Rightarrow> time \<times> 'w"
  h_done :: "'w \<Rightarrow> bool \<times> 'w"
  h_deadline :: "time option"
  h_json_state :: "pState \<Rightarrow> string result"

record 'w helper =
  hs_world :: 'w
  hs_calls :: "hcall list"

type_synonym ('w, 'a) hgo = "('w helper, 'a) state"

definition hext :: "('a \<Rightarrow> hcall list) \<Rightarrow> ('w \<Rightarrow> 'a \<times> 'w) \<Rightarrow> ('w, 'a) hgo" where
  "hext cs f = State (\<lambda>s. case f (hs_world s) of (r, w) \<Rightarrow> (r, \<lparr>hs_world = w, hs_calls = hs_calls s @ cs r\<rparr>))"

definition hcallE :: "'w henv \<Rightarrow> hcall \<Rightarrow> ('w, err option) hgo" where
  "hcallE x k = hext (\<lambda>_. [k]) (h_err x k)"

text \<open>A call whose outcome is kept with it.\<close>

definition hcallR :: "'w henv \<Rightarrow> (err option \<Rightarrow> hcall) \<Rightarrow> ('w, err option) hgo" where
  "hcallR x k = hext (\<lambda>e. [k e]) (h_err x (k None))"

definition hnow :: "'w henv \<Rightarrow> ('w, time) hgo" where
  "hnow x = hext (\<lambda>_. []) (h_now x)"

definition hcallS :: "'w henv \<Rightarrow> hcall \<Rightarrow> ('w, string result) hgo" where
  "hcallS x k = hext (\<lambda>_. [k]) (h_str x k)"

definition hread :: "'w henv \<Rightarrow> string \<Rightarrow> ('w, string result) hgo" where
  "hread x path = hcallS x (HRead path)"

subsection \<open>Telling systemd\<close>

fun strings_Join :: "string list \<Rightarrow> string \<Rightarrow> string" where
  "strings_Join [] sep = ''''"
| "strings_Join [s] sep = s"
| "strings_Join (s # t # ss) sep = s @ sep @ strings_Join (t # ss) sep"

definition notifyMainPID :: "u32 \<Rightarrow> string" where
  "notifyMainPID pid = ''MAINPID='' @ show_nat (unat pid)"

definition notifyStatus :: "string \<Rightarrow> string" where
  "notifyStatus status = ''STATUS='' @ status"

definition notifyErrno :: "u32 \<Rightarrow> string" where
  "notifyErrno errno = ''ERRNO='' @ show_nat (unat errno)"

definition sdNotify :: "'w henv \<Rightarrow> string list \<Rightarrow> ('w, unit) hgo" where
  "sdNotify x status = do { _ \<leftarrow> hcallE x (SdNotify (strings_Join status ''\<newline>'')); return_go () }"

definition notifyWorkload :: "'w henv \<Rightarrow> pState \<Rightarrow> ('w, unit) hgo" where
  "notifyWorkload x st =
     (if Status st = ''exited''
      then sdNotify x [notifyStatus (Status st), notifyErrno (ExitCode st), notifyMainPID (Pid st)]
      else if Status st = ''running'' then sdNotify x [''READY=1'', notifyMainPID (Pid st)]
      else return_go ())"

definition notifyBarrierTimeout :: int where
  "notifyBarrierTimeout = 5000000000"

text \<open>
  Reading end of file is how the barrier is released; \<open>ErrOther ''EOF''\<close> is that answer.
\<close>

definition sdNotifyBarrier :: "'w henv \<Rightarrow> ('w, err option) hgo" where
  "sdNotifyBarrier x =
     (let addr = h_getenv x ''NOTIFY_SOCKET'' in
      if addr = '''' then return_go None
      else do {
        e \<leftarrow> hcallE x NotifySocket;
        if e \<noteq> None then return_go e
        else do {
          e \<leftarrow> hcallE x NotifyPipe;
          if e \<noteq> None then return_go e
          else do {
            e \<leftarrow> hcallE x (SendBarrier addr);
            if e \<noteq> None then return_go e
            else do {
              t \<leftarrow> hnow x;
              let deadline = t + notifyBarrierTimeout;
              let deadline = (case h_deadline x of Some e \<Rightarrow> if e < deadline then e else deadline | None \<Rightarrow> deadline);
              e \<leftarrow> hcallE x (BarrierDeadline deadline);
              if e \<noteq> None then return_go e
              else do {
                e \<leftarrow> hcallE x ReadBarrier;
                return_go (if e \<noteq> None \<and> e \<noteq> Some (ErrOther ''EOF'') then e else None) } } } } })"

subsection \<open>The workload\<close>

definition pidFileTimeout :: int where
  "pidFileTimeout = 5000000000"

text \<open>
  One unit of fuel per attempt to read the file; \<open>None\<close> is a loop still running.
\<close>

fun readPidFile_until :: "'w henv \<Rightarrow> string \<Rightarrow> time \<Rightarrow> nat \<Rightarrow> ('w, int result option) hgo" where
  "readPidFile_until x path deadline 0 = return_go None"
| "readPidFile_until x path deadline (Suc n) = do {
     data \<leftarrow> hread x path;
     let pid = (case data of
                  Inl e \<Rightarrow> Inl e
                | Inr d \<Rightarrow> (case Atoi (TrimSpace d) of
                     Some pid \<Rightarrow> Inr pid | None \<Rightarrow> Inl (ErrOther ''invalid pid'')));
     case pid of
       Inr pid \<Rightarrow> return_go (Some (Inr pid))
     | Inl e \<Rightarrow> do {
         t \<leftarrow> hnow x;
         if After t deadline then return_go (Some (Inl e))
         else do {
           d \<leftarrow> hext (\<lambda>_. []) (h_done x);
           if d then return_go (Some (Inl ErrCanceled)) else readPidFile_until x path deadline n } } }"

definition readPidFile :: "'w henv \<Rightarrow> string \<Rightarrow> nat \<Rightarrow> ('w, int result option) hgo" where
  "readPidFile x path n = do { t \<leftarrow> hnow x; readPidFile_until x path (t + pidFileTimeout) n }"

definition workloadState :: "'w henv \<Rightarrow> int \<Rightarrow> ('w, pState result) hgo" where
  "workloadState x pid = do {
     r \<leftarrow> hext (\<lambda>r. [Wait4 pid r]) (h_wait4 x pid);
     case r of
       Inl e \<Rightarrow> return_go (Inl e)
     | Inr (reaped, ws) \<Rightarrow>
         if reaped \<noteq> pid
         then return_go (Inr (pState_zero\<lparr>Pid := word_of_int pid, Status := ''running''\<rparr>))
         else do {
           t \<leftarrow> hnow x;
           let st = \<lparr>ExitedAt = t, ExitCode = word_of_int (ws_ExitStatus ws), Pid = word_of_int pid, Status = ''exited''\<rparr>;
           return_go (Inr (if ws_Signaled ws
                           then st\<lparr>ExitCode := word_of_int (uint exitSignalOffset + ws_Signal ws)\<rparr> else st)) } }"

subsection \<open>The command\<close>

definition setCgroup :: "'w henv \<Rightarrow> ('w, err option) hgo" where
  "setCgroup x =
     (let cgPath = h_getenv x ''SHIM_CGROUP'' in
      if cgPath = '''' then return_go None
      else do {
        e \<leftarrow> hcallE x (LoadCgroup (h_unified x) cgPath);
        if e \<noteq> None then return_go e else hcallE x (AddProc cgPath) })"

text \<open>
  One of the three fifos: opened for reading and writing first, so that the open does not block, then in
  the mode the command gets it in. With \<open>lenient\<close> a fifo that is not there is left out.
\<close>

definition open_fifo :: "'w henv \<Rightarrow> string \<Rightarrow> open_mode \<Rightarrow> bool \<Rightarrow> ('w, string option result) hgo" where
  "open_fifo x p mode lenient =
     (if p = '''' then return_go (Inr None)
      else do {
        e \<leftarrow> hcallE x (OpenFifo p O_RDWR);
        case e of
          Some err \<Rightarrow> return_go (if lenient then Inr None else Inl err)
        | None \<Rightarrow> do {
            e \<leftarrow> hcallE x (OpenFifo p mode);
            return_go (case e of Some err \<Rightarrow> Inl err | None \<Rightarrow> Inr (Some p)) } })"

definition writeFile :: "'w henv \<Rightarrow> pState \<Rightarrow> ('w, err option) hgo" where
  "writeFile x st = (case h_json_state x st of
     Inl e \<Rightarrow> return_go (Some e)
   | Inr data \<Rightarrow> (let path = h_getenv x ''EXIT_STATE_PATH''
                  in hext (\<lambda>e. [WriteState path data e]) (h_write x path data)))"

text \<open>
  The deferred function: a state with an exit code and an exit time makes the command fail, if it has not
  failed for another reason.
\<close>

definition exit_error :: "err option \<times> pState \<Rightarrow> err option" where
  "exit_error r = (case r of (e, st) \<Rightarrow>
     if e \<noteq> None then e
     else if ExitCode st = 0 then None
     else if ExitedAt st = go_zero_time then None
     else Some (ErrOther (''process exited with code '' @ show_nat (unat (ExitCode st)))))"

text \<open>After \<open>runc\<close> failed: the exit of the helper itself is recorded.\<close>

definition runc_failed :: "'w henv \<Rightarrow> int \<Rightarrow> ('w, err option \<times> pState) hgo" where
  "runc_failed x code = do {
     t \<leftarrow> hnow x;
     let st = \<lparr>ExitedAt = t, ExitCode = word_of_int code, Pid = word_of_int (h_cmd_pid x), Status = exitedInit\<rparr>;
     e \<leftarrow> writeFile x st;
     sdNotify x [notifyErrno (ExitCode st), notifyStatus (Status st)];
     return_go (e, st) }"

text \<open>
  Writing the state and telling systemd, and, if the workload was still running then, waiting for systemd
  and looking once more. The second component is the value of the variable \<open>st\<close> at the return.
\<close>

definition hand_off :: "'w henv \<Rightarrow> int \<Rightarrow> pState \<Rightarrow> ('w, err option \<times> pState) hgo" where
  "hand_off x pid st = do {
     e \<leftarrow> writeFile x st;
     if e \<noteq> None then return_go (e, st)
     else do {
       notifyWorkload x st;
       if Status st \<noteq> ''running'' then return_go (None, st)
       else do {
         _ \<leftarrow> sdNotifyBarrier x;
         r \<leftarrow> workloadState x pid;
         case r of
           Inl _ \<Rightarrow> return_go (None, pState_zero)
         | Inr st \<Rightarrow>
             if Status st = ''running'' then return_go (None, st)
             else do {
               e \<leftarrow> writeFile x st;
               if e \<noteq> None then return_go (e, st)
               else do { notifyWorkload x st; return_go (None, st) } } } } }"

definition report_workload :: "'w henv \<Rightarrow> bool \<Rightarrow> nat \<Rightarrow> ('w, (err option \<times> pState) option) hgo" where
  "report_workload x noReap n = do {
     w \<leftarrow> hext (\<lambda>r. [WaitCommand r]) (h_wait x);
     case w of
       Some code \<Rightarrow> do { r \<leftarrow> runc_failed x code; return_go (Some r) }
     | None \<Rightarrow> do {
         p \<leftarrow> readPidFile x (h_getenv x ''PIDFILE'') n;
         case p of
           None \<Rightarrow> return_go None
         | Some (Inl e) \<Rightarrow> return_go (Some (Some e, pState_zero))
         | Some (Inr pid) \<Rightarrow>
             if noReap then do { r \<leftarrow> hand_off x pid (pState_zero\<lparr>Pid := word_of_int pid\<rparr>); return_go (Some r) }
             else do {
               r \<leftarrow> workloadState x pid;
               case r of
                 Inl e \<Rightarrow> return_go (Some (Some e, pState_zero))
               | Inr st \<Rightarrow> do { r \<leftarrow> hand_off x pid st; return_go (Some r) } } } }"

definition run_command ::
  "'w henv \<Rightarrow> string list \<Rightarrow> bool \<Rightarrow> string option \<Rightarrow> string option \<Rightarrow> string option \<Rightarrow> nat \<Rightarrow> ('w, err option option) hgo" where
  "run_command x cmdLine noReap stdin stdout stderr n = do {
     _ \<leftarrow> (if noReap then return_go None else hcallE x SetSubreaper);
     e \<leftarrow> hcallE x (StartCommand cmdLine stdin stdout stderr);
     if e \<noteq> None then return_go (Some e)
     else do { r \<leftarrow> report_workload x noReap n; return_go (map_option exit_error r) } }"

definition createCmd :: "'w henv \<Rightarrow> string list \<Rightarrow> bool \<Rightarrow> bool \<Rightarrow> nat \<Rightarrow> ('w, err option option) hgo" where
  "createCmd x cmdLine tty noReap n =
     (if cmdLine = [] then return_go (Some (Some (Panic ''index out of range'')))
      else do {
        _ \<leftarrow> setCgroup x;
        i \<leftarrow> open_fifo x (h_getenv x ''STDIN_FIFO'') O_RDONLY False;
        case i of
          Inl e \<Rightarrow> return_go (Some (Some e))
        | Inr stdin \<Rightarrow> do {
            out \<leftarrow> open_fifo x (h_getenv x ''STDOUT_FIFO'') O_WRONLY False;
            case out of
              Inl e \<Rightarrow> return_go (Some (Some e))
            | Inr stdout \<Rightarrow> do {
                er \<leftarrow> open_fifo x (h_getenv x ''STDERR_FIFO'') O_WRONLY tty;
                case er of
                  Inl e \<Rightarrow> return_go (Some (Some e))
                | Inr stderr \<Rightarrow> run_command x cmdLine noReap stdin stdout stderr n } } })"

subsection \<open>Reasoning about the helper\<close>

text \<open>
  \<open>hp m Q\<close>: whatever the outside answers, \<open>m\<close> appends a list of calls to the trace, and \<open>Q\<close> holds of its
  result and that list.
\<close>

abbreviation hp :: "('w, 'a) hgo \<Rightarrow> ('a \<Rightarrow> hcall list \<Rightarrow> bool) \<Rightarrow> bool" where
  "hp \<equiv> logs hs_calls"

lemmas hp_def = logs_def [where log = hs_calls]
lemmas hpD = logsD [where log = hs_calls]
lemmas hp_mono = logs_mono [where log = hs_calls]
lemmas hp_return = logs_return [where log = hs_calls]
lemmas hp_bind = logs_bind [where log = hs_calls]
lemmas hp_if = logs_if [where log = hs_calls]
lemmas hp_option = logs_option [where log = hs_calls]
lemmas hp_sum = logs_sum [where log = hs_calls]
lemmas hp_prod = logs_prod [where log = hs_calls]
lemmas hp_Let = logs_Let [where log = hs_calls]

lemma hp_hext [hp_rules]: "(\<And>r. Q r (cs r)) \<Longrightarrow> hp (hext cs f) Q"
  by (auto simp: hp_def hext_def wp_def split: prod.splits)

lemma hp_hcallE [hp_rules]: "(\<And>r. Q r [k]) \<Longrightarrow> hp (hcallE x k) Q"
  unfolding hcallE_def by (rule hp_hext)

lemma hp_hcallR [hp_rules]: "(\<And>r. Q r [k r]) \<Longrightarrow> hp (hcallR x k) Q"
  unfolding hcallR_def by (rule hp_hext)

lemma hp_hnow [hp_rules]: "(\<And>r. Q r []) \<Longrightarrow> hp (hnow x) Q"
  unfolding hnow_def by (rule hp_hext)

lemma hp_hcallS [hp_rules]: "(\<And>r. Q r [k]) \<Longrightarrow> hp (hcallS x k) Q"
  unfolding hcallS_def by (rule hp_hext)

lemma hp_hread [hp_rules]: "(\<And>r. Q r [HRead path]) \<Longrightarrow> hp (hread x path) Q"
  unfolding hread_def by (rule hp_hcallS)

text \<open>Calls that do not reap the workload.\<close>

fun reaps :: "hcall \<Rightarrow> bool" where
  "reaps (Wait4 pid (Inr (reaped, ws))) \<longleftrightarrow> reaped = pid"
| "reaps _ \<longleftrightarrow> False"

fun launches :: "hcall \<Rightarrow> bool" where
  "launches (StartCommand cmd i out er) \<longleftrightarrow> True"
| "launches _ \<longleftrightarrow> False"

abbreviation harmless :: "hcall list \<Rightarrow> bool" where
  "harmless cs \<equiv> list_all (\<lambda>k. \<not> reaps k) cs"

text \<open>Most steps neither reap nor run a command.\<close>

abbreviation quiet :: "hcall list \<Rightarrow> bool" where
  "quiet cs \<equiv> list_all (\<lambda>k. \<not> reaps k \<and> \<not> launches k) cs"

lemma quiet_setCgroup: "hp (setCgroup x) (\<lambda>_ cs. quiet cs)"
  unfolding setCgroup_def by (intro hp_rules; simp)+

lemma quiet_open_fifo: "hp (open_fifo x p mode lenient) (\<lambda>_ cs. quiet cs)"
  unfolding open_fifo_def by (intro hp_rules; simp)+

lemma quiet_sdNotifyBarrier: "hp (sdNotifyBarrier x) (\<lambda>_ cs. quiet cs)"
  unfolding sdNotifyBarrier_def by (intro hp_rules; simp)+

lemma quiet_readPidFile_until: "hp (readPidFile_until x path dl n) (\<lambda>_ cs. quiet cs)"
proof (induction n)
  case 0
  show ?case by (simp add: hp_return)
next
  case (Suc n)
  show ?case unfolding readPidFile_until.simps
    by (intro hp_rules hp_mono [OF Suc]; simp)+
qed

lemma quiet_readPidFile: "hp (readPidFile x path n) (\<lambda>_ cs. quiet cs)"
  unfolding readPidFile_def
  by (intro hp_rules hp_mono [OF quiet_readPidFile_until]; simp)+

lemma quiet_writeFile: "hp (writeFile x st) (\<lambda>_ cs. quiet cs)"
  unfolding writeFile_def by (intro hp_rules; simp)+

lemma quiet_notifyWorkload: "hp (notifyWorkload x st) (\<lambda>_ cs. quiet cs)"
  unfolding notifyWorkload_def sdNotify_def by (intro hp_rules; simp)+

lemmas quiet_steps = quiet_setCgroup quiet_open_fifo quiet_sdNotifyBarrier quiet_readPidFile
  quiet_writeFile quiet_notifyWorkload

lemma quiet_harmless: "hp m (\<lambda>_ cs. quiet cs) \<Longrightarrow> hp m (\<lambda>_ cs. harmless cs)"
  by (erule hp_mono) (auto simp: list_all_iff)

lemmas harmless_steps = quiet_steps [THEN quiet_harmless]

subsection \<open>What the helper reports\<close>

text \<open>
  What \<open>wait4\<close> documents of a process that has ended: a signal number, or an exit status of one byte; and
  the pair of values systemd shows for the same end.
\<close>

definition wait_status_ok :: "wait_status \<Rightarrow> bool" where
  "wait_status_ok ws \<longleftrightarrow>
     (if ws_Signaled ws then 0 < ws_Signal ws \<and> ws_Signal ws < 128 else 0 \<le> ws_ExitStatus ws \<and> ws_ExitStatus ws < 256)"

definition main_code :: "wait_status \<Rightarrow> i32" where
  "main_code ws = (if ws_Signaled ws then cldKilled else cldExited)"

definition main_status :: "wait_status \<Rightarrow> i32" where
  "main_status ws = word_of_int (if ws_Signaled ws then ws_Signal ws else ws_ExitStatus ws)"

text \<open>The state of a workload that ended at \<open>t\<close>, with the exit code the shim derives from systemd's values.\<close>

definition ended_state :: "int \<Rightarrow> wait_status \<Rightarrow> time \<Rightarrow> pState" where
  "ended_state pid ws t =
     \<lparr>ExitedAt = t, ExitCode = exitStatusFor (main_code ws) (main_status ws), Pid = word_of_int pid, Status = ''exited''\<rparr>"

definition ended_notice :: "pState \<Rightarrow> hcall" where
  "ended_notice st = SdNotify (strings_Join [notifyStatus (Status st), notifyErrno (ExitCode st), notifyMainPID (Pid st)] ''\<newline>'')"

text \<open>
  \<open>reported x pid ws cs r\<close>: the trace \<open>cs\<close> ends with the reaping of \<open>pid\<close>, then the write of its state, then
  the notification; a failing step is the last one and its error is the result \<open>r\<close>.
\<close>

definition report_tail :: "'w henv \<Rightarrow> pState \<Rightarrow> hcall list \<Rightarrow> err option \<Rightarrow> bool" where
  "report_tail x st cs r \<longleftrightarrow> (case h_json_state x st of
     Inl e \<Rightarrow> cs = [] \<and> r = Some e
   | Inr d \<Rightarrow> cs = [WriteState (h_getenv x ''EXIT_STATE_PATH'') d None, ended_notice st] \<and> r = exit_error (None, st)
           \<or> (\<exists>e. cs = [WriteState (h_getenv x ''EXIT_STATE_PATH'') d (Some e)] \<and> r = Some e))"

definition reported :: "'w henv \<Rightarrow> int \<Rightarrow> wait_status \<Rightarrow> hcall list \<Rightarrow> err option \<Rightarrow> bool" where
  "reported x pid ws cs r \<longleftrightarrow> (\<exists>pre t tl. harmless pre \<and> cs = pre @ Wait4 pid (Inr (pid, ws)) # tl
     \<and> report_tail x (ended_state pid ws t) tl r)"

lemma sint_small: "- (2 ^ 31) \<le> i \<Longrightarrow> i < 2 ^ 31 \<Longrightarrow> sint (word_of_int i :: i32) = i"
  by (subst signed_of_int) (simp add: signed_take_bit_int_eq_self)

lemma reaped_code:
  assumes "wait_status_ok ws"
  shows "(if ws_Signaled ws then word_of_int (uint exitSignalOffset + ws_Signal ws) else word_of_int (ws_ExitStatus ws))
       = exitStatusFor (main_code ws) (main_status ws)"
proof -
  have "sint (main_status ws) = (if ws_Signaled ws then ws_Signal ws else ws_ExitStatus ws)"
    using assms by (auto simp: main_status_def wait_status_ok_def sint_small)
  then show ?thesis
    using assms by (auto simp: exitStatusFor_def main_code_def main_status_def wait_status_ok_def
      cldKilled_def cldDumped_def cldExited_def)
qed

text \<open>
  \<open>wait4_ok x\<close>: the outside answers \<open>wait4\<close> as documented. \<open>accounted x r cs\<close>: whatever was reaped in \<open>cs\<close> was
  reported.
\<close>

definition wait4_ok :: "'w henv \<Rightarrow> bool" where
  "wait4_ok x \<longleftrightarrow> (\<forall>pid w ws w'. h_wait4 x pid w = (Inr (pid, ws), w') \<longrightarrow> wait_status_ok ws)"

definition accounted :: "'w henv \<Rightarrow> err option \<Rightarrow> hcall list \<Rightarrow> bool" where
  "accounted x r cs \<longleftrightarrow> (\<forall>pid ws. Wait4 pid (Inr (pid, ws)) \<in> set cs \<longrightarrow> reported x pid ws cs r)"

lemma accounted_harmless: "harmless cs \<Longrightarrow> accounted x r cs"
  by (auto simp: accounted_def list_all_iff)

lemma accounted_prefix: "harmless pre \<Longrightarrow> accounted x r cs \<Longrightarrow> accounted x r (pre @ cs)"
  unfolding accounted_def
proof (intro allI impI)
  fix pid ws
  assume pre: "harmless pre" and cs: "\<forall>pid ws. Wait4 pid (Inr (pid, ws)) \<in> set cs \<longrightarrow> reported x pid ws cs r"
    and "Wait4 pid (Inr (pid, ws)) \<in> set (pre @ cs)"
  then have "reported x pid ws cs r" by (auto simp: list_all_iff)
  then obtain p t tl where "harmless p" "cs = p @ Wait4 pid (Inr (pid, ws)) # tl" "report_tail x (ended_state pid ws t) tl r"
    unfolding reported_def by blast
  with pre show "reported x pid ws (pre @ cs) r"
    unfolding reported_def by (intro exI [of _ "pre @ p"] exI [of _ t] exI [of _ tl]) simp
qed

lemma hp_notify_ended: "Status st = ''exited'' \<Longrightarrow> hp (notifyWorkload x st) (\<lambda>_ cs. cs = [ended_notice st])"
  unfolding notifyWorkload_def sdNotify_def by (intro hp_rules; simp add: ended_notice_def)+

text \<open>What follows a reaping: the state is written and systemd is told.\<close>

lemma hp_report_ended:
  assumes ended: "Status st = ''exited''"
  shows "hp (do { e \<leftarrow> writeFile x st;
                  if e \<noteq> None then return_go (e, st)
                  else do { notifyWorkload x st; return_go (None, st) } })
            (\<lambda>r cs. report_tail x st cs (exit_error r))"
proof -
  show ?thesis
    unfolding writeFile_def
    by (intro hp_rules hp_mono [OF hp_notify_ended [OF ended]])
      (auto simp: report_tail_def exit_error_def)
qed

lemma accounted_tail:
  assumes "report_tail x (ended_state pid ws t) cs r"
  shows "accounted x r (Wait4 pid (Inr (pid, ws)) # cs)"
proof -
  from assms have "harmless cs" by (auto simp: report_tail_def ended_notice_def split: sum.splits)
  moreover from assms have "reported x pid ws (Wait4 pid (Inr (pid, ws)) # cs) r"
    unfolding reported_def by (intro exI [of _ "[]"] exI [of _ t] exI [of _ cs]) simp
  ultimately show ?thesis by (auto simp: accounted_def list_all_iff)
qed

lemma hp_workloadState:
  assumes "wait4_ok x"
  shows "hp (workloadState x pid) (\<lambda>r cs. \<exists>a. cs = [Wait4 pid a] \<and>
    (case a of Inl e \<Rightarrow> r = Inl e
     | Inr (reaped, ws) \<Rightarrow>
         if reaped \<noteq> pid then r = Inr (pState_zero\<lparr>Pid := word_of_int pid, Status := ''running''\<rparr>)
         else \<exists>t. r = Inr (ended_state pid ws t)))"
proof -
  have reap: "hp (hext (\<lambda>r. [Wait4 pid r]) (h_wait4 x pid))
    (\<lambda>r cs. cs = [Wait4 pid r] \<and> (\<forall>ws. r = Inr (pid, ws) \<longrightarrow> wait_status_ok ws))"
    using assms by (auto simp: hp_def hext_def wp_def wait4_ok_def split: prod.splits)
  show ?thesis
    unfolding workloadState_def
    by (rule hp_bind, rule hp_mono [OF reap], intro hp_rules)
      (auto simp: ended_state_def reaped_code [symmetric])
qed

lemma hp_hand_off_ended: "hp (hand_off x pid (ended_state pid ws t)) (\<lambda>r cs. report_tail x (ended_state pid ws t) cs (exit_error r))"
proof -
  have "hand_off x pid st = do { e \<leftarrow> writeFile x st;
           if e \<noteq> None then return_go (e, st) else do { notifyWorkload x st; return_go (None, st) } }"
    if "Status st = ''exited''" for st
    using that by (simp add: hand_off_def cong: if_cong)
  moreover have ended: "Status (ended_state pid ws t) = ''exited''" by (simp add: ended_state_def)
  ultimately show ?thesis using hp_report_ended [OF ended] by simp
qed

text \<open>A step that reaps nothing may stand in front.\<close>

lemma hp_after_harmless:
  assumes "hp m (\<lambda>_ cs. harmless cs)" and "\<And>r. hp (f r) (\<lambda>r cs. accounted x (g r) cs)"
  shows "hp (State_Monad.bind m f) (\<lambda>r cs. accounted x (g r) cs)"
  by (rule hp_bind, rule hp_mono [OF assms(1)], rule hp_mono [OF assms(2)]) (rule accounted_prefix)

lemma hp_then_state:
  assumes x: "wait4_ok x"
    and ended: "\<And>ws t. hp (f (Inr (ended_state pid ws t))) (\<lambda>r cs. report_tail x (ended_state pid ws t) cs (g r))"
    and others: "\<And>r. (\<forall>ws t. r \<noteq> Inr (ended_state pid ws t)) \<Longrightarrow> hp (f r) (\<lambda>r cs. accounted x (g r) cs)"
  shows "hp (State_Monad.bind (workloadState x pid) f) (\<lambda>r cs. accounted x (g r) cs)"
proof (rule hp_bind, rule hp_mono [OF hp_workloadState [OF x]], elim exE conjE)
  fix r cs a
  assume cs: "cs = [Wait4 pid a]" and a: "case a of Inl e \<Rightarrow> r = Inl e
     | Inr (reaped, ws) \<Rightarrow>
         if reaped \<noteq> pid then r = Inr (pState_zero\<lparr>Pid := word_of_int pid, Status := ''running''\<rparr>)
         else \<exists>t. r = Inr (ended_state pid ws t)"
  show "hp (f r) (\<lambda>r cs'. accounted x (g r) (cs @ cs'))"
  proof (cases "\<exists>ws. a = Inr (pid, ws)")
    case True
    then obtain ws t where "a = Inr (pid, ws)" "r = Inr (ended_state pid ws t)" using a by auto
    then show ?thesis by (auto simp: cs intro: hp_mono [OF ended] accounted_tail)
  next
    case False
    then have "\<not> reaps (Wait4 pid a)" and r: "\<forall>ws t. r \<noteq> Inr (ended_state pid ws t)"
      using a by (auto simp: ended_state_def pState_zero_def split: sum.splits if_splits)
    then show ?thesis by (intro hp_mono [OF others [OF r]] accounted_prefix) (simp add: cs)
  qed
qed

lemma accounted_report:
  "hp (do { e \<leftarrow> writeFile x st; if e \<noteq> None then return_go (e, st) else do { notifyWorkload x st; return_go (None, st) } })
     (\<lambda>r cs. accounted x (exit_error r) cs)"
  by (intro hp_after_harmless harmless_steps hp_if hp_return) (simp_all add: accounted_harmless)

lemma hp_hand_off:
  assumes "wait4_ok x"
  shows "hp (hand_off x pid st) (\<lambda>r cs. accounted x (exit_error r) cs)"
proof -
  have again: "hp (workloadState x pid \<bind> (\<lambda>r. case r of
           Inl _ \<Rightarrow> return_go (None, pState_zero)
         | Inr st \<Rightarrow>
             if Status st = ''running'' then return_go (None, st)
             else do {
               e \<leftarrow> writeFile x st;
               if e \<noteq> None then return_go (e, st)
               else do { notifyWorkload x st; return_go (None, st) } })) (\<lambda>r cs. accounted x (exit_error r) cs)"
  proof (rule hp_then_state [OF assms], goal_cases)
    case (1 ws t)
    have ended: "Status (ended_state pid ws t) = ''exited''" by (simp add: ended_state_def)
    then show ?case using hp_report_ended [OF ended] by simp
  next
    case (2 r)
    show ?case by (intro hp_sum hp_if hp_return accounted_report) (simp_all add: accounted_harmless)
  qed
  show ?thesis unfolding hand_off_def
    by (rule hp_after_harmless [OF quiet_harmless [OF quiet_writeFile]], rule hp_if, rule hp_return, simp add: accounted_harmless,
        rule hp_after_harmless [OF quiet_harmless [OF quiet_notifyWorkload]], rule hp_if, rule hp_return, simp add: accounted_harmless,
        rule hp_after_harmless [OF quiet_harmless [OF quiet_sdNotifyBarrier]], rule again)
qed

text \<open>A run that is still polling for the pid file has reaped nothing.\<close>

definition settled_account :: "'w henv \<Rightarrow> err option option \<Rightarrow> hcall list \<Rightarrow> bool" where
  "settled_account x ro cs \<longleftrightarrow> (case ro of None \<Rightarrow> harmless cs | Some r \<Rightarrow> accounted x r cs)"

lemma settled_after:
  assumes "hp m (\<lambda>_ cs. harmless cs)" and "\<And>r. hp (f r) (\<lambda>r cs. settled_account x (g r) cs)"
  shows "hp (State_Monad.bind m f) (\<lambda>r cs. settled_account x (g r) cs)"
  by (rule hp_bind, rule hp_mono [OF assms(1)], rule hp_mono [OF assms(2)])
    (auto simp: settled_account_def accounted_prefix split: option.splits)

lemma settled_return: "hp (return_go r) (\<lambda>r cs. settled_account x (g r) cs)"
  by (rule hp_return) (simp add: settled_account_def accounted_harmless split: option.splits)

lemma settled_some:
  assumes "hp m (\<lambda>r cs. accounted x (exit_error r) cs)"
  shows "hp (do { r \<leftarrow> m; return_go (Some r) }) (\<lambda>r cs. settled_account x (map_option exit_error r) cs)"
  by (rule hp_bind, rule hp_mono [OF assms], rule hp_return) (simp add: settled_account_def)

lemma accounted_runc_failed: "hp (runc_failed x code) (\<lambda>r cs. accounted x (exit_error r) cs)"
  unfolding runc_failed_def sdNotify_def
  by (rule hp_mono [where Q = "\<lambda>_ cs. harmless cs"], intro hp_rules hp_mono [OF quiet_harmless [OF quiet_writeFile]])
    (simp_all add: accounted_harmless)

lemma settled_report_workload:
  assumes x: "wait4_ok x"
  shows "hp (report_workload x noReap n) (\<lambda>r cs. settled_account x (map_option exit_error r) cs)"
proof -
  let ?k = "\<lambda>pid r. case r of Inl e \<Rightarrow> return_go (Some e, pState_zero) | Inr st \<Rightarrow> hand_off x pid st"
  have flat: "(workloadState x pid \<bind> (\<lambda>r. case r of
                 Inl e \<Rightarrow> return_go (Some (Some e, pState_zero))
               | Inr st \<Rightarrow> do { r \<leftarrow> hand_off x pid st; return_go (Some r) }))
       = do { r \<leftarrow> workloadState x pid \<bind> ?k pid; return_go (Some r) }" for pid
    by (auto intro!: arg_cong2 [where f = State_Monad.bind] split: sum.splits)
  have reaping: "hp (workloadState x pid \<bind> ?k pid) (\<lambda>r cs. accounted x (exit_error r) cs)" for pid
  proof (rule hp_then_state [OF x], goal_cases)
    case (1 ws t)
    show ?case using hp_hand_off_ended by simp
  next
    case (2 r)
    show ?case by (intro hp_sum hp_return hp_hand_off [OF x]) (simp add: accounted_harmless)
  qed
  have wait: "hp (hext (\<lambda>r. [WaitCommand r]) (h_wait x)) (\<lambda>_ cs. harmless cs)"
    by (rule hp_hext) simp
  show ?thesis unfolding report_workload_def flat
    by (intro settled_after [OF wait] hp_option settled_after [OF quiet_harmless [OF quiet_readPidFile]] hp_sum hp_if settled_return
        settled_some reaping accounted_runc_failed hp_hand_off [OF x])
qed

lemma settled_createCmd:
  assumes "wait4_ok x"
  shows "hp (createCmd x cmdLine tty noReap n) (settled_account x)"
proof -
  have start: "hp (if noReap then return_go None else hcallE x SetSubreaper) (\<lambda>_ cs. harmless cs)"
      "hp (hcallE x (StartCommand cmdLine i out er)) (\<lambda>_ cs. harmless cs)" for i out er
    by (intro hp_rules; simp)+
  have run: "hp (run_command x cmdLine noReap i out er n) (\<lambda>r cs. settled_account x r cs)" for i out er
    unfolding run_command_def
    by (intro settled_after [where g = "\<lambda>r. r", OF start(1)] settled_after [where g = "\<lambda>r. r", OF start(2)] hp_if
        settled_return [where g = "\<lambda>r. r"] hp_bind hp_mono [OF settled_report_workload [OF assms]] hp_return) simp
  show ?thesis
    unfolding createCmd_def
    by (intro hp_if hp_sum settled_return [where g = "\<lambda>r. r"] settled_after [where g = "\<lambda>r. r"] harmless_steps run)
qed

text \<open>
  C4: the helper loses no exit it has consumed. Reaping the workload takes its exit status away from systemd, so the helper is
  the only one left who knows it. As long as \<open>wait4\<close> answers as documented: whenever a run of
  the create command has reaped the workload, its last steps are to write the exit to the state file, with the same exit
  code the shim derives from systemd's properties for such an end, and to notify systemd of it; nothing is
  reaped twice, a step that fails is the last and its error the result; and a run that is still
  polling for the pid file has reaped nothing.
\<close>

theorem reaped_exit_reported:
  assumes "wait4_ok x" and "run_state (createCmd x cmdLine tty noReap n) s = (ro, s')" and "hs_calls s' = hs_calls s @ cs"
  shows "(ro = None \<longrightarrow> harmless cs)
       \<and> (\<forall>r pid ws. ro = Some r \<and> Wait4 pid (Inr (pid, ws)) \<in> set cs \<longrightarrow> reported x pid ws cs r)"
  using hpD [OF settled_createCmd [OF assms(1)] assms(2,3)]
  by (auto simp: settled_account_def accounted_def)

text \<open>A workload with pid 7 that was killed by signal 9 before the helper looked.\<close>

definition demo_henv :: "unit henv" where
  "demo_henv = \<lparr>h_getenv = (\<lambda>v. if v = ''EXIT_STATE_PATH'' then ''exit.json'' else ''''), h_unified = True,
     h_err = (\<lambda>_ w. (None, w)), h_wait = (\<lambda>w. (None, w)), h_cmd_pid = 6, h_str = (\<lambda>_ w. (Inr ''7'', w)),
     h_wait4 = (\<lambda>_ w. (Inr (7, \<lparr>ws_Signaled = True, ws_ExitStatus = - 1, ws_Signal = 9\<rparr>), w)),
     h_write = (\<lambda>_ _ w. (None, w)), h_now = (\<lambda>w. (100, w)), h_done = (\<lambda>w. (True, w)), h_deadline = None,
     h_json_state = (\<lambda>st. Inr (show_nat (unat (ExitCode st))))\<rparr>"

lemma demo_wait4_ok: "wait4_ok demo_henv"
  by (simp add: wait4_ok_def demo_henv_def wait_status_ok_def)

abbreviation killed_9 :: wait_status where
  "killed_9 \<equiv> \<lparr>ws_Signaled = True, ws_ExitStatus = - 1, ws_Signal = 9\<rparr>"

abbreviation demo_helper_trace :: "hcall list" where
  "demo_helper_trace \<equiv> [SetSubreaper, StartCommand [''runc''] None None None, WaitCommand None, HRead '''',
     Wait4 7 (Inr (7, killed_9)), WriteState ''exit.json'' ''137'' None,
     SdNotify ''STATUS=exited\<newline>ERRNO=137\<newline>MAINPID=7'']"

lemma demo_helper_run:
  "run_state (createCmd demo_henv [''runc''] False False 1) \<lparr>hs_world = (), hs_calls = []\<rparr>
     = (Some (Some (ErrOther ''process exited with code 137'')), \<lparr>hs_world = (), hs_calls = demo_helper_trace\<rparr>)"
  by code_simp

theorem reaped_exit_reported_witness:
  "reported demo_henv 7 killed_9 demo_helper_trace (Some (ErrOther ''process exited with code 137''))
   \<and> ExitCode (ended_state 7 killed_9 100) = 137"
proof
  show "reported demo_henv 7 killed_9 demo_helper_trace (Some (ErrOther ''process exited with code 137''))"
    using reaped_exit_reported [OF demo_wait4_ok demo_helper_run, of demo_helper_trace] by simp
  show "ExitCode (ended_state 7 killed_9 100) = 137" by code_simp
qed

subsection \<open>The helper comes to an end\<close>

text \<open>
  \<open>ticking x clock\<close>: time passes. The clock never goes back while the helper looks at it or reads a file,
  and a tick of the poll loop that is not cut short by a cancellation takes 10 milliseconds.
\<close>

definition ticking :: "'w henv \<Rightarrow> ('w \<Rightarrow> time) \<Rightarrow> bool" where
  "ticking x clock \<longleftrightarrow> (\<forall>w. clock w \<le> fst (h_now x w) \<and> fst (h_now x w) \<le> clock (snd (h_now x w)))
     \<and> (\<forall>p w. clock w \<le> clock (snd (h_str x p w)))
     \<and> (\<forall>w w'. h_done x w = (False, w') \<longrightarrow> clock w + 10000000 \<le> clock w')"

lemma wp_hext [wp_simps]:
  "wp (hext cs f) Q s \<longleftrightarrow> (case f (hs_world s) of (r, w) \<Rightarrow> Q r \<lparr>hs_world = w, hs_calls = hs_calls s @ cs r\<rparr>)"
  by (simp add: wp_def hext_def split: prod.splits)

text \<open>\<open>returns m\<close>: \<open>m\<close> does not run out of fuel.\<close>

definition returns :: "('s, 'a option) state \<Rightarrow> bool" where
  "returns m \<longleftrightarrow> (\<forall>s. fst (run_state m s) \<noteq> None)"

lemma returns_wp: "returns m \<longleftrightarrow> (\<forall>s. wp m (\<lambda>r _. r \<noteq> None) s)"
  by (simp add: returns_def wp_def case_prod_beta)

lemma returns_rules:
  "returns (return_go (Some r))"
  "(\<And>v. returns (f v)) \<Longrightarrow> returns (State_Monad.bind m f)"
  "returns k \<Longrightarrow> returns l \<Longrightarrow> returns (if b then k else l)"
  "(\<And>y. returns (g y)) \<Longrightarrow> (\<And>y. returns (h y)) \<Longrightarrow> returns (case e of Inl y \<Rightarrow> g y | Inr y \<Rightarrow> h y)"
  "returns k \<Longrightarrow> (\<And>y. returns (q y)) \<Longrightarrow> returns (case v of None \<Rightarrow> k | Some y \<Rightarrow> q y)"
  by (simp_all add: returns_def split: prod.splits sum.splits option.splits)

lemma returns_then:
  assumes "returns m" and "\<And>p. returns (f (Some p))"
  shows "returns (State_Monad.bind m f)"
  unfolding returns_wp wp_bind
proof
  fix s
  show "wp m (\<lambda>r. wp (f r) (\<lambda>r _. r \<noteq> None)) s"
    by (rule wp_mono [OF assms(1) [unfolded returns_wp, rule_format]]) (use assms(2) in \<open>auto simp: returns_wp\<close>)
qed

lemma readPidFile_until_step:
  assumes x: "ticking x clock"
    and later: "\<And>s1 :: 'w helper. clock (hs_world s) \<le> deadline \<Longrightarrow> clock (hs_world s) + 10000000 \<le> clock (hs_world s1) \<Longrightarrow>
      wp (readPidFile_until x path deadline n) (\<lambda>r _. r \<noteq> None) s1"
  shows "wp (readPidFile_until x path deadline (Suc n)) (\<lambda>r _. r \<noteq> None) (s :: 'w helper)"
proof -
  obtain d w1 where rd: "h_str x (HRead path) (hs_world s) = (d, w1)" by fastforce
  obtain t w2 where tm: "h_now x w1 = (t, w2)" by fastforce
  obtain b w3 where dn: "h_done x w2 = (b, w3)" by fastforce
  have "clock (hs_world s) \<le> clock w1" "clock w1 \<le> t" "t \<le> clock w2" "\<not> b \<Longrightarrow> clock w2 + 10000000 \<le> clock w3"
    using x rd tm dn unfolding ticking_def by (metis fst_conv snd_conv)+
  then have "clock (hs_world s) \<le> deadline \<and> clock (hs_world s) + 10000000 \<le> clock w3" if "\<not> After t deadline" "\<not> b"
    using that by (simp add: After_def)
  then have last: "wp (readPidFile_until x path deadline n) (\<lambda>r _. r \<noteq> None) \<lparr>hs_world = w3, hs_calls = cs\<rparr>"
    if "\<not> After t deadline" "\<not> b" for cs
    using that later by simp
  show ?thesis
    using last by (simp add: wp_simps hread_def hcallS_def hnow_def rd tm dn split: sum.splits option.splits)
qed

lemma readPidFile_until_ends:
  assumes "ticking x clock"
  shows "deadline < clock (hs_world s) + int n * 10000000 \<Longrightarrow> wp (readPidFile_until x path deadline (Suc n)) (\<lambda>r _. r \<noteq> None) s"
proof (induction n arbitrary: s)
  case 0
  then show ?case by (intro readPidFile_until_step [OF assms]) simp
next
  case (Suc n)
  show ?case by (rule readPidFile_until_step [OF assms], rule Suc.IH) (use Suc.prems in simp)
qed

lemma readPidFile_ends:
  fixes x :: "'a henv"
  assumes "ticking x clock"
  shows "returns (readPidFile x path 502)"
  unfolding returns_wp
proof
  fix s :: "'a helper"
  obtain t w where tm: "h_now x (hs_world s) = (t, w)" by fastforce
  then have "t \<le> clock w" using assms unfolding ticking_def by (metis fst_conv snd_conv)
  then have "wp (readPidFile_until x path (t + pidFileTimeout) (Suc 501)) (\<lambda>r _. r \<noteq> None) \<lparr>hs_world = w, hs_calls = hs_calls s\<rparr>"
    by (intro readPidFile_until_ends [OF assms]) (simp add: pidFileTimeout_def)
  then show "wp (readPidFile x path 502) (\<lambda>r _. r \<noteq> None) s"
    by (simp add: readPidFile_def wp_simps hnow_def tm del: readPidFile_until.simps)
qed

lemma createCmd_returns:
  assumes "ticking x clock"
  shows "returns (createCmd x cmdLine tty noReap 502)"
proof -
  have report: "returns (report_workload x noReap 502)"
    unfolding report_workload_def
    by (rule returns_rules(2), rule returns_rules(5), rule returns_then [OF readPidFile_ends [OF assms]])
      (auto intro!: returns_rules)
  show ?thesis
    unfolding createCmd_def run_command_def
    by (intro returns_rules returns_then [OF report]) (simp add: returns_rules)
qed

text \<open>
  C27: the helper ends. As long as time passes, a create command returns: the loop that waits for runc's pid file is left
  after at most 502 attempts, which is what five seconds leave room for.
\<close>

theorem create_helper_ends:
  assumes "ticking x clock"
  shows "fst (run_state (createCmd x cmdLine tty noReap 502) s) \<noteq> None"
  using createCmd_returns [OF assms, of cmdLine tty noReap] unfolding returns_def by blast


text \<open>A clock that is its own world, and a pid file that never appears.\<close>

definition slow_henv :: "int henv" where
  "slow_henv = \<lparr>h_getenv = (\<lambda>_. ''''), h_unified = True, h_err = (\<lambda>_ w. (None, w)), h_wait = (\<lambda>w. (None, w)), h_cmd_pid = 6,
     h_str = (\<lambda>_ w. (Inl ErrNotExist, w)), h_wait4 = (\<lambda>_ w. (Inl ErrNotExist, w)), h_write = (\<lambda>_ _ w. (None, w)),
     h_now = (\<lambda>w. (w, w)), h_done = (\<lambda>w. (False, w + 10000000)), h_deadline = None,
     h_json_state = (\<lambda>st. Inr '''')\<rparr>"

theorem create_helper_ends_witness:
  "fst (run_state (createCmd slow_henv [''runc''] False False 502) \<lparr>hs_world = 0, hs_calls = []\<rparr>) \<noteq> None"
  by (rule create_helper_ends [of _ id]) (simp add: ticking_def slow_henv_def)

end
