(* ===== verification/Cli.thy ===== *)
theory Cli
  imports ReExec
begin

text \<open>
  The command line of the binary (\<open>main.go\<close>): Go's \<open>flag\<close> package as far as it is used, the two flag sets of
  \<open>main\<close>, and which command runs with which options. The shim starts its own binary through systemd, so what
  \<open>main\<close> reads has to be what \<open>startProperties\<close> and \<open>serviceUnit\<close> wrote.
\<close>

subsection \<open>The flag package\<close>

definition ParseBool :: "string \<Rightarrow> bool option" where
  "ParseBool s =
     (if s \<in> {''1'', ''t'', ''T'', ''TRUE'', ''true'', ''True''} then Some True
      else if s \<in> {''0'', ''f'', ''F'', ''FALSE'', ''false'', ''False''} then Some False
      else None)"

text \<open>A value flag comes with the test its \<open>Set\<close> method makes.\<close>

datatype flag_kind = BoolFlag | ValueFlag "string \<Rightarrow> bool"

abbreviation StringFlag :: flag_kind where "StringFlag \<equiv> ValueFlag (\<lambda>_. True)"

datatype arg_kind = NotFlag | Terminator | BadFlag | Flag string "string option"

fun split_eq :: "string \<Rightarrow> string \<times> string option" where
  "split_eq [] = ([], None)"
| "split_eq (c # cs) = (if c = CHR ''='' then ([], Some cs) else case split_eq cs of (n, v) \<Rightarrow> (c # n, v))"

definition arg_kind :: "string \<Rightarrow> arg_kind" where
  "arg_kind s =
     (if length s < 2 \<or> hd s \<noteq> CHR ''-'' then NotFlag
      else if s = ''--'' then Terminator
      else let name = (if s ! 1 = CHR ''-'' then drop 2 s else drop 1 s)
           in if name = '''' \<or> hd name = CHR ''-'' \<or> hd name = CHR ''='' then BadFlag
              else case split_eq name of (n, v) \<Rightarrow> Flag n v)"

text \<open>
  \<open>FlagSet.Parse\<close>: the settings made, in order, and the remaining arguments.
\<close>

fun Parse :: "(string \<Rightarrow> flag_kind option) \<Rightarrow> string list \<Rightarrow> ((string \<times> string) list \<times> string list) result" where
  "Parse F [] = Inr ([], [])"
| "Parse F (s # args) = (case arg_kind s of
     NotFlag \<Rightarrow> Inr ([], s # args)
   | Terminator \<Rightarrow> Inr ([], args)
   | BadFlag \<Rightarrow> Inl (ErrOther ''bad flag syntax'')
   | Flag n v \<Rightarrow> (case F n of
       None \<Rightarrow> Inl (ErrOther ''flag provided but not defined'')
     | Some BoolFlag \<Rightarrow>
         (let b = (case v of Some b \<Rightarrow> b | None \<Rightarrow> ''true'')
          in if ParseBool b = None then Inl (ErrOther ''invalid boolean value'')
             else rbind (Parse F args) (\<lambda>(ds, rest). Inr ((n, b) # ds, rest)))
     | Some (ValueFlag ok) \<Rightarrow> (case v of
         Some a \<Rightarrow> if \<not> ok a then Inl (ErrOther ''invalid value'')
                   else rbind (Parse F args) (\<lambda>(ds, rest). Inr ((n, a) # ds, rest))
       | None \<Rightarrow> (case args of
           [] \<Rightarrow> Inl (ErrOther ''flag needs an argument'')
         | a # args' \<Rightarrow> if \<not> ok a then Inl (ErrOther ''invalid value'')
                        else rbind (Parse F args') (\<lambda>(ds, rest). Inr ((n, a) # ds, rest))))))"

definition value_of :: "(string \<times> string) list \<Rightarrow> string \<Rightarrow> string \<Rightarrow> string" where
  "value_of ds n d = (case map_of (rev ds) n of Some v \<Rightarrow> v | None \<Rightarrow> d)"

definition bool_of :: "(string \<times> string) list \<Rightarrow> string \<Rightarrow> bool \<Rightarrow> bool" where
  "bool_of ds n d = (case map_of (rev ds) n of Some v \<Rightarrow> ParseBool v = Some True | None \<Rightarrow> d)"

subsection \<open>The flag sets of the binary\<close>

text \<open>
  Defaults that come from elsewhere: containerd's address, state and configuration directories, the name of the
  default log mode in the generated options, and \<open>strconv.ParseFloat\<close>. A \<open>float64\<close> is the 64 bits it is stored in.
\<close>

type_synonym float64 = "64 word"

record defaults =
  DefaultAddress :: string
  DefaultStateDir :: string
  DefaultConfigDir :: string
  defaultLogMode :: string
  ParseFloat :: "string \<Rightarrow> float64 option"

text \<open>The number 1, the default sample rate.\<close>

definition float_one :: float64 where
  "float_one = 0x3FF0000000000000"

definition defaultAddress :: string where
  "defaultAddress = ''/run/containerd/s/containerd-shim-systemd-v1.sock''"

definition shimName :: string where
  "shimName = ''io.containerd.systemd.v1''"

definition rootFlags :: "string \<Rightarrow> flag_kind option" where
  "rootFlags = map_of [(''address'', StringFlag), (''publish-binary'', StringFlag), (''id'', StringFlag),
     (''bundle'', StringFlag), (''namespace'', StringFlag), (''debug'', BoolFlag), (''ttrpc-address'', StringFlag),
     (''info'', BoolFlag)]"

definition commandFlags :: "defaults \<Rightarrow> string \<Rightarrow> flag_kind option" where
  "commandFlags d = map_of [(''no-new-namespace'', BoolFlag),
     (''trace-endpoint'', StringFlag), (''trace-sample-rate'', ValueFlag (\<lambda>s. ParseFloat d s \<noteq> None)), (''trace-insecure'', BoolFlag),
     (''debug'', BoolFlag), (''ttrpc-address'', StringFlag), (''root'', StringFlag), (''socket'', StringFlag),
     (''log-mode'', StringFlag), (''mounts'', StringFlag), (''tty'', BoolFlag), (''containerd-config'', StringFlag)]"

text \<open>The variables of \<open>main\<close> when the command is run; \<open>cl_args\<close> is \<open>flags.Args()\<close>.\<close>

record cli =
  cl_debug :: bool
  cl_socket :: string
  cl_address :: string
  cl_namespace :: string
  cl_id :: string
  cl_root :: string
  cl_bundle :: string
  cl_ttrpcAddr :: string
  cl_logMode :: string
  cl_noNewNamespace :: bool
  cl_mountCfg :: string
  cl_tty :: bool
  cl_traceEndpoint :: string
  cl_traceRate :: float64
  cl_traceInsecure :: bool
  cl_containerdConfig :: string
  cl_args :: "string list"

definition commands :: "string list" where
  "commands = [''install'', ''uninstall'', ''delete'', ''start'', ''serve'', ''mount'', ''unmount'', ''create'']"

text \<open>What a command line comes to: the process exits with a code, prints runtime information, or runs a command.\<close>

datatype run = Exit int | Info | Command string cli

definition command_options :: "defaults \<Rightarrow> (string \<times> string) list \<Rightarrow> (string \<times> string) list \<Rightarrow> string list \<Rightarrow> cli" where
  "command_options d rs cs args =
     (let lm = value_of cs ''log-mode'' (defaultLogMode d) in
      \<lparr>cl_debug = bool_of cs ''debug'' (bool_of rs ''debug'' False),
       cl_socket = value_of cs ''socket'' defaultAddress,
       cl_address = value_of rs ''address'' (DefaultAddress d),
       cl_namespace = value_of rs ''namespace'' '''',
       cl_id = value_of rs ''id'' '''',
       cl_root = value_of cs ''root'' (path_Join [DefaultStateDir d, shimName]),
       cl_bundle = value_of rs ''bundle'' '''',
       cl_ttrpcAddr = value_of cs ''ttrpc-address'' (value_of rs ''ttrpc-address'' (DefaultAddress d @ ''.ttrpc'')),
       cl_logMode = (if lm = '''' then defaultLogMode d else lm),
       cl_noNewNamespace = bool_of cs ''no-new-namespace'' False,
       cl_mountCfg = value_of cs ''mounts'' '''',
       cl_tty = bool_of cs ''tty'' False,
       cl_traceEndpoint = value_of cs ''trace-endpoint'' '''',
       cl_traceRate = (case map_of (rev cs) ''trace-sample-rate'' of Some v \<Rightarrow> the (ParseFloat d v) | None \<Rightarrow> float_one),
       cl_traceInsecure = bool_of cs ''trace-insecure'' False,
       cl_containerdConfig = value_of cs ''containerd-config'' (path_Join [DefaultConfigDir d, ''config.toml'']),
       cl_args = args\<rparr>)"

definition main :: "defaults \<Rightarrow> string list \<Rightarrow> run" where
  "main d argv = (case Parse rootFlags (drop 1 argv) of
     Inl _ \<Rightarrow> Exit 1
   | Inr (rs, args) \<Rightarrow>
       if bool_of rs ''info'' False then Info
       else case args of
         [] \<Rightarrow> Exit 1
       | cmd # rest \<Rightarrow>
           if cmd \<notin> set commands then Exit 1
           else case Parse (commandFlags d) rest of
             Inl _ \<Rightarrow> Exit 2
           | Inr (cs, args) \<Rightarrow> Command cmd (command_options d rs cs args))"

subsection \<open>The commands of the units\<close>

text \<open>The arguments of the first command of an Exec property of a unit.\<close>

fun exec_args :: "string \<Rightarrow> property list \<Rightarrow> string list option" where
  "exec_args name (PropExecs n (cmd # cmds) # props) = (if n = name then Some (ec_Args cmd) else exec_args name props)"
| "exec_args name (prop # props) = exec_args name props"
| "exec_args name [] = None"

lemma ParseBool_FormatBool [simp]: "ParseBool (FormatBool b) = Some b"
  by (simp add: ParseBool_def FormatBool_def)

lemma ParseBool_true [simp]: "ParseBool ''true'' = Some True"
  by (simp add: ParseBool_def)

lemma arg_kind_flags:
  "arg_kind (''--debug='' @ v) = Flag ''debug'' (Some v)" "arg_kind (''--bundle='' @ v) = Flag ''bundle'' (Some v)"
  "arg_kind (''--mounts='' @ v) = Flag ''mounts'' (Some v)" "arg_kind ''--tty'' = Flag ''tty'' None"
  "arg_kind ''create'' = NotFlag" "arg_kind ''mount'' = NotFlag" "arg_kind ''serve'' = NotFlag"
  by (simp_all add: arg_kind_def)

lemmas arg_kind_flags_simps [simp] = arg_kind_flags [unfolded append_Cons append_Nil]

lemma rootFlags_simps [simp]: "rootFlags ''debug'' = Some BoolFlag" "rootFlags ''bundle'' = Some StringFlag"
    "rootFlags ''address'' = Some StringFlag"
  by (simp_all add: rootFlags_def)

lemma commandFlags_simps [simp]:
  "commandFlags d ''mounts'' = Some StringFlag" "commandFlags d ''tty'' = Some BoolFlag"
  by (simp_all add: commandFlags_def)

lemma Parse_rest: "args = [] \<or> arg_kind (hd args) = NotFlag \<Longrightarrow> Parse F args = Inr ([], args)"
  by (cases args) auto

lemma runcCmd_rest: "arg_kind (rc_Command (c_runc c)) = NotFlag \<Longrightarrow> Parse F (runcCmd c opts cmd) = Inr ([], runcCmd c opts cmd)"
  by (rule Parse_rest) (simp add: runcCmd_def Let_def)

text \<open>What \<open>main\<close> makes of the command lines the shim writes.\<close>

lemma main_create:
  assumes "arg_kind (rc_Command (c_runc c)) = NotFlag"
  shows "main d ([exe, ''--debug='' @ FormatBool dbg, ''--bundle='' @ b, ''create'']
            @ (if m then [''--mounts='' @ cfg] else []) @ (if t then [''--tty''] else []) @ runcCmd c opts cmd)
       = Command ''create'' (command_options d [(''debug'', FormatBool dbg), (''bundle'', b)]
           ((if m then [(''mounts'', cfg)] else []) @ (if t then [(''tty'', ''true'')] else [])) (runcCmd c opts cmd))"
  using runcCmd_rest [OF assms, of "commandFlags d" opts cmd]
  by (simp add: main_def commands_def bool_of_def)

abbreviation create_options :: "defaults \<Rightarrow> bool \<Rightarrow> string \<Rightarrow> bool \<Rightarrow> string \<Rightarrow> bool \<Rightarrow> string list \<Rightarrow> cli" where
  "create_options d dbg b m cfg t args \<equiv> command_options d [(''debug'', FormatBool dbg), (''bundle'', b)]
     ((if m then [(''mounts'', cfg)] else []) @ (if t then [(''tty'', ''true'')] else [])) args"

lemma create_options_sel:
  "cl_bundle (create_options d dbg b m cfg t args) = b" "cl_debug (create_options d dbg b m cfg t args) = dbg"
  "cl_tty (create_options d dbg b m cfg t args) = t"
  "cl_mountCfg (create_options d dbg b m cfg t args) = (if m then cfg else '''')"
  "cl_args (create_options d dbg b m cfg t args) = args"
  by (cases m; cases t; simp add: command_options_def value_of_def bool_of_def Let_def)+

text \<open>The command lines of the units.\<close>

lemma init_ExecStart:
  "exec_args ''ExecStart'' (init_startProperties p pr rcmd) = Some ([c_exe (ip_conf p),
      ''--debug='' @ FormatBool (rc_Debug (c_runc (ip_conf p))), ''--bundle='' @ ip_Bundle p, ''create'']
      @ (if ip_Rootfs p \<noteq> [] \<and> \<not> ip_noNewNamespace p then [''--mounts='' @ mountConfigPath p] else [])
      @ (if p_Terminal pr \<or> co_Terminal (p_opts pr) then [''--tty''] else [])
      @ runcCmd (ip_conf p) (p_opts pr) (rcmd @ [c_id (ip_conf p)]))"
  by (simp add: init_startProperties_def propExecCommand_def Let_def)

lemma exec_ExecStart:
  "exec_args ''ExecStart'' (exec_unit_properties e pr sock) = Some ([c_exe (ep_conf e),
      ''--debug='' @ FormatBool (rc_Debug (c_runc (ep_conf e))), ''--bundle='' @ ip_Bundle (ep_parent e), ''create'']
      @ (if False then [''--mounts='' @ ''''] else []) @ (if sock \<noteq> None then [''--tty''] else [])
      @ runcCmd (ep_conf e) (p_opts pr) ([''exec'', ''--process'', processFilePath e, ''--pid-file='' @ exec_pidFile e, ''--detach'']
         @ (case sock of None \<Rightarrow> [] | Some s \<Rightarrow> [''-t'', ''--console-socket='' @ s]) @ [c_id (ip_conf (ep_parent e))]))"
  by (cases sock) (simp_all add: exec_unit_properties_def propExecCommand_def Let_def)

text \<open>
  C21: the unit runs what the shim meant. As long as the runc binary's path does not look like a flag, the command systemd
  runs for a task or an exec is read by the binary's \<open>main\<close> as its create command, with the bundle, the debug and tty
  options and the mount configuration the shim put there, and with exactly the runc command line left as its arguments: for a task the
  one its properties were made for, for an exec \<open>runc exec\<close> with the process file, the pid file and, with a terminal, the console socket, on the container's id.
\<close>

theorem unit_command_roundtrip:
  assumes "arg_kind (rc_Command (c_runc (ip_conf p))) = NotFlag" and "arg_kind (rc_Command (c_runc (ep_conf e))) = NotFlag"
  shows "(\<exists>argv cl. exec_args ''ExecStart'' (init_startProperties p pr rcmd) = Some argv \<and> main d argv = Command ''create'' cl
            \<and> cl_bundle cl = ip_Bundle p \<and> cl_debug cl = rc_Debug (c_runc (ip_conf p))
            \<and> cl_tty cl = (p_Terminal pr \<or> co_Terminal (p_opts pr))
            \<and> cl_mountCfg cl = (if ip_Rootfs p \<noteq> [] \<and> \<not> ip_noNewNamespace p then mountConfigPath p else '''')
            \<and> cl_args cl = runcCmd (ip_conf p) (p_opts pr) (rcmd @ [c_id (ip_conf p)]))
       \<and> (\<exists>argv cl. exec_args ''ExecStart'' (exec_unit_properties e pr sock) = Some argv \<and> main d argv = Command ''create'' cl
            \<and> cl_bundle cl = ip_Bundle (ep_parent e) \<and> cl_debug cl = rc_Debug (c_runc (ep_conf e))
            \<and> cl_tty cl = (sock \<noteq> None) \<and> cl_mountCfg cl = ''''
            \<and> cl_args cl = runcCmd (ep_conf e) (p_opts pr)
                ([''exec'', ''--process'', processFilePath e, ''--pid-file='' @ exec_pidFile e, ''--detach'']
                 @ (case sock of None \<Rightarrow> [] | Some s \<Rightarrow> [''-t'', ''--console-socket='' @ s]) @ [c_id (ip_conf (ep_parent e))]))"
proof
  show "\<exists>argv cl. exec_args ''ExecStart'' (init_startProperties p pr rcmd) = Some argv \<and> main d argv = Command ''create'' cl
            \<and> cl_bundle cl = ip_Bundle p \<and> cl_debug cl = rc_Debug (c_runc (ip_conf p))
            \<and> cl_tty cl = (p_Terminal pr \<or> co_Terminal (p_opts pr))
            \<and> cl_mountCfg cl = (if ip_Rootfs p \<noteq> [] \<and> \<not> ip_noNewNamespace p then mountConfigPath p else '''')
            \<and> cl_args cl = runcCmd (ip_conf p) (p_opts pr) (rcmd @ [c_id (ip_conf p)])"
    by (rule exI, rule exI, rule conjI [OF init_ExecStart], rule conjI [OF main_create [OF assms(1)]])
      (simp only: create_options_sel simp_thms)
  show "\<exists>argv cl. exec_args ''ExecStart'' (exec_unit_properties e pr sock) = Some argv \<and> main d argv = Command ''create'' cl
            \<and> cl_bundle cl = ip_Bundle (ep_parent e) \<and> cl_debug cl = rc_Debug (c_runc (ep_conf e))
            \<and> cl_tty cl = (sock \<noteq> None) \<and> cl_mountCfg cl = ''''
            \<and> cl_args cl = runcCmd (ep_conf e) (p_opts pr)
                ([''exec'', ''--process'', processFilePath e, ''--pid-file='' @ exec_pidFile e, ''--detach'']
                 @ (case sock of None \<Rightarrow> [] | Some s \<Rightarrow> [''-t'', ''--console-socket='' @ s]) @ [c_id (ip_conf (ep_parent e))])"
    by (rule exI, rule exI, rule conjI [OF exec_ExecStart], rule conjI [OF main_create [OF assms(2)]], unfold create_options_sel) simp
qed

definition demo_defaults :: defaults where
  "demo_defaults = \<lparr>DefaultAddress = ''/run/containerd.sock'', DefaultStateDir = ''/run/containerd'',
     DefaultConfigDir = ''/etc/containerd'', defaultLogMode = ''stdio'', ParseFloat = (\<lambda>_. Some float_one)\<rparr>"

abbreviation rootfs_init :: "bool \<Rightarrow> init_ptr" where
  "rootfs_init shared \<equiv> demo_init\<lparr>ip_Rootfs := [\<lparr>m_Type = ''bind'', m_Source = ''/src'', m_Target = '''', m_Options = []\<rparr>],
     ip_noNewNamespace := shared\<rparr>"

theorem unit_command_roundtrip_witness:
  "\<exists>argv cl. exec_args ''ExecStart'' (init_startProperties (rootfs_init False) (blank_process ''ns'') [''create'']) = Some argv
     \<and> main demo_defaults argv = Command ''create'' cl \<and> cl_mountCfg cl = mountConfigPath (rootfs_init False)"
proof -
  have plain: "arg_kind (rc_Command (c_runc (ip_conf (rootfs_init False)))) = NotFlag"
      "arg_kind (rc_Command (c_runc (ep_conf demo_exec))) = NotFlag"
    by (simp_all add: blank_ptr_defs arg_kind_def)
  have "ip_Rootfs (rootfs_init False) \<noteq> []" "\<not> ip_noNewNamespace (rootfs_init False)" by simp_all
  with unit_command_roundtrip [OF plain, of "blank_process ''ns''" "[''create'']" demo_defaults None, THEN conjunct1]
  show ?thesis by metis
qed

end
