(* ===== verification/Host.thy ===== *)
theory Host
  imports Cli Create
begin

text \<open>
  The commands the binary runs outside the service: mounting the root file system and the create command
  (\<open>mount.go\<close>, \<open>main.go\<close>), the bootstrap answer (\<open>main.go\<close>), runtime information (\<open>runtime_info.go\<close>) and
  installing the service (\<open>service.go\<close>).
\<close>

subsection \<open>Mounting the root file system\<close>

text \<open>\<open>os.IsExist\<close> accepts \<open>ErrAlreadyExists\<close>. The targets of the mounts are not passed on.\<close>

definition mountFS :: "'w henv \<Rightarrow> task_mount list \<Rightarrow> string \<Rightarrow> ('w, err option) hgo" where
  "mountFS x tmounts bundle = do {
     let mounts = map (\<lambda>m. m\<lparr>m_Target := ''''\<rparr>) tmounts;
     let rootfs = path_Join [bundle, ''rootfs''];
     e \<leftarrow> hcallE x (Mkdir rootfs);
     if e \<noteq> None \<and> e \<noteq> Some ErrAlreadyExists then return_go e
     else hcallR x (MountAll mounts rootfs) }"

text \<open>\<open>unmarshal\<close> is the protobuf decoding of the request's root file system and bundle.\<close>

definition mountRootfs ::
  "'w henv \<Rightarrow> (string \<Rightarrow> (task_mount list \<times> string) result) \<Rightarrow> string \<Rightarrow> ('w, err option) hgo" where
  "mountRootfs x unmarshal configPath = do {
     cfgData \<leftarrow> hcallS x (HRead configPath);
     case cfgData of
       Inl e \<Rightarrow> return_go (Some e)
     | Inr data \<Rightarrow> (case unmarshal data of
         Inl e \<Rightarrow> return_go (Some e)
       | Inr (rootfs, bundle) \<Rightarrow> mountFS x rootfs bundle) }"

text \<open>
  The commands \<open>create\<close>, \<open>mount\<close> and \<open>unmount\<close>. The second one looks its argument up in the default flag set,
  which nobody parses, so its \<open>Arg(0)\<close> is empty.
\<close>

definition create_command_main ::
  "'w henv \<Rightarrow> (string \<Rightarrow> (task_mount list \<times> string) result) \<Rightarrow> cli \<Rightarrow> nat \<Rightarrow> ('w, err option option) hgo" where
  "create_command_main x unmarshal cl n = do {
     _ \<leftarrow> OpenShimLog (\<lambda>k. hcallR x (HShimLog k)) (cl_bundle cl);
     e \<leftarrow> (if cl_mountCfg cl \<noteq> '''' then mountRootfs x unmarshal (cl_mountCfg cl) else return_go None);
     if e \<noteq> None then return_go (Some e)
     else createCmd x (cl_args cl) (cl_tty cl) (cl_mountCfg cl \<noteq> '''') n }"

definition mount_command_main ::
  "'w henv \<Rightarrow> (string \<Rightarrow> (task_mount list \<times> string) result) \<Rightarrow> cli \<Rightarrow> ('w, err option) hgo" where
  "mount_command_main x unmarshal cl =
     (if length (cl_args cl) \<noteq> 1 then return_go (Some (ErrOther ''mount requires exactly one argument''))
      else mountRootfs x unmarshal '''')"

definition unmount_command_main :: "'w henv \<Rightarrow> cli \<Rightarrow> ('w, err option) hgo" where
  "unmount_command_main x cl = hcallE x (UnmountAll (case cl_args cl of [] \<Rightarrow> '''' | a # _ \<Rightarrow> a))"

subsection \<open>Bootstrap\<close>

text \<open>
  \<open>params\<close> decodes the bootstrap parameters to the instance and the namespace they name, \<open>marshal\<close> encodes
  version, address and protocol of the answer. Writing the address file is atomic.
\<close>

definition writeAddressFile :: "'w henv \<Rightarrow> string \<Rightarrow> string \<Rightarrow> ('w, err option) hgo" where
  "writeAddressFile x path address = hcallE x (WriteAddress path address)"

definition writeBootstrapResponse ::
  "'w henv \<Rightarrow> (string \<Rightarrow> (string \<times> string) result) \<Rightarrow> (nat \<Rightarrow> string \<Rightarrow> string \<Rightarrow> string result) \<Rightarrow>
   string \<Rightarrow> string \<Rightarrow> string \<Rightarrow> ('w, err option) hgo" where
  "writeBootstrapResponse x params marshal socket i namespace = do {
     input \<leftarrow> hcallS x ReadStdin;
     case input of
       Inl e \<Rightarrow> return_go (Some e)
     | Inr input \<Rightarrow>
         if input = '''' \<or> params input \<noteq> Inr (i, namespace) then do {
           let address = ''unix://'' @ socket;
           e \<leftarrow> writeAddressFile x ''address'' address;
           if e \<noteq> None then return_go e else hcallE x (Output address) }
         else (case marshal 3 (''unix://'' @ socket) ''ttrpc'' of
           Inl e \<Rightarrow> return_go (Some e)
         | Inr result \<Rightarrow> hcallE x (Output result)) }"

subsection \<open>Runtime information\<close>

text \<open>
  The options are the encoded message on standard input; \<open>proto_any\<close> decodes the envelope and \<open>unmarshal\<close> what is
  in it. \<open>features\<close> re-encodes what runc printed, \<open>marshal\<close> the answer.
\<close>

definition runtime_options ::
  "(string \<Rightarrow> anypb result) \<Rightarrow> (anypb \<Rightarrow> options_msg result) \<Rightarrow> string \<Rightarrow> (anypb option \<times> string) result" where
  "runtime_options proto_any unmarshal data =
     (if data = '''' then Inr (None, ''runc'')
      else rbind (proto_any data) (\<lambda>v. rbind (unmarshal v) (\<lambda>m. Inr (Some v,
        case m of RuncOptions opts \<Rightarrow> if ro_BinaryName opts \<noteq> '''' then ro_BinaryName opts else ''runc'' | _ \<Rightarrow> ''runc''))))"

definition writeRuntimeInfo ::
  "'w henv \<Rightarrow> (string \<Rightarrow> anypb result) \<Rightarrow> (anypb \<Rightarrow> options_msg result) \<Rightarrow> (string \<Rightarrow> anypb result) \<Rightarrow>
   (string \<Rightarrow> anypb option \<Rightarrow> anypb \<Rightarrow> string result) \<Rightarrow> ('w, err option) hgo" where
  "writeRuntimeInfo x proto_any unmarshal features marshal = do {
     optionsData \<leftarrow> hcallS x ReadStdin;
     case rbind optionsData (runtime_options proto_any unmarshal) of
       Inl e \<Rightarrow> return_go (Some e)
     | Inr (opts, runcCommand) \<Rightarrow> do {
         runcPath \<leftarrow> hcallS x (HLookPath runcCommand);
         case runcPath of
           Inl e \<Rightarrow> return_go (Some e)
         | Inr path \<Rightarrow> do {
             featureData \<leftarrow> hcallS x (RunFeatures path);
             case rbind featureData (\<lambda>d. rbind (features d) (marshal shimName opts)) of
               Inl e \<Rightarrow> return_go (Some e)
             | Inr data \<Rightarrow> hcallE x (Output data) } } }"

subsection \<open>Installing the service\<close>

text \<open>\<open>fmt\<close> is what \<open>%f\<close> makes of a number: its value with six digits after the point.\<close>

record TraceConfig =
  tr_Endpoint :: string
  tr_SampleRate :: float64
  tr_Insecure :: bool

definition StringFlags :: "(float64 \<Rightarrow> string) \<Rightarrow> TraceConfig \<Rightarrow> string" where
  "StringFlags fmt c = ''--trace-endpoint='' @ tr_Endpoint c @ '' --trace-sample-rate='' @ fmt (tr_SampleRate c)
     @ '' --trace-insecure='' @ FormatBool (tr_Insecure c)"

record installConfig =
  ic_Trace :: TraceConfig
  ic_Root :: string
  ic_Addr :: string
  ic_TTRPCAddr :: string
  ic_Debug :: bool
  ic_LogMode :: string
  ic_Socket :: string
  ic_NoNewNamespace :: bool

definition serviceName :: string where
  "serviceName = ''containerd-shim-systemd-v1''"

definition ToLower :: "string \<Rightarrow> string" where
  "ToLower = map (\<lambda>c. if 65 \<le> (of_char c :: nat) \<and> (of_char c :: nat) \<le> 90 then char_of ((of_char c :: nat) + 32) else c)"

definition serviceUnit :: "(float64 \<Rightarrow> string) \<Rightarrow> string \<Rightarrow> installConfig \<Rightarrow> string" where
  "serviceUnit fmt exe cfg = ''\<newline>[Unit]\<newline>Description=containerd shim service that uses systemd to manage containers\<newline>\<newline>''
     @ ''[Service]\<newline>Type=notify\<newline>Environment=UNIT_NAME=%n\<newline>ExecStart='' @ exe @ '' --address='' @ ic_Addr cfg @ '' serve''
     @ '' --ttrpc-address='' @ ic_TTRPCAddr cfg @ '' --debug='' @ FormatBool (ic_Debug cfg) @ '' --root='' @ ic_Root cfg
     @ '' --log-mode='' @ ToLower (ic_LogMode cfg) @ '' '' @ StringFlags fmt (ic_Trace cfg)
     @ '' --no-new-namespace='' @ FormatBool (ic_NoNewNamespace cfg) @ ''\<newline>''"

definition socketUnit :: "string \<Rightarrow> string" where
  "socketUnit addr = ''\<newline>[Unit]\<newline>Description=containerd shim socket for '' @ serviceName
     @ ''\<newline>\<newline>[Install]\<newline>WantedBy = sockets.target\<newline>\<newline>[Socket]\<newline>ListenStream='' @ addr
     @ ''\<newline>SocketMode=0700\<newline>PassCredentials=yes\<newline>PassSecurity=yes\<newline>''"

definition unit_path :: "string \<Rightarrow> string" where
  "unit_path suffix = ''/etc/systemd/system/'' @ serviceName @ suffix"

text \<open>
  The result of writing the service's unit file is dropped. The answer to \<open>JobStatus\<close> is the end of the context or the status
  of the job.
\<close>

definition install :: "'w henv \<Rightarrow> (float64 \<Rightarrow> string) \<Rightarrow> installConfig \<Rightarrow> ('w, err option) hgo" where
  "install x fmt cfg = do {
     e \<leftarrow> hcallE x SystemdConnect;
     if e \<noteq> None then return_go e
     else do {
       r \<leftarrow> hcallS x Executable;
       case r of
         Inl err \<Rightarrow> return_go (Some err)
       | Inr exe \<Rightarrow> do {
           _ \<leftarrow> hcallE x (HWriteFile (unit_path ''.service'') (serviceUnit fmt exe cfg));
           e \<leftarrow> hcallE x (HWriteFile (unit_path ''.socket'') (socketUnit (ic_Socket cfg)));
           if e \<noteq> None then do { _ \<leftarrow> hcallE x (HRemove (unit_path ''.service'')); return_go e }
           else do {
             e \<leftarrow> hcallE x SystemdReload;
             if e \<noteq> None then return_go e
             else do {
               e \<leftarrow> hcallE x (SystemdStart (serviceName @ ''.socket''));
               if e \<noteq> None then return_go e
               else do {
                 st \<leftarrow> hcallS x (JobStatus (serviceName @ ''.socket''));
                 return_go (case st of
                    Inl err \<Rightarrow> Some err
                  | Inr status \<Rightarrow> if status \<noteq> ''done'' then Some (ErrOther (''error starting socket unit: '' @ status)) else None) } } } } } }"

definition uninstall :: "'w henv \<Rightarrow> ('w, err option) hgo" where
  "uninstall x = do {
     e \<leftarrow> hcallE x SystemdConnect;
     if e \<noteq> None then return_go e
     else do {
       e \<leftarrow> hcallE x (SystemdStop (serviceName @ ''.socket''));
       if e \<noteq> None then return_go e
       else do {
         e \<leftarrow> hcallE x (SystemdStop (serviceName @ ''.service''));
         if e \<noteq> None then return_go e
         else do {
           e \<leftarrow> hcallE x (SystemdDisable [serviceName @ ''.service'', serviceName @ ''.socket'']);
           if e \<noteq> None then return_go e
           else do {
             _ \<leftarrow> hcallE x (HRemove (unit_path ''.socket''));
             _ \<leftarrow> hcallE x (HRemove (unit_path ''.service''));
             hcallE x SystemdReload } } } } }"

subsection \<open>Reading the unit back\<close>

text \<open>
  The command systemd runs for a unit file: the first \<open>ExecStart\<close> line, split at blanks. This is what systemd does with a line that begins with an absolute path and
  has none of the characters systemd gives a meaning: specifiers, variables, quotes, escapes. Of other lines nothing is said.
\<close>

definition special :: "char \<Rightarrow> bool" where
  "special c \<longleftrightarrow> c \<in> {CHR ''%'', CHR ''$'', CHR 0x22, CHR 0x27, CHR 0x5C, CHR 0x09, CHR 0x0D}"

fun fields :: "char \<Rightarrow> string \<Rightarrow> string list" where
  "fields c [] = [[]]"
| "fields c (d # ds) = (if d = c then [] # fields c ds else case fields c ds of [] \<Rightarrow> [[d]] | f # fs \<Rightarrow> (d # f) # fs)"

fun after_prefix :: "string \<Rightarrow> string \<Rightarrow> string option" where
  "after_prefix [] s = Some s"
| "after_prefix (c # cs) (d # ds) = (if c = d then after_prefix cs ds else None)"
| "after_prefix (c # cs) [] = None"

definition unit_exec :: "string \<Rightarrow> string list option" where
  "unit_exec text = (case List.map_filter (after_prefix ''ExecStart='') (fields (CHR ''\<newline>'') text) of
     [] \<Rightarrow> None
   | line # _ \<Rightarrow> if line \<noteq> '''' \<and> hd line = CHR ''/'' \<and> \<not> list_ex special line then Some (fields (CHR '' '') line) else None)"

lemma fields_word: "c \<notin> set w \<Longrightarrow> fields c (w @ c # t) = w # fields c t"
  by (induction w) auto

lemma fields_last: "c \<notin> set w \<Longrightarrow> fields c w = [w]"
  by (induction w) auto

lemma fields_Join: "ws \<noteq> [] \<Longrightarrow> \<forall>w \<in> set ws. c \<notin> set w \<Longrightarrow> fields c (strings_Join ws [c]) = ws"
  by (induction ws rule: induct_list012) (simp_all add: fields_word fields_last)

definition service_words :: "(float64 \<Rightarrow> string) \<Rightarrow> string \<Rightarrow> installConfig \<Rightarrow> string list" where
  "service_words fmt exe cfg = [exe, ''--address='' @ ic_Addr cfg, ''serve'', ''--ttrpc-address='' @ ic_TTRPCAddr cfg,
     ''--debug='' @ FormatBool (ic_Debug cfg), ''--root='' @ ic_Root cfg, ''--log-mode='' @ ToLower (ic_LogMode cfg),
     ''--trace-endpoint='' @ tr_Endpoint (ic_Trace cfg), ''--trace-sample-rate='' @ fmt (tr_SampleRate (ic_Trace cfg)),
     ''--trace-insecure='' @ FormatBool (tr_Insecure (ic_Trace cfg)), ''--no-new-namespace='' @ FormatBool (ic_NoNewNamespace cfg)]"

lemma serviceUnit_lines:
  "serviceUnit fmt exe cfg = strings_Join ['''', ''[Unit]'', ''Description=containerd shim service that uses systemd to manage containers'', '''',
     ''[Service]'', ''Type=notify'', ''Environment=UNIT_NAME=%n'', ''ExecStart='' @ strings_Join (service_words fmt exe cfg) '' '', ''''] ''\<newline>''"
  by (simp add: serviceUnit_def StringFlags_def service_words_def)

definition plain_word :: "string \<Rightarrow> bool" where
  "plain_word w \<longleftrightarrow> CHR '' '' \<notin> set w \<and> CHR ''\<newline>'' \<notin> set w \<and> \<not> list_ex special w"

lemma Join_plain: "\<forall>w \<in> set ws. c \<notin> set w \<Longrightarrow> c \<notin> set sep \<Longrightarrow> c \<notin> set (strings_Join ws sep)"
  by (induction ws sep rule: strings_Join.induct) auto

lemma plain_FormatBool [simp]: "plain_word (FormatBool b)"
  by (simp add: plain_word_def FormatBool_def special_def)

lemma unit_exec_service:
  assumes "\<forall>w \<in> set (service_words fmt exe cfg). plain_word w" and "exe \<noteq> ''''" "hd exe = CHR ''/''"
  shows "unit_exec (serviceUnit fmt exe cfg) = Some (service_words fmt exe cfg)"
proof -
  let ?cmd = "strings_Join (service_words fmt exe cfg) '' ''"
  have sp: "\<not> list_ex special ?cmd"
  proof -
    have "c \<notin> set ?cmd" if "special c" for c
      using assms(1) that by (intro Join_plain) (auto simp: plain_word_def list_ex_iff special_def)
    then show ?thesis by (auto simp: list_ex_iff)
  qed
  have hd: "?cmd \<noteq> ''''" "hd ?cmd = CHR ''/''" using assms(2,3) by (simp_all add: service_words_def)
  have "CHR ''\<newline>'' \<notin> set ?cmd" using assms(1) by (intro Join_plain) (auto simp: plain_word_def)
  then have "fields (CHR ''\<newline>'') (serviceUnit fmt exe cfg) = ['''', ''[Unit]'', ''Description=containerd shim service that uses systemd to manage containers'', '''',
     ''[Service]'', ''Type=notify'', ''Environment=UNIT_NAME=%n'', ''ExecStart='' @ ?cmd, '''']"
    unfolding serviceUnit_lines by (intro fields_Join) simp_all
  moreover have "fields (CHR '' '') ?cmd = service_words fmt exe cfg"
    using assms(1) by (intro fields_Join) (auto simp: plain_word_def service_words_def)
  ultimately show ?thesis using sp hd by (simp add: unit_exec_def List.map_filter_def)
qed

lemma serve_flags [unfolded append_Cons append_Nil, simp]:
  "arg_kind (''--address='' @ v) = Flag ''address'' (Some v)" "arg_kind (''--ttrpc-address='' @ v) = Flag ''ttrpc-address'' (Some v)"
  "arg_kind (''--root='' @ v) = Flag ''root'' (Some v)" "arg_kind (''--log-mode='' @ v) = Flag ''log-mode'' (Some v)"
  "arg_kind (''--trace-endpoint='' @ v) = Flag ''trace-endpoint'' (Some v)"
  "arg_kind (''--trace-sample-rate='' @ v) = Flag ''trace-sample-rate'' (Some v)"
  "arg_kind (''--trace-insecure='' @ v) = Flag ''trace-insecure'' (Some v)"
  "arg_kind (''--no-new-namespace='' @ v) = Flag ''no-new-namespace'' (Some v)"
  by (simp_all add: arg_kind_def)

lemma serve_commandFlags [simp]:
  "commandFlags d ''debug'' = Some BoolFlag" "commandFlags d ''ttrpc-address'' = Some StringFlag"
  "commandFlags d ''root'' = Some StringFlag" "commandFlags d ''log-mode'' = Some StringFlag"
  "commandFlags d ''trace-endpoint'' = Some StringFlag" "commandFlags d ''trace-sample-rate'' = Some (ValueFlag (\<lambda>s. ParseFloat d s \<noteq> None))"
  "commandFlags d ''trace-insecure'' = Some BoolFlag" "commandFlags d ''no-new-namespace'' = Some BoolFlag"
  by (simp_all add: commandFlags_def)

lemma main_serve:
  assumes "ParseFloat d (fmt (tr_SampleRate (ic_Trace cfg))) = Some rate"
  shows "main d (service_words fmt exe cfg) = Command ''serve'' (command_options d [(''address'', ic_Addr cfg)]
    [(''ttrpc-address'', ic_TTRPCAddr cfg), (''debug'', FormatBool (ic_Debug cfg)), (''root'', ic_Root cfg),
     (''log-mode'', ToLower (ic_LogMode cfg)), (''trace-endpoint'', tr_Endpoint (ic_Trace cfg)),
     (''trace-sample-rate'', fmt (tr_SampleRate (ic_Trace cfg))), (''trace-insecure'', FormatBool (tr_Insecure (ic_Trace cfg))),
     (''no-new-namespace'', FormatBool (ic_NoNewNamespace cfg))] [])"
  using assms by (simp add: main_def service_words_def commands_def bool_of_def)

text \<open>
  C22: the installed unit serves what was asked for. As long as the executable's path is absolute, no word of the command contains a blank, a line end, or a
  character systemd interprets (\<open>%\<close>, \<open>$\<close>, quotes, backslash), and \<open>ParseFloat\<close> accepts the sample rate as \<open>%f\<close> prints it, the command systemd runs for the installed
  unit file is read by \<open>main\<close> as the serve command, with the root, addresses, log mode, tracing and namespace options of the configuration it was
  installed with. The sample rate is the number \<open>ParseFloat\<close> reads from the printed one, so the configured one only if six digits after the point tell it exactly.
\<close>

theorem service_unit_roundtrip:
  assumes "\<forall>w \<in> set (service_words fmt exe cfg). plain_word w" and "exe \<noteq> ''''" and "hd exe = CHR ''/''"
    and "ParseFloat d (fmt (tr_SampleRate (ic_Trace cfg))) = Some rate" and "ic_LogMode cfg \<noteq> ''''"
  shows "\<exists>argv cl. unit_exec (serviceUnit fmt exe cfg) = Some argv \<and> main d argv = Command ''serve'' cl
    \<and> cl_address cl = ic_Addr cfg \<and> cl_ttrpcAddr cl = ic_TTRPCAddr cfg \<and> cl_debug cl = ic_Debug cfg \<and> cl_root cl = ic_Root cfg
    \<and> cl_logMode cl = ToLower (ic_LogMode cfg) \<and> cl_noNewNamespace cl = ic_NoNewNamespace cfg
    \<and> \<lparr>tr_Endpoint = cl_traceEndpoint cl, tr_SampleRate = cl_traceRate cl, tr_Insecure = cl_traceInsecure cl\<rparr>
        = (ic_Trace cfg)\<lparr>tr_SampleRate := rate\<rparr>"
  by (rule exI, rule exI, rule conjI [OF unit_exec_service [OF assms(1-3)]], rule conjI [OF main_serve [where fmt = fmt and cfg = cfg, OF assms(4)]])
    (use assms(4,5) in \<open>simp add: command_options_def value_of_def bool_of_def ToLower_def\<close>)

definition demo_install :: installConfig where
  "demo_install = \<lparr>ic_Trace = \<lparr>tr_Endpoint = '''', tr_SampleRate = float_one, tr_Insecure = False\<rparr>, ic_Root = ''/run/shim'',
     ic_Addr = ''/run/c.sock'', ic_TTRPCAddr = ''/run/c.ttrpc'', ic_Debug = True, ic_LogMode = ''STDIO'', ic_Socket = defaultAddress,
     ic_NoNewNamespace = True\<rparr>"

definition demo_fmt :: "float64 \<Rightarrow> string" where
  "demo_fmt f = ''1.000000''"

theorem service_unit_roundtrip_witness:
  "\<exists>argv cl. unit_exec (serviceUnit demo_fmt ''/usr/bin/shim'' demo_install) = Some argv \<and> main demo_defaults argv = Command ''serve'' cl
     \<and> cl_root cl = ''/run/shim'' \<and> cl_noNewNamespace cl \<and> cl_traceRate cl = float_one"
proof -
  have "\<forall>w \<in> set (service_words demo_fmt ''/usr/bin/shim'' demo_install). plain_word w" by code_simp
  moreover have "ParseFloat demo_defaults (demo_fmt (tr_SampleRate (ic_Trace demo_install))) = Some float_one" by (simp add: demo_defaults_def)
  moreover have "ic_LogMode demo_install \<noteq> ''''" "ic_Root demo_install = ''/run/shim''" "ic_NoNewNamespace demo_install"
    by (simp_all add: demo_install_def)
  ultimately obtain argv cl where "unit_exec (serviceUnit demo_fmt ''/usr/bin/shim'' demo_install) = Some argv"
      "main demo_defaults argv = Command ''serve'' cl" "cl_root cl = ''/run/shim''" "cl_noNewNamespace cl"
      and t: "\<lparr>tr_Endpoint = cl_traceEndpoint cl, tr_SampleRate = cl_traceRate cl, tr_Insecure = cl_traceInsecure cl\<rparr>
        = (ic_Trace demo_install)\<lparr>tr_SampleRate := float_one\<rparr>"
    using service_unit_roundtrip [of demo_fmt "''/usr/bin/shim''" demo_install demo_defaults float_one] by auto
  moreover from arg_cong [OF t, of tr_SampleRate] have "cl_traceRate cl = float_one" by simp
  ultimately show ?thesis by blast
qed

subsection \<open>The root file system is there before runc runs\<close>

text \<open>Every command the helper starts is the one it was given.\<close>

fun own_command :: "string list \<Rightarrow> hcall \<Rightarrow> bool" where
  "own_command cmdLine (StartCommand cmd i out er) \<longleftrightarrow> cmd = cmdLine"
| "own_command cmdLine _ \<longleftrightarrow> True"

lemma own_bind:
  "hp m (\<lambda>_ cs. list_all (own_command l) cs) \<Longrightarrow> (\<And>r. hp (f r) (\<lambda>_ cs. list_all (own_command l) cs)) \<Longrightarrow>
     hp (State_Monad.bind m f) (\<lambda>_ cs. list_all (own_command l) cs)"
  by (rule hp_bind, erule hp_mono, rule hp_mono, assumption, simp)

lemma own_quiet: "hp m (\<lambda>_ cs. quiet cs) \<Longrightarrow> hp m (\<lambda>_ cs. list_all (own_command l) cs)"
proof (erule hp_mono)
  have "own_command l k" if "\<not> launches k" for k using that by (cases k) simp_all
  then show "quiet cs \<Longrightarrow> list_all (own_command l) cs" for cs by (auto simp: list_all_iff)
qed

lemma own_calls:
  "hp (return_go v) (\<lambda>_ cs. list_all (own_command l) cs)"
  "own_command l k \<Longrightarrow> hp (hcallE x k) (\<lambda>_ cs. list_all (own_command l) cs)"
  "hp (hnow x) (\<lambda>_ cs. list_all (own_command l) cs)"
  "(\<And>r. list_all (own_command l) (g r)) \<Longrightarrow> hp (hext g f) (\<lambda>_ cs. list_all (own_command l) cs)"
  by (intro hp_rules; simp)+

lemma own_workloadState: "hp (workloadState x pid) (\<lambda>_ cs. list_all (own_command l) cs)"
  unfolding workloadState_def by (intro own_bind own_calls hp_sum hp_prod hp_if hp_Let; simp)

lemmas own_rules = own_bind own_calls quiet_steps [THEN own_quiet] own_workloadState hp_if hp_option hp_sum hp_prod hp_Let

lemma own_createCmd: "hp (createCmd x cmdLine tty noReap n) (\<lambda>_ cs. list_all (own_command cmdLine) cs)"
proof -
  have off: "hp (hand_off x pid st) (\<lambda>_ cs. list_all (own_command cmdLine) cs)" for pid st
    unfolding hand_off_def by (intro own_rules)
  have failed: "hp (runc_failed x code) (\<lambda>_ cs. list_all (own_command cmdLine) cs)" for code
    unfolding runc_failed_def sdNotify_def by (intro own_rules; simp)
  have "hp (report_workload x noReap n) (\<lambda>_ cs. list_all (own_command cmdLine) cs)"
    unfolding report_workload_def by (intro own_rules off failed; simp)
  then show ?thesis unfolding createCmd_def run_command_def by (intro own_rules; simp)
qed

text \<open>The steps of mounting, when the configuration can be read.\<close>

lemma hp_hcallS_known: "\<forall>w. fst (h_str x k w) = v \<Longrightarrow> Q v [k] \<Longrightarrow> hp (hcallS x k) Q"
  by (auto simp: hp_def hcallS_def hext_def wp_def split: prod.splits) (metis fst_conv)

lemma hp_mountRootfs:
  assumes "\<forall>w. fst (h_str x (HRead path) w) = Inr data" and "unmarshal data = Inr (ms, bundle)"
  shows "hp (mountRootfs x unmarshal path) (\<lambda>e cs. e \<noteq> None \<and> (\<forall>k \<in> set cs. \<not> launches k)
   \<or> e = None \<and> cs = [HRead path, Mkdir (path_Join [bundle, ''rootfs'']),
       MountAll (map (\<lambda>m. m\<lparr>m_Target := ''''\<rparr>) ms) (path_Join [bundle, ''rootfs'']) None])"
  unfolding mountRootfs_def mountFS_def
  by (rule hp_bind, rule hp_hcallS_known [OF assms(1)]) (simp add: assms(2), intro hp_rules, auto)

fun log_only :: "hcall \<Rightarrow> bool" where
  "log_only (HShimLog _ _) = True"
| "log_only _ = False"

lemma hp_OpenShimLog: "hp (OpenShimLog (\<lambda>k. hcallR x (HShimLog k)) b) (\<lambda>_ cs. list_all log_only cs)"
  unfolding OpenShimLog_def by (intro hp_rules) simp_all

lemma path_Join_not_empty: "e \<in> set es \<Longrightarrow> e \<noteq> '''' \<Longrightarrow> path_Join es \<noteq> ''''"
  by (auto simp: path_Join_def path_Clean_def Let_def filter_empty_conv)

lemma create_main_mounts:
  assumes "cl_mountCfg cl = path" "path \<noteq> ''''" and "\<forall>w. fst (h_str x (HRead path) w) = Inr data" and "unmarshal data = Inr (ms, bundle)"
  shows "hp (create_command_main x unmarshal cl n) (\<lambda>_ cs. (\<exists>k \<in> set cs. launches k) \<longrightarrow>
    list_all (own_command (cl_args cl)) cs \<and> (\<exists>lg rest. list_all log_only lg \<and> cs = lg @ [HRead path, Mkdir (path_Join [bundle, ''rootfs'']),
       MountAll (map (\<lambda>m. m\<lparr>m_Target := ''''\<rparr>) ms) (path_Join [bundle, ''rootfs'']) None] @ rest))"
proof -
  have own: "own_command l k" "\<not> launches k" if "log_only k" for l k using that by (cases k; simp)+
  have "hp (mountRootfs x unmarshal path \<bind> (\<lambda>e. if e \<noteq> None then return_go (Some e)
      else createCmd x (cl_args cl) (cl_tty cl) (cl_mountCfg cl \<noteq> []) n)) (\<lambda>_ cs. (\<exists>k \<in> set cs. launches k) \<longrightarrow>
    list_all (own_command (cl_args cl)) cs \<and> (\<exists>rest. cs = [HRead path, Mkdir (path_Join [bundle, ''rootfs'']),
       MountAll (map (\<lambda>m. m\<lparr>m_Target := ''''\<rparr>) ms) (path_Join [bundle, ''rootfs'']) None] @ rest))"
    by (rule hp_bind, rule hp_mono [OF hp_mountRootfs [where unmarshal = unmarshal, OF assms(3,4)]], rule hp_if, rule hp_return, force,
        rule hp_mono [OF own_createCmd], auto)
  then have rest: "hp (mountRootfs x unmarshal path \<bind> (\<lambda>e. if e \<noteq> None then return_go (Some e)
      else createCmd x (cl_args cl) (cl_tty cl) (cl_mountCfg cl \<noteq> []) n)) (\<lambda>_ cs. \<forall>lg. list_all log_only lg \<longrightarrow> (\<exists>k \<in> set (lg @ cs). launches k) \<longrightarrow>
    list_all (own_command (cl_args cl)) (lg @ cs) \<and> (\<exists>lg' rest. list_all log_only lg' \<and> lg @ cs = lg' @ [HRead path, Mkdir (path_Join [bundle, ''rootfs'']),
       MountAll (map (\<lambda>m. m\<lparr>m_Target := ''''\<rparr>) ms) (path_Join [bundle, ''rootfs'']) None] @ rest))"
    by (rule hp_mono) (auto simp: list_all_iff own)
  have eq: "create_command_main x unmarshal cl n = OpenShimLog (\<lambda>k. hcallR x (HShimLog k)) (cl_bundle cl) \<bind> (\<lambda>_.
      mountRootfs x unmarshal path \<bind> (\<lambda>e. if e \<noteq> None then return_go (Some e)
        else createCmd x (cl_args cl) (cl_tty cl) (cl_mountCfg cl \<noteq> []) n))"
    using assms(1,2) by (simp add: create_command_main_def)
  show ?thesis unfolding eq by (rule hp_bind, rule hp_mono [OF hp_OpenShimLog], rule hp_mono [OF rest]) blast
qed

text \<open>
  C8: a task's root file system is in place before runc runs. For a task with a private mount namespace, as long as runc's path does not look like a flag, the
  protobuf library reads back what it wrote and the helper reads the configuration the shim wrote: whatever runc command the helper started
  by the unit runs is the one the shim put in the unit, and before it the helper, after opening the log, has mounted the
  mounts of the create request on the bundle's root file system, and mounting them has succeeded.
\<close>

theorem rootfs_mounted_first:
  assumes "arg_kind (rc_Command (c_runc (ip_conf p))) = NotFlag" and "ip_Rootfs p \<noteq> []" and "\<not> ip_noNewNamespace p"
    and codec: "\<forall>b ms dt. e_proto_mounts y b ms = Inr dt \<longrightarrow> unmarshal dt = Inr (ms, b)"
    and written: "e_proto_mounts y (ip_Bundle p) (ip_Rootfs p) = Inr data"
    and rd: "\<forall>w. fst (h_str x (HRead (mountConfigPath p)) w) = Inr data"
    and argv: "exec_args ''ExecStart'' (init_startProperties p pr rcmd) = Some argv" "main d argv = Command ''create'' cl"
    and run: "run_state (create_command_main x unmarshal cl n) s = (ro, s')" "hs_calls s' = hs_calls s @ cs"
    and start: "StartCommand cmd i out er \<in> set cs"
  shows "cmd = runcCmd (ip_conf p) (p_opts pr) (rcmd @ [c_id (ip_conf p)])
    \<and> (\<exists>lg rest. list_all log_only lg \<and> cs = lg @ [HRead (mountConfigPath p), Mkdir (path_Join [ip_Bundle p, ''rootfs'']),
         MountAll (map (\<lambda>m. m\<lparr>m_Target := ''''\<rparr>) (ip_Rootfs p)) (path_Join [ip_Bundle p, ''rootfs'']) None] @ rest)"
proof -
  have cl: "cl = create_options d (rc_Debug (c_runc (ip_conf p))) (ip_Bundle p) (ip_Rootfs p \<noteq> [] \<and> \<not> ip_noNewNamespace p)
      (mountConfigPath p) (p_Terminal pr \<or> co_Terminal (p_opts pr)) (runcCmd (ip_conf p) (p_opts pr) (rcmd @ [c_id (ip_conf p)]))"
    using argv(2) unfolding option.inject [THEN iffD1, OF trans [OF argv(1) [symmetric] init_ExecStart]] main_create [OF assms(1)]
    by (simp only: run.inject)
  then have sel: "cl_mountCfg cl = mountConfigPath p" "cl_args cl = runcCmd (ip_conf p) (p_opts pr) (rcmd @ [c_id (ip_conf p)])"
    using assms(2,3) by (simp_all only: create_options_sel) simp_all
  have path: "mountConfigPath p \<noteq> ''''" unfolding mountConfigPath_def by (rule path_Join_not_empty [of "''mounts.pb''"]) simp_all
  have "\<exists>k \<in> set cs. launches k" using start by (intro bexI [of _ "StartCommand cmd i out er"]) simp_all
  with hpD [OF create_main_mounts [where unmarshal = unmarshal, OF sel(1) path rd codec [rule_format, OF written]] run] start sel(2)
  show ?thesis by (auto simp: list_all_iff)
qed

abbreviation demo_mounts :: "task_mount list" where
  "demo_mounts \<equiv> [\<lparr>m_Type = ''bind'', m_Source = ''/src'', m_Target = '''', m_Options = []\<rparr>]"

definition mount_env :: "unit env" where
  "mount_env = calm_env\<lparr>e_proto_mounts := (\<lambda>b ms. if (b, ms) = (''/b'', demo_mounts) then Inr ''cfg'' else Inl ErrInvalidArgument)\<rparr>"

definition mount_henv :: "unit henv" where
  "mount_henv = demo_henv\<lparr>h_str := (\<lambda>k w. (Inr (case k of HRead p \<Rightarrow> if p = ''/b/mounts.pb'' then ''cfg'' else ''7'' | _ \<Rightarrow> ''7''), w))\<rparr>"

definition mount_argv :: "string list" where
  "mount_argv = the (exec_args ''ExecStart'' (init_startProperties (rootfs_init False) (blank_process ''ns'') [''create'']))"

definition mount_cli :: cli where
  "mount_cli = (case main demo_defaults mount_argv of Command _ cl \<Rightarrow> cl)"

abbreviation mount_trace :: "hcall list" where
  "mount_trace \<equiv> hs_calls (snd (run_state (create_command_main mount_henv (\<lambda>_. Inr (demo_mounts, ''/b'')) mount_cli 1)
     \<lparr>hs_world = (), hs_calls = []\<rparr>))"

theorem rootfs_mounted_first_witness:
  "\<exists>lg rest. list_all log_only lg \<and> mount_trace = lg @ [HRead ''/b/mounts.pb'', Mkdir ''/b/rootfs'', MountAll demo_mounts ''/b/rootfs'' None] @ rest"
proof -
  let ?p = "rootfs_init False"
  have path: "mountConfigPath ?p = ''/b/mounts.pb''" "path_Join [''/b'', ''rootfs''] = ''/b/rootfs''"
      "ip_Rootfs ?p = demo_mounts" "ip_Bundle ?p = ''/b''"
    by code_simp+
  have plain: "arg_kind (rc_Command (c_runc (ip_conf ?p))) = NotFlag" by code_simp
  have codec: "\<forall>b ms dt. e_proto_mounts mount_env b ms = Inr dt \<longrightarrow> (\<lambda>_. Inr (demo_mounts, ''/b'')) dt = Inr (ms, b)"
    by (simp add: mount_env_def)
  have written: "e_proto_mounts mount_env (ip_Bundle ?p) (ip_Rootfs ?p) = Inr ''cfg''"
    unfolding path by (simp add: mount_env_def)
  have rd: "\<forall>w. fst (h_str mount_henv (HRead (mountConfigPath ?p)) w) = Inr ''cfg''"
    unfolding path by (simp add: mount_henv_def)
  have argv: "exec_args ''ExecStart'' (init_startProperties ?p (blank_process ''ns'') [''create'']) = Some mount_argv"
    by code_simp
  have "case main demo_defaults mount_argv of Command cmd _ \<Rightarrow> cmd = ''create'' | _ \<Rightarrow> False" by code_simp
  then have main: "main demo_defaults mount_argv = Command ''create'' mount_cli" by (simp add: mount_cli_def split: run.splits)
  obtain ro s' where run: "run_state (create_command_main mount_henv (\<lambda>_. Inr (demo_mounts, ''/b'')) mount_cli 1)
     \<lparr>hs_world = (), hs_calls = []\<rparr> = (ro, s')" by fastforce
  have start: "StartCommand (cl_args mount_cli) None None None \<in> set mount_trace" by code_simp
  have "ip_Rootfs ?p \<noteq> []" "\<not> ip_noNewNamespace ?p" by simp_all
  note mounted = rootfs_mounted_first [OF plain this codec written rd argv main run]
  have calls: "hs_calls s' = mount_trace" by (simp only: run snd_conv)
  have "hs_calls s' = hs_calls \<lparr>hs_world = (), hs_calls = []\<rparr> @ mount_trace" by (simp only: calls helper.select_convs append_Nil)
  from mounted [OF this start, THEN conjunct2]
  show ?thesis unfolding path by (simp only: list.map task_mount.simps)
qed

text \<open>
  The mount command forgets its argument. For a task whose root file system is mounted in the host's namespace, the unit
  runs the binary's mount command with the path of the mount configuration first; \<open>main\<close> accepts that command line, but the
  command reads the file with the empty name instead, whatever the path was, so that it fails wherever reading that fails.
\<close>

theorem mount_command_drops_path:
  assumes "ip_Rootfs p \<noteq> []" and "ip_noNewNamespace p" and "arg_kind (mountConfigPath p) = NotFlag"
  shows "\<exists>argv cl. exec_args ''ExecStartPre'' (init_startProperties p pr rcmd) = Some argv \<and> main d argv = Command ''mount'' cl
    \<and> cl_args cl = [mountConfigPath p]
    \<and> mount_command_main x unmarshal cl = mountRootfs x unmarshal ''''"
proof -
  have pre: "exec_args ''ExecStartPre'' (init_startProperties p pr rcmd) = Some [c_exe (ip_conf p), ''mount'', mountConfigPath p]"
    using assms(1,2) by (simp add: init_startProperties_def propExecCommand_def Let_def)
  have "main d [c_exe (ip_conf p), ''mount'', mountConfigPath p] = Command ''mount'' (command_options d [] [] [mountConfigPath p])"
    using assms(3) by (simp add: main_def commands_def bool_of_def)
  moreover have "cl_args (command_options d [] [] [mountConfigPath p]) = [mountConfigPath p]"
    by (simp add: command_options_def Let_def)
  ultimately show ?thesis using pre by (intro exI conjI) (assumption | simp add: mount_command_main_def)+
qed

theorem mount_command_drops_path_witness:
  "\<exists>argv cl. exec_args ''ExecStartPre'' (init_startProperties (rootfs_init True) (blank_process ''ns'') [''create'']) = Some argv
     \<and> main demo_defaults argv = Command ''mount'' cl
     \<and> mount_command_main demo_henv (\<lambda>_. Inr ([], '''')) cl = mountRootfs demo_henv (\<lambda>_. Inr ([], '''')) ''''"
proof -
  have "ip_Rootfs (rootfs_init True) \<noteq> []" "ip_noNewNamespace (rootfs_init True)" by simp_all
  moreover have "arg_kind (mountConfigPath (rootfs_init True)) = NotFlag" by code_simp
  ultimately show ?thesis using mount_command_drops_path by metis
qed

end
