(* ===== verification/Handover.thy ===== *)
theory Handover
  imports Host
begin

text \<open>
  Where the helper and the shim meet: the state file. What the helper wrote last is what the shim's \<open>LoadState\<close> finds.
\<close>

text \<open>The contents of a file after a run: what the last successful write to it wrote.\<close>

fun file_after :: "string \<Rightarrow> hcall list \<Rightarrow> string option" where
  "file_after path [] = None"
| "file_after path (k # ks) = (case file_after path ks of
     Some d \<Rightarrow> Some d
   | None \<Rightarrow> (case k of WriteState p d None \<Rightarrow> if p = path then Some d else None | _ \<Rightarrow> None))"

lemma file_after_append: "file_after path (ks @ ls) = (case file_after path ls of Some d \<Rightarrow> Some d | None \<Rightarrow> file_after path ks)"
  by (induction ks) (auto split: option.splits)

lemma ended_state_Exited: "Exited (ended_state pid ws t)"
  by (simp add: Exited_def ended_state_def toStatus_def)

lemma LoadState_from_file:
  assumes x: "rely lifecycle_le x" and a: "allocated (ip_addr p) s"
    and stored: "\<forall>s. fst (e_str x (ReadFile (init_exitStatePath p)) s) = Inr d"
    and st: "e_json_state x d = Inr st" "Exited st" "Status st \<noteq> ''''"
  shows "wp (init_LoadState x c p) (\<lambda>e s'. e = None \<and> ended (ip_addr p) s') s"
proof -
  have rd: "wp (init_readExitState x p) (\<lambda>r s'. r = Inr st \<and> allocated (ip_addr p) s') s"
  proof (rule wp_mono [OF wp_conj])
    have "wp (callS x (ReadFile (init_exitStatePath p))) (\<lambda>r _. r = Inr d) s"
      using stored by (simp add: callS_def wp_simps case_prod_beta)
    then show "wp (init_readExitState x p) (\<lambda>r _. r = Inr st) s"
      unfolding init_readExitState_def readExitState_def wp_bind
      by (rule wp_mono) (simp add: wp_simps countState_def st(1))
    show "wp (init_readExitState x p) (\<lambda>_. allocated (ip_addr p)) s"
      by (rule stable_wp [OF stables(3) _ a]) (intro lo_reads x)
  qed simp
  show ?thesis
    unfolding init_LoadState_def wp_bind
    by (rule wp_mono [OF rd])
      (auto simp: wp_simps st Let_def intro: wp_mono [OF init_SetState_ended [OF x _ st(2)]])
qed

text \<open>
  C3: an exit the helper consumed reaches the shim, or the helper fails and says so. Assume that \<open>wait4\<close> answers as documented, the JSON library reads back
  what it wrote, the state file keeps what was last written to it until the shim reads it, and no goroutine of the shim undoes an exit. When a run of the helper for a task's unit has
  reaped the workload, then either its last call was the write of the exit state, that write failed, and the helper's result is that very error; or the next time the shim loads the
  task's state it succeeds and the task is known to have exited, even though systemd never saw the workload's exit status.
\<close>

theorem helper_exit_reaches_shim:
  assumes "wait4_ok x" and run: "run_state (createCmd x cmdLine tty noReap n) h = (ro, h')" "hs_calls h' = hs_calls h @ cs"
    and reaped: "Wait4 pid (Inr (pid, ws)) \<in> set cs"
    and path: "h_getenv x ''EXIT_STATE_PATH'' = init_exitStatePath p"
    and codec: "\<forall>t. \<exists>d. h_json_state x (ended_state pid ws t) = Inr d \<and> e_json_state y d = Inr (ended_state pid ws t)"
    and stored: "\<forall>d s. file_after (init_exitStatePath p) cs = Some d \<longrightarrow> fst (e_str y (ReadFile (init_exitStatePath p)) s) = Inr d"
    and y: "rely lifecycle_le y" "ip_addr p < sh_next s" and load: "run_state (init_LoadState y c p) s = (e, s')"
  shows "(\<exists>d err. last cs = WriteState (init_exitStatePath p) d (Some err) \<and> ro = Some (Some err))
    \<or> e = None \<and> Exited (p_state (sh_procs s' (ip_addr p)))"
proof -
  have "settled_account x ro cs" by (rule hpD [OF settled_createCmd [OF assms(1)] run])
  with reaped obtain r where ro: "ro = Some r" and "reported x pid ws cs r"
    by (auto simp: settled_account_def accounted_def list_all_iff split: option.splits)
  then obtain pre t tl where cs: "cs = pre @ Wait4 pid (Inr (pid, ws)) # tl" and tl: "report_tail x (ended_state pid ws t) tl r"
    unfolding reported_def by blast
  obtain d where d: "h_json_state x (ended_state pid ws t) = Inr d" "e_json_state y d = Inr (ended_state pid ws t)"
    using codec by blast
  with tl consider (lost) err where "tl = [WriteState (init_exitStatePath p) d (Some err)]" "r = Some err"
    | (kept) "tl = [WriteState (init_exitStatePath p) d None, ended_notice (ended_state pid ws t)]"
    by (auto simp: report_tail_def path)
  then show ?thesis
  proof cases
    case lost
    then show ?thesis by (simp add: cs ro)
  next
    case kept
    then have "file_after (init_exitStatePath p) cs = Some d" by (simp add: cs file_after_append ended_notice_def)
    with stored have read: "\<forall>s. fst (e_str y (ReadFile (init_exitStatePath p)) s) = Inr d" by blast
    have "wp (init_LoadState y c p) (\<lambda>e s'. e = None \<and> ended (ip_addr p) s') s"
      using y(2) by (intro LoadState_from_file [OF y(1) _ read d(2) ended_state_Exited]) (simp_all add: allocated_def ended_state_def)
    from wpD [OF this load] show ?thesis by (simp add: ended_def)
  qed
qed

text \<open>A demonstration: the exit times are written in decimal.\<close>

definition int_of :: "string \<Rightarrow> int" where
  "int_of s = (case s of c # cs \<Rightarrow> if c = CHR ''-'' then - int (nat_of_digits cs) else int (nat_of_digits s) | [] \<Rightarrow> 0)"

lemma int_of_show_int: "int_of (show_int i) = i"
proof (cases "i < 0")
  case True
  then show ?thesis using show_nat_digits [of "nat (- i)"] by (simp add: int_of_def show_int_def)
next
  case False
  obtain c cs where "show_nat (nat i) = c # cs" "is_digit c" using show_nat_digits [of "nat i"]
    by (cases "show_nat (nat i)") auto
  moreover have "\<not> is_digit (CHR ''-'')" by (simp add: is_digit_def)
  ultimately show ?thesis using False show_nat_digits [of "nat i"] by (auto simp: int_of_def show_int_def)
qed

definition hand_henv :: "unit henv" where
  "hand_henv = demo_henv\<lparr>h_getenv := (\<lambda>v. if v = ''EXIT_STATE_PATH'' then ''/b/init_exit_status.json'' else ''''),
     h_json_state := (\<lambda>st. Inr (show_int (ExitedAt st)))\<rparr>"

definition hand_env :: "unit env" where
  "hand_env = calm_env\<lparr>e_str := (\<lambda>_ s. (Inr ''100'', s)), e_json_state := (\<lambda>d. Inr (ended_state 7 killed_9 (int_of d)))\<rparr>"

abbreviation hand_trace :: "hcall list" where
  "hand_trace \<equiv> [SetSubreaper, StartCommand [''runc''] None None None, WaitCommand None, HRead '''',
     Wait4 7 (Inr (7, killed_9)), WriteState ''/b/init_exit_status.json'' ''100'' None,
     SdNotify ''STATUS=exited\<newline>ERRNO=137\<newline>MAINPID=7'']"

lemma hand_run:
  "run_state (createCmd hand_henv [''runc''] False False 1) \<lparr>hs_world = (), hs_calls = []\<rparr>
     = (Some (Some (ErrOther ''process exited with code 137'')), \<lparr>hs_world = (), hs_calls = hand_trace\<rparr>)"
  by code_simp

theorem helper_exit_reaches_shim_witness:
  "Exited (p_state (sh_procs (snd (run_state (init_LoadState hand_env ReqCtx demo_init) (demo_shim (blank_process ''ns'') (blank_process ''ns'')))) 0))"
proof -
  let ?s = "demo_shim (blank_process ''ns'') (blank_process ''ns'') :: unit shim"
  have path: "init_exitStatePath demo_init = ''/b/init_exit_status.json''" by code_simp
  have x: "wait4_ok hand_henv" using demo_wait4_ok by (simp add: wait4_ok_def hand_henv_def)
  have env: "h_getenv hand_henv ''EXIT_STATE_PATH'' = init_exitStatePath demo_init"
    unfolding path by (simp add: hand_henv_def)
  have calls: "hs_calls \<lparr>hs_world = (), hs_calls = hand_trace\<rparr> = hs_calls \<lparr>hs_world = (), hs_calls = []\<rparr> @ hand_trace" by simp
  have reaped: "Wait4 7 (Inr (7, killed_9)) \<in> set hand_trace" by simp
  have codec: "\<forall>t. \<exists>d. h_json_state hand_henv (ended_state 7 killed_9 t) = Inr d \<and> e_json_state hand_env d = Inr (ended_state 7 killed_9 t)"
    by (simp add: hand_henv_def hand_env_def int_of_show_int, simp add: ended_state_def int_of_show_int)
  have stored: "\<forall>d s. file_after (init_exitStatePath demo_init) hand_trace = Some d \<longrightarrow>
      fst (e_str hand_env (ReadFile (init_exitStatePath demo_init)) s) = Inr d"
    unfolding path by (simp add: hand_env_def)
  have y: "rely lifecycle_le hand_env" "ip_addr demo_init < sh_next ?s"
    by (simp_all add: rely_def hand_env_def calm_env_def lo.R_refl demo_shim_def blank_init_def)
  obtain e s' where load: "run_state (init_LoadState hand_env ReqCtx demo_init) ?s = (e, s')" by fastforce
  from helper_exit_reaches_shim [OF x hand_run calls reaped env codec stored y load]
  have "Exited (p_state (sh_procs s' (ip_addr demo_init)))" by simp
  moreover have "ip_addr demo_init = 0" by (simp add: blank_init_def)
  ultimately show ?thesis by (simp add: load)
qed

end
