(* ===== verification/Commands.thy ===== *)
theory Commands
  imports Api Cli
begin

text \<open>
  The \<open>delete\<close> command of the binary (\<open>main.go\<close>), which containerd runs to clean up after a shim: it builds a service of its own
  and asks it to delete the task.
\<close>

text \<open>
  \<open>valid\<close> is the check \<open>namespaces.NamespaceRequired\<close> makes of a namespace, \<open>marshal\<close> the encoding of the answer; \<open>executable\<close> and \<open>arg0\<close> are as in
  \<open>New\<close>. The deferred clean-up of the bundle runs on every return.
\<close>

definition write_response :: "'w env \<Rightarrow> (DeleteResponse \<Rightarrow> string result) \<Rightarrow> DeleteResponse \<Rightarrow> ('w, err option) go" where
  "write_response x marshal resp = (case marshal resp of
     Inl e \<Rightarrow> return_go (Some e)
   | Inr data \<Rightarrow> callE x (WriteStdout data))"

definition delete_task ::
  "'w env \<Rightarrow> (DeleteResponse \<Rightarrow> string result) \<Rightarrow> ctx \<Rightarrow> string result \<Rightarrow> string \<Rightarrow> nat \<Rightarrow> ('w, err option option) go" where
  "delete_task x marshal c ns i n = do {
     d \<leftarrow> Service_Delete x c ns i '''' n;
     case d of
       None \<Rightarrow> return_go None
     | Some (Inl e) \<Rightarrow>
         if e \<noteq> ErrNotFound then return_go (Some (Some e))
         else do { w \<leftarrow> write_response x marshal \<lparr>dr_Pid = 0, dr_ExitStatus = 0, dr_ExitedAt = go_zero_time\<rparr>; return_go (Some w) }
     | Some (Inr resp) \<Rightarrow> do { w \<leftarrow> write_response x marshal resp; return_go (Some w) } }"

definition delete_command_main ::
  "'w env \<Rightarrow> (string \<Rightarrow> string result) \<Rightarrow> (DeleteResponse \<Rightarrow> string result) \<Rightarrow> string result \<Rightarrow> string \<Rightarrow>
   cli \<Rightarrow> ctx \<Rightarrow> nat \<Rightarrow> ('w, err option option) go" where
  "delete_command_main x valid marshal executable arg0 cl c n =
     (if cl_bundle cl = '''' then return_go (Some None)
      else do {
        let namespace = (if cl_namespace cl = '''' then path_Base (path_Dir (cl_bundle cl)) else cl_namespace cl);
        svc \<leftarrow> New x \<lparr>cfg_Root = cl_root cl, cfg_LogMode = '''', cfg_NoNewNamespace = False\<rparr> executable arg0 (cl_debug cl);
        r \<leftarrow> (case svc of
               Inl e \<Rightarrow> return_go (Some (Some e))
             | Inr _ \<Rightarrow> delete_task x marshal c (valid namespace) (cl_id cl) n);
        case r of
          None \<Rightarrow> return_go None
        | Some ret \<Rightarrow> do {
            ignore (callE x (UmountDetach (path_Join [cl_bundle cl, ''rootfs''])));
            ignore (callE x (RemoveAll (cl_bundle cl)));
            return_go (Some ret) } })"

text \<open>The calls of making a service that succeeded, or not.\<close>

definition setup_trace :: "string \<Rightarrow> bool \<Rightarrow> call list \<Rightarrow> bool" where
  "setup_trace root ok cs \<longleftrightarrow>
     (let made = [DialSystemd, LookPath ''runc'', DialMessageBus, MkdirAll (path_Join [root, ''runc''])]
      in if ok then cs = made
         else cs \<in> set [[DialSystemd], [DialSystemd, LookPath ''runc'', CloseSystemdConn],
                made @ [CloseSystemdConn], made @ [CloseSystemdConn, CloseMessageBus]])"

definition no_task :: DeleteResponse where
  "no_task = \<lparr>dr_Pid = 0, dr_ExitStatus = 0, dr_ExitedAt = go_zero_time\<rparr>"

definition answer_trace :: "(DeleteResponse \<Rightarrow> string result) \<Rightarrow> call list \<Rightarrow> bool" where
  "answer_trace marshal cs \<longleftrightarrow> (case marshal no_task of Inl e \<Rightarrow> cs = [] | Inr data \<Rightarrow> cs = [WriteStdout data])"

lemma New_trace: "wp (New x cfg executable arg0 debug) (\<lambda>r t. trace s t [setup_trace (cfg_Root cfg) (\<not> is_err r)]) s"
  by (auto simp: New_def newServiceWithConfig_def wp_simps check_go_def ignore_def when_go_def callE_def callS_def trace_def setup_trace_def
      split: prod.splits option.splits sum.splits)

lemma free_New: "rely (free_le k) x \<Longrightarrow> guar (free_le k) (New x cfg executable arg0 debug)"
  unfolding New_def newServiceWithConfig_def by (intro free.table_rules; simp)

lemma Service_Delete_unknown:
  assumes "rely (free_le (path_Join [ns, i])) x" and "free_key (path_Join [ns, i]) s"
  shows "refused (Some (Inl ErrNotFound)) (Service_Delete x c (Inr ns) i e n) s"
  unfolding Service_Delete_def sum.case
  by (rule wp_intros, rule wp_mono [OF processes_Get_unknown [OF assms]]) (simp add: wp_simps)

lemma write_response_trace: "wp (write_response x marshal no_task) (\<lambda>_ t. trace s t [answer_trace marshal]) s"
  by (auto simp: write_response_def wp_simps callE_def trace_def answer_trace_def split: prod.splits sum.splits)

lemma delete_task_unknown:
  assumes "rely (free_le (path_Join [ns, i])) x" and "free_key (path_Join [ns, i]) s"
  shows "wp (delete_task x marshal c (Inr ns) i n) (\<lambda>r s'. r \<noteq> None \<and> trace s s' [answer_trace marshal]) s"
  unfolding delete_task_def wp_bind
proof (rule wp_mono [OF Service_Delete_unknown [OF assms]], elim conjE, simp)
  fix t :: "'a shim" assume t: "sh_calls t = sh_calls s"
  show "wp (write_response x marshal \<lparr>dr_Pid = 0, dr_ExitStatus = 0, dr_ExitedAt = go_zero_time\<rparr> \<bind> (\<lambda>w. return_go (Some w)))
      (\<lambda>r s'. (\<exists>y. r = Some y) \<and> trace s s' [answer_trace marshal]) t"
    unfolding no_task_def [symmetric] wp_bind
    by (rule wp_mono [OF write_response_trace]) (use t in \<open>simp add: wp_return trace_def\<close>)
qed

lemma tidy_trace:
  assumes "trace s t Ts"
  shows "wp (do { ignore (callE x (UmountDetach m)); ignore (callE x (RemoveAll b)); return_go (Some ret) })
     (\<lambda>r s'. r \<noteq> None \<and> trace s s' (Ts @ [one (UmountDetach m), one (RemoveAll b)])) t"
  by (rule wp_intros, rule wp_intros, rule tr_calls(1), rule assms)
     ((rule wp_intros | (rule tr_calls(1), assumption) | (simp; fail))+)


definition tidy_options :: cli where
  "tidy_options = (command_options \<lparr>DefaultAddress = ''/run/c.sock'', DefaultStateDir = ''/run/c'', DefaultConfigDir = ''/etc/c'', defaultLogMode = ''stdio'', ParseFloat = (\<lambda>_. Some float_one)\<rparr>
     [(''bundle'', ''/run/ns/new''), (''id'', ''new'')] [] [])"


end
