(* ===== verification/Conform.thy ===== *)
theory Conform
  imports Reactor Api
begin

text \<open>
  The types behind the tables. The source keeps processes in maps from strings to the interface type \<open>Process\<close>; nothing in
  Go's types says that an entry is the process its key names. This theory states what the maps are meant to
  hold, and shows that every operation of the service keeps it.
\<close>

subsection \<open>Conformance\<close>

text \<open>
  A pointer conforms, with the addresses below \<open>n\<close> in use, if its own are and its path name is the escaped
  name of its unit, where \<open>esc\<close> is go-systemd's escaping.
\<close>

fun ptr_conforms :: "(string \<Rightarrow> string) \<Rightarrow> nat \<Rightarrow> ptr \<Rightarrow> bool" where
  "ptr_conforms esc n (InitP p) \<longleftrightarrow> ip_addr p < n \<and> c_pathName (ip_conf p) = esc (init_Name p)"
| "ptr_conforms esc n (ExecP e) \<longleftrightarrow> ep_addr e < n \<and> ip_addr (ep_parent e) < n \<and> c_pathName (ep_conf e) = esc (exec_Name e)"

definition processes_conform :: "(string \<Rightarrow> string) \<Rightarrow> nat \<Rightarrow> (string \<times> init_ptr) list \<Rightarrow> bool" where
  "processes_conform esc n m \<longleftrightarrow> distinct (keys_of m)
     \<and> (\<forall>(k, p) \<in> set m. k = path_Join [c_ns (ip_conf p), c_id (ip_conf p)] \<and> ptr_conforms esc n (InitP p))"

definition units_conform :: "(string \<Rightarrow> string) \<Rightarrow> nat \<Rightarrow> (string \<times> ptr) list \<Rightarrow> bool" where
  "units_conform esc n m \<longleftrightarrow> distinct (keys_of m) \<and> (\<forall>(k, q) \<in> set m. k = PathName q \<and> ptr_conforms esc n q)"

definition execs_conform :: "(string \<Rightarrow> string) \<Rightarrow> nat \<Rightarrow> nat \<Rightarrow> (string \<times> exec_ptr) list \<Rightarrow> bool" where
  "execs_conform esc n a m \<longleftrightarrow> distinct (keys_of m)
     \<and> (\<forall>(k, e) \<in> set m. k = ep_execID e \<and> ip_addr (ep_parent e) = a \<and> ptr_conforms esc n (ExecP e))"

text \<open>The state conforms if its three kinds of tables do. \<open>conform_le\<close> is a move that keeps it.\<close>

definition conforms :: "(string \<Rightarrow> string) \<Rightarrow> 'w shim \<Rightarrow> bool" where
  "conforms esc s \<longleftrightarrow> processes_conform esc (sh_next s) (sh_processes s) \<and> units_conform esc (sh_next s) (sh_units s)
     \<and> (\<forall>a. execs_conform esc (sh_next s) a (i_execs (sh_inits s a)))"

definition conform_le :: "(string \<Rightarrow> string) \<Rightarrow> 'w shim \<Rightarrow> 'w shim \<Rightarrow> bool" where
  "conform_le esc s t \<longleftrightarrow> sh_next s \<le> sh_next t \<and> (conforms esc s \<longrightarrow> conforms esc t)"

lemma ptr_conforms_mono: "ptr_conforms esc n q \<Longrightarrow> n \<le> n' \<Longrightarrow> ptr_conforms esc n' q"
  by (cases q) auto

lemma tables_conform_mono:
  assumes "n \<le> n'"
  shows "processes_conform esc n ps \<Longrightarrow> processes_conform esc n' ps" "units_conform esc n us \<Longrightarrow> units_conform esc n' us"
    "execs_conform esc n a es \<Longrightarrow> execs_conform esc n' a es"
  using ptr_conforms_mono [OF _ assms]
  by (fastforce simp: processes_conform_def units_conform_def execs_conform_def simp del: ptr_conforms.simps)+

interpretation cf: table_guarantee "conform_le esc" for esc
  by unfold_locales (simp_all add: conform_le_def conforms_def)

text \<open>Removing entries and adding a conforming one.\<close>

lemma set_delete: "set (AList.delete k m) = {(k', v) \<in> set m. k' \<noteq> k}"
  by (auto simp: AList.delete_eq)

lemma set_update: "set (AList.update k v m) \<subseteq> insert (k, v) (set m)"
  by (induction m) auto

lemma distinct_tables: "distinct (keys_of m) \<Longrightarrow> distinct (keys_of (AList.delete k m))" "distinct (keys_of m) \<Longrightarrow> distinct (keys_of (AList.update k v m))"
  by (simp_all add: distinct_delete distinct_update)

lemma conform_deletes:
  "processes_conform esc n ps \<Longrightarrow> processes_conform esc n (pm_Delete ps k)" "units_conform esc n us \<Longrightarrow> units_conform esc n (um_Delete us q)"
  "execs_conform esc n a es \<Longrightarrow> execs_conform esc n a (pm_Delete es j)"
  by (auto simp: processes_conform_def units_conform_def execs_conform_def pm_Delete_def um_Delete_def distinct_tables set_delete)

lemma conform_adds:
  "processes_conform esc n ps \<Longrightarrow> ptr_conforms esc n (InitP p)
     \<Longrightarrow> processes_conform esc n (snd (pm_Add ps (path_Join [c_ns (ip_conf p), c_id (ip_conf p)]) p))"
  "units_conform esc n us \<Longrightarrow> ptr_conforms esc n q \<Longrightarrow> units_conform esc n (um_Add us q)"
  "execs_conform esc n a es \<Longrightarrow> ip_addr (ep_parent e) = a \<Longrightarrow> ptr_conforms esc n (ExecP e)
     \<Longrightarrow> execs_conform esc n a (snd (pm_Add es (ep_execID e) e))"
  by (auto simp: processes_conform_def units_conform_def execs_conform_def pm_Add_def um_Add_def distinct_tables
      split: option.splits dest!: subsetD [OF set_update] simp del: ptr_conforms.simps)

subsection \<open>Relations on the tables\<close>

text \<open>
  What the handlers do besides registering a process, for every relation that allows entries to be removed, unit properties to be
  set and addresses to be taken.
\<close>

locale registry_guarantee = table_guarantee R for R :: "'w shim \<Rightarrow> 'w shim \<Rightarrow> bool" +
  assumes R_forget: "R s (s\<lparr>sh_processes := pm_Delete (sh_processes s) k\<rparr>)" "R s (s\<lparr>sh_units := um_Delete (sh_units s) q\<rparr>)"
      "R s (s\<lparr>sh_inits := (sh_inits s)(a := (sh_inits s a)\<lparr>i_execs := pm_Delete (i_execs (sh_inits s a)) j\<rparr>)\<rparr>)"
    and R_unitProps: "R s (s\<lparr>sh_inits := (sh_inits s)(a := (sh_inits s a)\<lparr>i_unitProps := props\<rparr>)\<rparr>)"
    and R_next: "R s (s\<lparr>sh_next := Suc (sh_next s)\<rparr>)"
    and R_fresh: "R s (s\<lparr>sh_inits := (sh_inits s)(sh_next s := \<lparr>i_unitProps = [], i_execs = []\<rparr>)\<rparr>)"
begin

lemma guar_tables:
  assumes x: "rely R x"
  shows "guar R (processes_Get x ns i)" "guar R (processes_Delete x ns i)" "guar R (units_Delete x q)"
    "guar R (execs_Get x p i)" "guar R (execs_Delete x p i)" "guar R (units_GetByPath x nm)" "guar R (set_unitProps x p props)"
    "guar R (unitProps x p)"
  unfolding processes_Get_def processes_Delete_def units_Delete_def execs_Get_def execs_Delete_def units_GetByPath_def
    set_unitProps_def unitProps_def
  by (rule guar_atomic [OF x]; simp add: R_refl R_forget R_unitProps)+

lemma guar_alloc: "rely R x \<Longrightarrow> guar R (alloc x pr)"
  unfolding alloc_def
proof (rule guar_atomic)
  fix s :: "'w shim"
  let ?s1 = "s\<lparr>sh_procs := (sh_procs s)(sh_next s := pr)\<rparr>"
  let ?s2 = "?s1\<lparr>sh_inits := (sh_inits s)(sh_next s := \<lparr>i_unitProps = [], i_execs = []\<rparr>)\<rparr>"
  have "R s ?s2" using R_trans [OF R_procs [OF R_refl] R_fresh [of ?s1]] by simp
  from R_trans [OF this R_next] show "R s (snd (sh_next s, s\<lparr>sh_procs := (sh_procs s)(sh_next s := pr),
      sh_inits := (sh_inits s)(sh_next s := \<lparr>i_unitProps = [], i_execs = []\<rparr>), sh_next := Suc (sh_next s)\<rparr>))" by simp
qed

lemma guar_next:
  assumes "rely R x"
  shows "guar R (atomic x (\<lambda>s. case p_ttyControl (sh_procs s a) of
      Some t \<Rightarrow> (t, s)
    | None \<Rightarrow> (sh_next s, s\<lparr>sh_procs := (sh_procs s)(a := (sh_procs s a)\<lparr>p_ttyControl := Some (sh_next s)\<rparr>),
        sh_ttys := (sh_ttys s)(sh_next s := newTTYControlClient sp), sh_next := Suc (sh_next s)\<rparr>)))"
proof (rule guar_atomic [OF assms])
  fix s :: "'w shim"
  from R_trans [OF R_ttys [OF R_procs [OF R_refl [of s], of "(sh_procs s)(a := (sh_procs s a)\<lparr>p_ttyControl := Some (sh_next s)\<rparr>)"],
      of "(sh_ttys s)(sh_next s := newTTYControlClient sp)"] R_next]
  show "R s (snd (case p_ttyControl (sh_procs s a) of
      Some t \<Rightarrow> (t, s)
    | None \<Rightarrow> (sh_next s, s\<lparr>sh_procs := (sh_procs s)(a := (sh_procs s a)\<lparr>p_ttyControl := Some (sh_next s)\<rparr>),
        sh_ttys := (sh_ttys s)(sh_next s := newTTYControlClient sp), sh_next := Suc (sh_next s)\<rparr>)))"
    by (simp add: R_refl split: option.split)
qed

lemma guar_read_string: "rely R x \<Longrightarrow> guar R (read_string x h lim k buf)"
proof (induction x h lim k buf rule: read_string.induct)
  case (1 x h lim k buf)
  show ?case
    by (subst read_string.simps) (intro table_rules "1.IH"; simp add: "1.prems")
qed

lemma guar_tty:
  assumes x: "rely R x"
  shows "guar R (ResizePTY x ctx q w h)" "guar R (init_ttySockPath x p)" "guar R (exec_ttySockPath x e)" "guar R (makePty x ctx c sp)"
proof -
  note r = table_rules guar_read_string [OF x] guar_next [OF x]
  have client: "guar R (client_op x t (\<lambda>c. tc_Resize x ctx c w h))" for t
    unfolding client_op_def tc_Resize_def tc_exchange_def tc_readMsg_def tc_reset_def tc_dial_def
    by (intro r guar_atomic; simp add: x R_refl R_ttys)
  show sock: "guar R (init_ttySockPath x p)" "guar R (exec_ttySockPath x e)" for p e
    unfolding init_ttySockPath_def exec_ttySockPath_def ttySockPath_def by (intro r; simp add: x)+
  show "guar R (makePty x ctx c sp)"
    unfolding makePty_def makePty_unit_def by (intro r; simp add: x)
  have pty: "guar R (process_ResizePTY x ctx a w h sp)" for a sp
    unfolding process_ResizePTY_def by (intro r client; simp add: x)
  show "guar R (ResizePTY x ctx q w h)"
    by (cases q; simp only: ResizePTY.simps) (intro r sock pty; simp add: x)+
qed

lemma guar_states:
  assumes x: "rely R x"
  shows "guar R (LoadState x c q)" "guar R (LoadExitState x c q)" "guar R (SetState x c q st)" "guar R (ptr_State x q)"
    "guar R (Kill x c q sig all)" "guar R (init_finishStart x c p pid)" "guar R (exec_finishStart x e pid)"
    "guar R (unit_state x c nm st)" "guar R (startTransientUnit x c conf nm m props)" "guar R (releaseUnit x c conf nm)"
    "guar R (readExitState x f)" "guar R (init_LoadState x c p)" "guar R (exec_LoadState x e)" "guar R (exec_finishDelete x e)"
    "guar R (init_Kill x c p sig all)"
proof -
  note r = table_rules table_SetState
  show u: "guar R (unit_state x c nm st)" for nm st
    unfolding unit_state_def by (intro r; simp add: x)
  show i: "guar R (init_LoadState x c p)" for p
    unfolding init_LoadState_def init_readExitState_def readExitState_def by (intro r u; simp add: x)
  show e: "guar R (exec_LoadState x e)" for e
    unfolding exec_LoadState_def exec_readExitState_def readExitState_def by (intro r; simp add: x)
  show "guar R (LoadState x c q)" by (cases q) (simp_all add: i e)
  show "guar R (SetState x c q st)" by (cases q) (simp_all add: table_SetState x)
  show "guar R (LoadExitState x c q)"
    by (cases q) (simp_all add: init_LoadExitState_def exec_LoadExitState_def, (intro r u; simp add: x)+)
  show "guar R (ptr_State x q)" by (cases q) (simp_all add: init_State_def exec_State_def, (intro r; simp add: x)+)
  show k: "guar R (init_Kill x c p sig all)" for p
    unfolding init_Kill_def by (intro r; simp add: x)
  have ke: "guar R (exec_Kill x c e sig)" for e
    unfolding exec_Kill_def by (intro r; simp add: x)
  show "guar R (Kill x c q sig all)" by (cases q) (simp_all add: k ke)
  show "guar R (init_finishStart x c p pid)" "guar R (exec_finishStart x e pid)" "guar R (exec_finishDelete x e)"
    "guar R (startTransientUnit x c conf nm m props)" "guar R (releaseUnit x c conf nm)" "guar R (readExitState x f)"
    unfolding init_finishStart_def exec_finishStart_def exec_finishDelete_def startTransientUnit_def releaseUnit_def readExitState_def
    by (intro r; simp add: x)+
qed

lemma guar_polls:
  assumes x: "rely R x"
  shows "guar R (pid_poll x c p k)" "guar R (await_pid x c p n)"
proof -
  show "guar R (pid_poll x c p k)"
  proof (induction k)
    case (Suc k)
    then show ?case unfolding pid_poll.simps by (intro table_rules guar_states table_SetState; simp add: x)
  qed (simp add: guar_return)
  show "guar R (await_pid x c p n)"
  proof (induction n)
    case (Suc n)
    then show ?case unfolding await_pid.simps by (intro table_rules guar_states table_SetState; simp add: x)
  qed (simp add: guar_return)
qed

lemma guar_Starts:
  assumes x: "rely R x"
  shows "guar R (startUnit x c p)" "guar R (init_Start x c p n)" "guar R (exec_Start x c e)"
proof -
  note r = table_rules table_SetState guar_states guar_polls guar_tty guar_tables
  have abandon: "guar R (abandonStartedUnit x c conf nm)" for conf nm
    unfolding abandonStartedUnit_def stop_and_wait_def by (intro r; simp add: x)
  have tty: "guar R m \<Longrightarrow> guar R (start_tty x c t conf m)" "guar R (kill_tty_on_error x c u ret)" for t conf u m and ret :: "'b result"
    unfolding start_tty_def kill_tty_on_error_def by (intro r; simp add: x)+
  show unit: "guar R (startUnit x c p)" for p
    unfolding startUnit_def startUnit_do_def handlePid_def by (intro r; simp add: x)
  have "guar R (restore x c p)"
    unfolding restore_def abandon_if_deleting_def by (intro r abandon tty unit; simp add: x)
  then show "guar R (init_Start x c p n)"
    unfolding init_Start_def init_Start_claimed_def runc_start_failed_def by (intro r; simp add: x)
  have "guar R (exec_launch x c e props)" "guar R (parent_started x c e)" "guar R (exec_startProperties x e)" for props
    unfolding exec_launch_def exec_readExitState_def exec_job_failed_def exec_collect_pid_def getPid_def parent_started_def exec_startProperties_def
    by (intro r; simp add: x)+
  then show "guar R (exec_Start x c e)"
    unfolding exec_Start_def exec_Start_claimed_def abandon_if_deleting_def by (intro r abandon tty; simp add: x)
qed

lemma guar_Deletes:
  assumes x: "rely R x"
  shows "guar R (exec_Delete x c e n)" "guar R (Service_Delete x c ns i ei n)"
proof -
  note r = table_rules table_SetState guar_states guar_tables table_waitForExit table_closeTTYControl table_init_Delete
  show 1: "guar R (exec_Delete x c e n)" for e
    unfolding exec_Delete_def exec_Delete_teardown_def exec_Delete_finish_def stop_and_wait_def by (intro r; simp add: x)
  show "guar R (Service_Delete x c ns i ei n)"
    unfolding Service_Delete_def release_exec_def by (intro r 1; simp add: x)
qed

lemma guar_handlers:
  assumes x: "rely R x"
  shows "guar R (Service_State x ns i e)" "guar R (Service_Pause x c ns i)" "guar R (Service_Resume x c ns i)"
    "guar R (Service_Kill x c ns i e sig all)" "guar R (Service_Pids x c ns i)" "guar R (Service_Checkpoint x c ns i oo)"
    "guar R (Service_Connect x ns i gp)" "guar R (Service_Stats x ns i)" "guar R (Service_Update x js c ns i res)"
    "guar R (Service_ResizePty x c ns i e w h)" "guar R (Service_Wait x c ns i e n)" "guar R (Service_Start x c ns i e n)"
    "guar R (enqueueIfExit x u)" "guar R (reconcileUnit x c nm)"
proof -
  note r = table_rules guar_states guar_tty guar_tables guar_Starts table_waitForExit
  have find: "guar R (find_task x ns i)" "guar R (find_process x ns i e)" "guar R m \<Longrightarrow> guar R (ok_or m)" "guar R (live_process x nm)" for m nm
    unfolding find_process_def find_task_def ok_or_def live_process_def by (intro r; simp add: x)+
  show "guar R (Service_State x ns i e)" "guar R (Service_Pause x c ns i)" "guar R (Service_Resume x c ns i)"
    "guar R (Service_Kill x c ns i e sig all)" "guar R (Service_Pids x c ns i)" "guar R (Service_Checkpoint x c ns i oo)"
    "guar R (Service_Connect x ns i gp)" "guar R (Service_Stats x ns i)" "guar R (Service_Update x js c ns i res)"
    "guar R (Service_ResizePty x c ns i e w h)"
    unfolding Service_State_def Service_Pause_def Service_Resume_def Service_Kill_def Service_Pids_def Service_Checkpoint_def
      Service_Connect_def Service_Stats_def Service_Update_def Service_ResizePty_def init_Pause_def init_Resume_def
      init_Pids_def init_Checkpoint_def init_Update_def
    by (intro r find; simp add: x)+
  show "guar R (Service_Wait x c ns i e n)" "guar R (Service_Start x c ns i e n)" "guar R (enqueueIfExit x u)" "guar R (reconcileUnit x c nm)"
    unfolding Service_Wait_def wait_load_def wait_answer_def Service_Start_def enqueueIfExit_def reconcileUnit_def
    by (intro r find; simp add: x)+
qed

lemma guar_init_Create: "rely R x \<Longrightarrow> guar R (init_Create x c p)"
  unfolding init_Create_def init_Create_body_def create_unit_def writeMountConfig_def createRestore_def restore_props_def start_tty_def kill_tty_on_error_def
  by (intro table_rules table_SetState guar_tables guar_tty guar_Starts; simp)

lemma guar_create_parts:
  assumes x: "rely R x"
  shows "guar R (create_inputs x sv r)" "guar R (create_cleanup x c ns p n)" "guar R (unregister_exec x p e)" "guar R (exec_Create x e)"
  unfolding create_inputs_def create_cleanup_def unregister_exec_def exec_Create_def
  by (intro table_rules table_SetState guar_tables table_init_Delete; simp add: x)+

end

interpretation cf: registry_guarantee "conform_le esc" for esc
proof
  fix s :: "'w shim"
  show "conform_le esc s (s\<lparr>sh_next := Suc (sh_next s)\<rparr>)"
    using tables_conform_mono [of "sh_next s" "Suc (sh_next s)" esc] by (simp add: conform_le_def conforms_def)
  show "conform_le esc s (s\<lparr>sh_inits := (sh_inits s)(sh_next s := \<lparr>i_unitProps = [], i_execs = []\<rparr>)\<rparr>)"
    by (simp add: conform_le_def conforms_def execs_conform_def)
qed (simp_all add: conform_le_def conforms_def conform_deletes)

subsection \<open>Registering a process\<close>

text \<open>
  \<open>since esc s a t\<close>: the state has moved from \<open>s\<close> to \<open>t\<close> keeping conformance, and if it conformed then the addresses up to \<open>a\<close>
  are in use.
\<close>

definition since :: "(string \<Rightarrow> string) \<Rightarrow> 'w shim \<Rightarrow> nat \<Rightarrow> 'w shim \<Rightarrow> bool" where
  "since esc s a t \<longleftrightarrow> conform_le esc s t \<and> (conforms esc s \<longrightarrow> a < sh_next t)"

lemma kept_since: "kept (conform_le esc) (since esc s a)"
  by (auto simp: kept_def since_def conform_le_def)

lemma since_step: "guar (conform_le esc) m \<Longrightarrow> since esc s a t \<Longrightarrow> (\<And>r u. since esc s a u \<Longrightarrow> Q r u) \<Longrightarrow> wp m Q t"
  by (rule kept_step [OF kept_since])

lemma conform_interfere: "rely (conform_le esc) x \<Longrightarrow> conform_le esc t (interfere x t)"
  by (simp add: rely_def interfere_def cf.R_calls)

lemma since_interfere: "rely (conform_le esc) x \<Longrightarrow> since esc s a t \<Longrightarrow> since esc s a (interfere x t)"
  using kept_since conform_interfere by (fastforce simp: kept_def)

lemma since_atomic:
  assumes "rely (conform_le esc) x" and "since esc s a t" and "\<And>u. sh_next (snd (f u)) = sh_next u"
    and "\<And>u. a < sh_next u \<Longrightarrow> conforms esc u \<Longrightarrow> conforms esc (snd (f u))"
  shows "wp (atomic x f) (\<lambda>_. since esc s a) t"
proof -
  from since_interfere [OF assms(1,2)] assms(3) [of "interfere x t"] assms(4) [of "interfere x t"]
  have "since esc s a (snd (f (interfere x t)))" by (auto simp: since_def conform_le_def)
  then show ?thesis by (auto simp: wp_simps since_def cf.R_calls split: prod.splits)
qed

lemma alloc_in_use: "wp (alloc x pr) (\<lambda>a u. a < sh_next u) t"
  unfolding alloc_def by (simp add: wp_simps)

lemma since_alloc:
  assumes x: "rely (conform_le esc) x"
  shows "conform_le esc s t \<Longrightarrow> wp (alloc x pr) (\<lambda>a. since esc s a) t"
    "since esc s b t \<Longrightarrow> wp (alloc x pr) (\<lambda>a. since esc s (max b a)) t"
proof -
  show "wp (alloc x pr) (\<lambda>a. since esc s a) t" if "conform_le esc s t"
    by (rule wp_mono [OF wp_conj [OF alloc_in_use guar_wp [THEN iffD1, OF cf.guar_alloc [OF x], rule_format]]])
      (use that cf.R_trans in \<open>auto simp: since_def\<close>)
  show "wp (alloc x pr) (\<lambda>a. since esc s (max b a)) t" if "since esc s b t"
    by (rule wp_mono [OF wp_conj [OF alloc_in_use since_step [OF cf.guar_alloc [OF x] that, where Q = "\<lambda>_. since esc s b"]]])
      (auto simp: since_def)
qed

lemma since_Get:
  assumes "rely (conform_le esc) x"
  shows "wp (processes_Get x ns i) (\<lambda>r t. conform_le esc s t \<and> (\<forall>p. r = Some p \<longrightarrow> since esc s (ip_addr p) t)) s"
  using conform_interfere [OF assms, of s]
  by (auto simp: processes_Get_def wp_simps since_def pm_Get_def conform_le_def conforms_def processes_conform_def dest!: map_of_SomeD
      simp: interfere_def)

lemma since_adds:
  assumes x: "rely (conform_le esc) x" and "since esc s b t"
  shows "c_ns (ip_conf p) = ns \<Longrightarrow> \<forall>n > b. ptr_conforms esc n (InitP p) \<Longrightarrow> wp (processes_Add x ns p) (\<lambda>_. since esc s b) t"
    "ep_parent e = p \<Longrightarrow> \<forall>n > b. ptr_conforms esc n (ExecP e) \<Longrightarrow> wp (execs_Add x p e) (\<lambda>_. since esc s b) t"
    "\<forall>n > b. ptr_conforms esc n q \<Longrightarrow> wp (units_Add x q) (\<lambda>_. since esc s b) t"
proof -
  note at = since_atomic [OF assms]
  show "wp (processes_Add x ns p) (\<lambda>_. since esc s b) t" if "c_ns (ip_conf p) = ns" "\<forall>n > b. ptr_conforms esc n (InitP p)"
    unfolding processes_Add_def using conform_adds(1) [of esc] that
    by (intro at) (auto simp: conforms_def split: prod.splits simp del: ptr_conforms.simps, metis snd_conv)
  show "wp (execs_Add x p e) (\<lambda>_. since esc s b) t" if "ep_parent e = p" "\<forall>n > b. ptr_conforms esc n (ExecP e)"
    unfolding execs_Add_def using conform_adds(3) [of esc] that
    by (intro at) (auto simp: conforms_def split: prod.splits simp del: ptr_conforms.simps, metis snd_conv)
  show "wp (units_Add x q) (\<lambda>_. since esc s b) t" if "\<forall>n > b. ptr_conforms esc n q"
    unfolding units_Add_def using conform_adds(2) [of esc] that
    by (intro at) (auto simp: conforms_def simp del: ptr_conforms.simps)
qed

lemma new_conform:
  "c_ns (ip_conf (new_init x sv ns r opts cmd spec a)) = ns"
  "ptr_conforms (e_PathBusEscape x) n (InitP (new_init x sv ns r opts cmd spec a)) \<longleftrightarrow> a < n"
  "ep_parent (new_exec x sv ns p er a) = p"
  "ptr_conforms (e_PathBusEscape x) n (ExecP (new_exec x sv ns p er a)) \<longleftrightarrow> ip_addr p < n \<and> a < n"
  by (auto simp: new_init_def new_exec_def Let_def init_Name_def exec_Name_def)

lemma since_done: "since esc s a t \<Longrightarrow> conform_le esc s t"
  by (simp add: since_def)

lemma cf_creates:
  assumes x: "rely (conform_le (e_PathBusEscape x)) x"
  shows "guar (conform_le (e_PathBusEscape x)) (Service_Create x sv c ns r n)" (is ?create)
    and "guar (conform_le (e_PathBusEscape x)) (Service_Exec x sv ns er)" (is ?exec)
proof -
  let ?R = "conform_le (e_PathBusEscape x)"
  note r = cf.table_rules cf.table_SetState cf.guar_init_Create cf.guar_create_parts
  have reg: "wp (create_registered x c ns r p n) (\<lambda>_. ?R s) t"
    if "since (e_PathBusEscape x) s b t" "\<forall>n > b. ptr_conforms (e_PathBusEscape x) n (InitP p)" for s t ns p b
    unfolding create_registered_def
    by (rule wp_bindI, rule wp_mono [OF since_adds(3) [OF x that]], rule since_step [OF _ _ since_done], intro r; simp add: x)
  have ereg: "wp (exec_registered x p e) (\<lambda>_. ?R s) t"
    if "since (e_PathBusEscape x) s b t" "\<forall>n > b. ptr_conforms (e_PathBusEscape x) n (ExecP e)" for s t p e b
    unfolding exec_registered_def
    by (rule wp_bindI, rule wp_mono [OF since_adds(3) [OF x that]], rule since_step [OF _ _ since_done], intro r; simp add: x)
  have inputs: "wp (create_inputs x sv r) (\<lambda>_. ?R s) s" for s
    using cf.guar_create_parts(1) [OF x] by (simp add: guar_wp)
  have log: "guar ?R (OpenShimLog (\<lambda>l. callE x (ShimLog l)) b)" for b
    unfolding OpenShimLog_def by (intro r; simp add: x)
  show ?create
    unfolding Service_Create_def Let_def
  proof (rule cf.guar_sum, rule cf.guar_return, rule cf.guar_bind, rule log)
    fix ns
    show "guar ?R (create_inputs x sv r \<bind> (\<lambda>inp. case inp of Inl e \<Rightarrow> return_go (Some (Inl e))
        | Inr (opts, cmd, spec) \<Rightarrow> alloc x (new_process ns (cr_Terminal r) opts) \<bind> (\<lambda>a.
            processes_Add x ns (new_init x sv ns r opts cmd spec a) \<bind> (\<lambda>e. case e of Some e \<Rightarrow> return_go (Some (Inl e))
              | None \<Rightarrow> create_registered x c ns r (new_init x sv ns r opts cmd spec a) n))))"
      unfolding guar_wp
      by (intro allI wp_sumI wp_returnI cf.R_refl wp_bindI wp_prodI wp_mono [OF inputs] since_alloc(1) [OF x, THEN wp_mono]
          since_adds(1) [OF x, THEN wp_mono] reg wp_optionI) (auto simp: new_conform intro: since_done simp del: ptr_conforms.simps)
  qed
  show ?exec
    unfolding guar_wp Service_Exec_def Let_def
    by (intro allI wp_sumI wp_returnI cf.R_refl wp_bindI wp_mono [OF since_Get [OF x]] since_alloc(2) [OF x, THEN wp_mono]
        since_adds(2) [OF x, THEN wp_mono] ereg wp_optionI) (auto simp: new_conform intro: since_done simp del: ptr_conforms.simps)
qed

subsection \<open>The service\<close>

lemma cf_service:
  assumes x: "rely (conform_le (e_PathBusEscape x)) x"
  shows "guar (conform_le (e_PathBusEscape x)) (serve_v3 (Service_TTRPC x sv js pid c ns n) r)"
    and "guar (conform_le (e_PathBusEscape x)) (taskV2Adapter (Service_TTRPC x sv js pid c ns n) r2)"
proof -
  note rules = cf.guar_answers cf_creates [OF x] cf.guar_Deletes [OF x] cf.guar_handlers [OF x] cf.guar_return
    Service_TTRPC_def Service_CloseIO_def Service_Shutdown_def
  show "guar (conform_le (e_PathBusEscape x)) (serve_v3 (Service_TTRPC x sv js pid c ns n) r)" by (cases r) (simp_all add: rules)
  show "guar (conform_le (e_PathBusEscape x)) (taskV2Adapter (Service_TTRPC x sv js pid c ns n) r2)" by (cases r2) (simp_all add: rules)
qed

lemma lookups_conform:
  assumes "conforms esc s"
  shows "pm_Get (sh_processes s) k = Some p \<Longrightarrow> path_Join [c_ns (ip_conf p), c_id (ip_conf p)] = k \<and> ip_addr p < sh_next s"
    "GetByPath (sh_units s) u = Some q \<Longrightarrow> esc (Name q) = u \<and> ptr_addr q < sh_next s"
    "pm_Get (i_execs (sh_inits s a)) i = Some e \<Longrightarrow> ep_execID e = i \<and> ip_addr (ep_parent e) = a \<and> ep_addr e < sh_next s"
proof -
  show "pm_Get (sh_processes s) k = Some p \<Longrightarrow> path_Join [c_ns (ip_conf p), c_id (ip_conf p)] = k \<and> ip_addr p < sh_next s"
    using assms by (auto simp: conforms_def processes_conform_def pm_Get_def dest!: map_of_SomeD)
  show "pm_Get (i_execs (sh_inits s a)) i = Some e \<Longrightarrow> ep_execID e = i \<and> ip_addr (ep_parent e) = a \<and> ep_addr e < sh_next s"
    using assms by (fastforce simp: conforms_def execs_conform_def pm_Get_def dest!: map_of_SomeD)
  show "GetByPath (sh_units s) u = Some q \<Longrightarrow> esc (Name q) = u \<and> ptr_addr q < sh_next s"
    using assms by (cases q) (fastforce simp: conforms_def units_conform_def GetByPath_def PathName_def dest!: map_of_SomeD)+
qed

text \<open>
  C10: the tables hold what their keys say. In a state whose tables conform, as long as no other goroutine breaks that, every request of either
  API version, in every branch of its handler, and every step of the event reactor leads to a state whose
  tables conform; and in such a state a lookup of a task finds a process of that namespace and id, a lookup by a signal's
  path the process whose unit has that name, a lookup of an exec one of that id that belongs to that very container, and
  all of them are allocated.
\<close>

theorem tables_conform:
  assumes "rely (conform_le (e_PathBusEscape x)) x" and "conforms (e_PathBusEscape x) s"
    and "s' = snd (run_state (serve_v3 (Service_TTRPC x sv js pid c ns n) r) s)
       \<or> s' = snd (run_state (taskV2Adapter (Service_TTRPC x sv js pid c ns n) r2) s)
       \<or> s' = snd (run_state (enqueueIfExit x u) s) \<or> s' = snd (run_state (reconcileUnit x c unit) s)"
  shows "conforms (e_PathBusEscape x) s'
    \<and> (\<forall>k p. pm_Get (sh_processes s') k = Some p \<longrightarrow> path_Join [c_ns (ip_conf p), c_id (ip_conf p)] = k \<and> ip_addr p < sh_next s')
    \<and> (\<forall>k q. GetByPath (sh_units s') k = Some q \<longrightarrow> e_PathBusEscape x (Name q) = k \<and> ptr_addr q < sh_next s')
    \<and> (\<forall>a i e. pm_Get (i_execs (sh_inits s' a)) i = Some e \<longrightarrow> ep_execID e = i \<and> ip_addr (ep_parent e) = a \<and> ep_addr e < sh_next s')"
proof -
  have "conform_le (e_PathBusEscape x) s s'"
    using assms(3) cf_service [OF assms(1)] cf.guar_handlers(13,14) [OF assms(1)] by (auto simp: guar_def)
  with assms(2) have "conforms (e_PathBusEscape x) s'" by (simp add: conform_le_def)
  then show ?thesis using lookups_conform [of "e_PathBusEscape x" s'] by blast
qed

text \<open>A shim with one task, and a request to delete it.\<close>

definition typed_init :: init_ptr where
  "typed_init = demo_init\<lparr>ip_conf := (blank_conf ''ns'' ''c'')\<lparr>c_pathName := init_Name demo_init\<rparr>\<rparr>"

definition typed_shim :: "unit shim" where
  "typed_shim = (demo_shim exited_process (blank_process ''ns''))\<lparr>sh_inits := (\<lambda>_. \<lparr>i_unitProps = [], i_execs = []\<rparr>),
     sh_processes := [(''ns/c'', typed_init)], sh_units := [(init_Name demo_init, InitP typed_init)]\<rparr>"

definition deleted_shim :: "unit shim" where
  "deleted_shim = snd (run_state (serve_v3 (Service_TTRPC calm_env demo_conf (\<lambda>_. Inr '''') 1 ReqCtx (Inr ''ns'') 1) (V3Delete ''c'' '''')) typed_shim)"

lemma typed_conforms: "conforms (\<lambda>n. n) typed_shim"
proof -
  have "path_Join [''ns'', ''c''] = ''ns/c''" by code_simp
  then show ?thesis
    by (simp add: typed_shim_def typed_init_def conforms_def processes_conform_def units_conform_def execs_conform_def PathName_def init_Name_def)
qed

theorem tables_conform_witness:
  "pm_Get (sh_processes typed_shim) ''ns/c'' = Some typed_init \<and> conforms (\<lambda>n. n) typed_shim \<and> conforms (\<lambda>n. n) deleted_shim"
proof -
  have esc: "e_PathBusEscape calm_env = (\<lambda>n. n)" by (simp add: calm_env_def)
  have "rely (conform_le (\<lambda>n. n)) calm_env"
    by (simp add: rely_def calm_env_def cf.R_refl)
  from tables_conform [where x = calm_env, unfolded esc, OF this typed_conforms disjI1 [OF deleted_shim_def]] typed_conforms
  show ?thesis by (simp add: typed_shim_def pm_Get_def)
qed

end
