(* ===== verification/Watch.thy ===== *)
theory Watch
  imports Reactor
begin

text \<open>
  The goroutines of the event reactor as programs (\<open>unitevents.go\<close>, \<open>unitsignals.go\<close>): \<open>runEventReactor\<close>, which keeps a connection
  to systemd, and \<open>reconcileWorker\<close>. Both run on the reactor of theory \<open>Reactor\<close>, and everything the others do shows between their
  steps. They are shown to be runs of its transition system, so that what was proved of that holds of them.
\<close>

subsection \<open>The outside of the loop\<close>

text \<open>
  What the loop does with its connection; \<open>Taken\<close> and \<open>Resynced\<close> record that it took an update off the stream
  and that it enqueued every tracked unit.
\<close>

datatype bus_call =
    Dial string "err option"
  | Auth "err option"
  | Subscribe
  | Resynced
  | Taken unitUpdate
  | CloseBus

record 'w watch =
  wa_r :: "'w reactor"
  wa_calls :: "bus_call list"

text \<open>
  \<open>b_others\<close> is what workers, timers and request handlers do between two steps; the others are the answers: the outcome of dialling
  and of authenticating, whether the context has ended, whether a sleep was cut short by its end, and the next signal, where
  \<open>None\<close> says that the stream has ended, be it closed or because \<open>watchConnection\<close> cancelled it.
\<close>

record 'w bus =
  b_others :: "'w reactor \<Rightarrow> 'w reactor"
  b_dial :: "'w reactor \<Rightarrow> err option \<times> 'w reactor"
  b_auth :: "'w reactor \<Rightarrow> err option \<times> 'w reactor"
  b_done :: "'w reactor \<Rightarrow> bool \<times> 'w reactor"
  b_sleep :: "'w reactor \<Rightarrow> bool \<times> 'w reactor"
  b_sig :: "'w reactor \<Rightarrow> dbus_signal option option \<times> 'w reactor"

type_synonym ('w, 'a) watching = "('w watch, 'a) state"

definition bus :: "('a \<Rightarrow> bus_call list) \<Rightarrow> ('w reactor \<Rightarrow> 'a \<times> 'w reactor) \<Rightarrow> ('w, 'a) watching" where
  "bus cs f = State (\<lambda>w. case f (wa_r w) of (v, r) \<Rightarrow> (v, \<lparr>wa_r = r, wa_calls = wa_calls w @ cs v\<rparr>))"

definition yield :: "'w bus \<Rightarrow> ('w, unit) watching" where
  "yield b = bus (\<lambda>_. []) (\<lambda>r. ((), b_others b r))"

subsection \<open>The informer\<close>

definition systemdPrivateBus :: string where "systemdPrivateBus = ''unix:path=/run/systemd/private''"

definition dialSystemdPrivateBus :: "'w bus \<Rightarrow> string \<Rightarrow> ('w, err option) watching" where
  "dialSystemdPrivateBus b address = do {
     e \<leftarrow> bus (\<lambda>e. [Dial address e]) (b_dial b);
     if e \<noteq> None then return_go e
     else do {
       e \<leftarrow> bus (\<lambda>e. [Auth e]) (b_auth b);
       if e \<noteq> None then do { bus (\<lambda>_. [CloseBus]) (\<lambda>r. ((), r)); return_go e }
       else return_go None } }"

definition dialSignalBus :: "'w bus \<Rightarrow> ('w, err option) watching" where
  "dialSignalBus b = dialSystemdPrivateBus b systemdPrivateBus"

text \<open>Adding units to the queue, one after the other; \<open>ra_add\<close> holds those still to be added.\<close>

fun add_units :: "'w bus \<Rightarrow> string list \<Rightarrow> ('w, unit) watching" where
  "add_units b [] = return_go ()"
| "add_units b (n # ns) = do {
     yield b;
     bus (\<lambda>_. []) (\<lambda>r. ((), r\<lparr>ra_q := wq_Add (ra_q r) n, ra_add := ns\<rparr>));
     add_units b ns }"

definition reactor_resync :: "'w bus \<Rightarrow> ('w, unit) watching" where
  "reactor_resync b = do {
     yield b;
     ns \<leftarrow> bus (\<lambda>_. []) (\<lambda>r. let ns = resync (sh_units (ra_s r)) in (ns, r\<lparr>ra_add := ns\<rparr>));
     add_units b ns;
     bus (\<lambda>_. [Resynced]) (\<lambda>r. ((), r)) }"

text \<open>
  \<open>enqueueIfExit\<close> with the call of \<open>Add\<close> at its end. \<open>ra_exits\<close> is the history the transition system keeps.
\<close>

definition take_update :: "'w bus \<Rightarrow> 'w env \<Rightarrow> unitUpdate \<Rightarrow> ('w, unit) watching" where
  "take_update b x u = do {
     ns \<leftarrow> bus (\<lambda>_. [Taken u]) (\<lambda>r. case run_state (enqueueIfExit x u) (ra_s r) of (add, s') \<Rightarrow>
       let ns = (if add then [pathBase u] else []) in
       (ns, r\<lparr>ra_s := s', ra_add := ns,
          ra_exits := (if add \<and> interfaceName u = serviceInterface \<and> has_pid s' (pathBase u)
                       then insert (pathBase u) (ra_exits r) else ra_exits r)\<rparr>));
     add_units b ns }"

text \<open>The loop over the decoded stream, one unit of fuel per signal; \<open>None\<close> is a loop that still runs.\<close>

fun consume :: "'w bus \<Rightarrow> 'w env \<Rightarrow> nat \<Rightarrow> ('w, unit option) watching" where
  "consume b x 0 = return_go None"
| "consume b x (Suc m) = do {
     sig \<leftarrow> bus (\<lambda>_. []) (b_sig b);
     case sig of
       None \<Rightarrow> return_go (Some ())
     | Some g \<Rightarrow> (case decodeSystemdPropertiesChanged g of
         None \<Rightarrow> consume b x m
       | Some u \<Rightarrow> do { take_update b x u; consume b x m }) }"

definition sleepCtx :: "'w bus \<Rightarrow> ('w, bool) watching" where
  "sleepCtx b = bus (\<lambda>_. []) (b_sleep b)"

text \<open>One connection: subscribe, recover what was missed, follow the stream, hang up.\<close>

definition follow :: "'w bus \<Rightarrow> 'w env \<Rightarrow> nat \<Rightarrow> ('w, unit option) watching" where
  "follow b x m = do {
     bus (\<lambda>_. [Subscribe]) (\<lambda>r. ((), r));
     reactor_resync b;
     k \<leftarrow> consume b x m;
     case k of
       None \<Rightarrow> return_go None
     | Some _ \<Rightarrow> do { bus (\<lambda>_. [CloseBus]) (\<lambda>r. ((), r)); return_go (Some ()) } }"

fun connect_loop :: "'w bus \<Rightarrow> 'w env \<Rightarrow> nat \<Rightarrow> nat \<Rightarrow> ('w, unit option) watching" where
  "connect_loop b x m 0 = return_go None"
| "connect_loop b x m (Suc n) = do {
     d \<leftarrow> bus (\<lambda>_. []) (b_done b);
     if d then return_go (Some ())
     else do {
       e \<leftarrow> dialSignalBus b;
       if e \<noteq> None then do {
         cancelled \<leftarrow> sleepCtx b;
         if cancelled then return_go (Some ()) else connect_loop b x m n }
       else do {
         k \<leftarrow> follow b x m;
         case k of
           None \<Rightarrow> return_go None
         | Some _ \<Rightarrow> do {
             d \<leftarrow> bus (\<lambda>_. []) (b_done b);
             if d then return_go (Some ())
             else do {
               cancelled \<leftarrow> sleepCtx b;
               if cancelled then return_go (Some ()) else connect_loop b x m n } } } } }"

text \<open>\<open>n\<close> connections with at most \<open>m\<close> signals each. The deferred \<open>stop\<close> shuts the queue down and waits for the workers.\<close>

definition runEventReactor :: "'w bus \<Rightarrow> 'w env \<Rightarrow> nat \<Rightarrow> nat \<Rightarrow> ('w, unit option) watching" where
  "runEventReactor b x m n = do {
     k \<leftarrow> connect_loop b x m n;
     case k of
       None \<Rightarrow> return_go None
     | Some _ \<Rightarrow> do {
         bus (\<lambda>_. []) (\<lambda>r. ((), r\<lparr>ra_q := wq_ShutDown (ra_q r)\<rparr>));
         yield b;
         return_go (Some ()) } }"

subsection \<open>A worker\<close>

definition eventReconcileWorkers :: nat where "eventReconcileWorkers = 8"

text \<open>
  Worker \<open>w\<close>, one unit of fuel per turn of its loop or wake-up of \<open>Get\<close>. \<open>ra_w\<close> records where it is.
\<close>

fun reconcileWorker :: "'w bus \<Rightarrow> 'w env \<Rightarrow> ctx \<Rightarrow> nat \<Rightarrow> nat \<Rightarrow> ('w, unit option) watching" where
  "reconcileWorker b x c w 0 = return_go None"
| "reconcileWorker b x c w (Suc k) = do {
     yield b;
     g \<leftarrow> bus (\<lambda>_. []) (\<lambda>r. case wq_Get (ra_q r) of (g, q') \<Rightarrow>
       (g, case g of Got n \<Rightarrow> r\<lparr>ra_q := q', ra_w := (ra_w r)(w := WGot n)\<rparr> | _ \<Rightarrow> r));
     case g of
       Shutdown \<Rightarrow> return_go (Some ())
     | Waits \<Rightarrow> reconcileWorker b x c w k
     | Got n \<Rightarrow> do {
         yield b;
         e \<leftarrow> bus (\<lambda>_. []) (\<lambda>r. case run_state (reconcileUnit x c n) (ra_s r) of (e, s') \<Rightarrow>
           (e, r\<lparr>ra_s := s', ra_w := (ra_w r)(w := WRec n e)\<rparr>));
         yield b;
         bus (\<lambda>_. []) (\<lambda>r. ((), r\<lparr>ra_q := wq_Done (ra_q r) n, ra_w := (ra_w r)(w := WDone n e)\<rparr>));
         yield b;
         bus (\<lambda>_. []) (\<lambda>r. case after_reconcile (ra_q r) n e of (q', gave) \<Rightarrow>
           ((), r\<lparr>ra_q := q', ra_w := (ra_w r)(w := WIdle), ra_gave := (if gave then insert n (ra_gave r) else ra_gave r)\<rparr>));
         reconcileWorker b x c w k } }"

subsection \<open>The connection's protocol\<close>

datatype link = Down | Dialed | Up | Listening | Synced

text \<open>One connection at a time: dialled, authenticated, subscribed, synchronised, and only then updates are taken.\<close>

fun link_step :: "link \<Rightarrow> bus_call \<Rightarrow> link option" where
  "link_step Down (Dial _ None) = Some Dialed"
| "link_step Down (Dial _ (Some _)) = Some Down"
| "link_step Dialed (Auth None) = Some Up"
| "link_step Dialed (Auth (Some _)) = Some Dialed"
| "link_step Up Subscribe = Some Listening"
| "link_step Listening Resynced = Some Synced"
| "link_step Synced (Taken _) = Some Synced"
| "link_step Dialed CloseBus = Some Down"
| "link_step Synced CloseBus = Some Down"
| "link_step _ _ = None"

fun link_run :: "link \<Rightarrow> bus_call list \<Rightarrow> link option" where
  "link_run l [] = Some l"
| "link_run l (k # ks) = (case link_step l k of None \<Rightarrow> None | Some l' \<Rightarrow> link_run l' ks)"

lemma link_run_append: "link_run l (ks @ ks') = (case link_run l ks of None \<Rightarrow> None | Some l' \<Rightarrow> link_run l' ks')"
  by (induction l ks rule: link_run.induct) (simp_all split: option.splits)

lemma link_answers:
  "link_run Down [Dial a e] = Some (if e = None then Dialed else Down)" "link_run Dialed [Auth e] = Some (if e = None then Up else Dialed)"
  by (cases e; simp)+

subsection \<open>The programs are runs of the transition system\<close>

text \<open>
  \<open>moves own r r'\<close>: the reactor gets from \<open>r\<close> to \<open>r'\<close> by steps of its transition system, and the part \<open>own\<close> of it is as before.
  \<open>bus_rely own b\<close>: between two steps of a goroutine that owns that part, this is all that happens.
\<close>

definition moves :: "'w env \<Rightarrow> ctx \<Rightarrow> ('w shim \<Rightarrow> 'w shim \<Rightarrow> bool) \<Rightarrow> ('w reactor \<Rightarrow> 'o) \<Rightarrow> 'w reactor \<Rightarrow> 'w reactor \<Rightarrow> bool" where
  "moves x c R own r r' \<longleftrightarrow> reactor_reach x c R r r' \<and> own r' = own r"

definition bus_rely :: "'w env \<Rightarrow> ctx \<Rightarrow> ('w shim \<Rightarrow> 'w shim \<Rightarrow> bool) \<Rightarrow> ('w reactor \<Rightarrow> 'o) \<Rightarrow> 'w bus \<Rightarrow> bool" where
  "bus_rely x c R own b \<longleftrightarrow> (\<forall>r. moves x c R own r (b_others b r) \<and> moves x c R own r (snd (b_dial b r))
     \<and> moves x c R own r (snd (b_auth b r)) \<and> moves x c R own r (snd (b_done b r)) \<and> moves x c R own r (snd (b_sleep b r))
     \<and> moves x c R own r (snd (b_sig b r)))"

lemma reactor_reach_trans: "reactor_reach x c R r0 r \<Longrightarrow> reactor_reach x c R r r' \<Longrightarrow> reactor_reach x c R r0 r'"
  by (rotate_tac, induction rule: reactor_reach.induct) (auto intro: reach_step)

lemma moves_refl: "moves x c R own r r"
  by (simp add: moves_def reach_refl)

lemma reach_shutdown: "reactor_reach x c R r r' \<Longrightarrow> wq_shutdown (ra_q r) \<Longrightarrow> wq_shutdown (ra_q r')"
proof (induction rule: reactor_reach.induct)
  case (reach_step r r')
  from reach_step.hyps(2) reach_step.IH [OF reach_step.prems] show ?case
    by cases (auto simp: wq_defs after_reconcile_def split: if_splits list.splits option.splits prod.splits)
qed

text \<open>
  \<open>loop_at r0 l own v w\<close>: a goroutine that started at \<open>r0\<close> has come along the transition system, its connection is in state \<open>l\<close>, and its
  own part of the reactor is \<open>v\<close>.
\<close>

definition loop_at ::
  "'w env \<Rightarrow> ctx \<Rightarrow> ('w shim \<Rightarrow> 'w shim \<Rightarrow> bool) \<Rightarrow> 'w reactor \<Rightarrow> ('w reactor \<Rightarrow> 'o) \<Rightarrow> link \<Rightarrow> 'o \<Rightarrow> 'w watch \<Rightarrow> bool" where
  "loop_at x c R r0 own l v w \<longleftrightarrow> reactor_reach x c R r0 (wa_r w) \<and> link_run Down (wa_calls w) = Some l \<and> own (wa_r w) = v"

lemma wp_bus [wp_simps]:
  "wp (bus cs f) Q w \<longleftrightarrow> (case f (wa_r w) of (v, r) \<Rightarrow> Q v \<lparr>wa_r = r, wa_calls = wa_calls w @ cs v\<rparr>)"
  by (simp add: bus_def wp_def split: prod.splits)

lemma bus_outside:
  assumes "loop_at x c R r0 own l v w" and "moves x c R own (wa_r w) (snd (f (wa_r w)))" and "\<And>a. link_run l (cs a) = Some (l' a)"
    and "\<And>a w'. loop_at x c R r0 own (l' a) v w' \<Longrightarrow> Q a w'"
  shows "wp (bus cs f) Q w"
  using assms(1-3) by (auto simp: wp_simps moves_def loop_at_def link_run_append intro!: assms(4) split: prod.splits
      intro: reactor_reach_trans)

lemma bus_own:
  assumes "loop_at x c R r0 own l v w" and "reactor_step x c R (wa_r w) (snd (f (wa_r w)))"
    and "link_run l (cs (fst (f (wa_r w)))) = Some l'" and "own (snd (f (wa_r w))) = v'"
    and "\<And>w'. loop_at x c R r0 own l' v' w' \<Longrightarrow> wa_r w' = snd (f (wa_r w)) \<Longrightarrow> Q (fst (f (wa_r w))) w'"
  shows "wp (bus cs f) Q w"
proof -
  obtain a r where f: "f (wa_r w) = (a, r)" by fastforce
  with assms(1-4) have "loop_at x c R r0 own l' v' \<lparr>wa_r = r, wa_calls = wa_calls w @ cs a\<rparr>"
    by (auto simp: loop_at_def link_run_append intro: reach_step)
  with assms(5) [OF this] f show ?thesis by (simp add: wp_simps)
qed

lemma bus_log:
  assumes "loop_at x c R r0 own l v w" and "link_run l (cs ()) = Some l'" and "\<And>w'. loop_at x c R r0 own l' v w' \<Longrightarrow> Q () w'"
  shows "wp (bus cs (\<lambda>r. ((), r))) Q w"
  by (rule bus_outside [OF assms(1), where l' = "\<lambda>_. l'"]) (simp_all add: moves_refl assms)

lemma yield_step:
  assumes "bus_rely x c R own b" and "loop_at x c R r0 own l v w" and "\<And>w'. loop_at x c R r0 own l v w' \<Longrightarrow> Q () w'"
  shows "wp (yield b) Q w"
  unfolding yield_def by (rule bus_outside [OF assms(2)]) (use assms(1,3) in \<open>auto simp: bus_rely_def\<close>)

subsection \<open>The informer\<close>

lemma add_units_at:
  assumes b: "bus_rely x c R ra_add b"
  shows "loop_at x c R r0 ra_add l ns w \<Longrightarrow> wp (add_units b ns) (\<lambda>_. loop_at x c R r0 ra_add l []) w"
proof (induction ns arbitrary: w)
  case (Cons n ns)
  show ?case
    unfolding add_units.simps
  proof (rule wp_bindI, rule yield_step [OF b Cons.prems], rule wp_bindI)
    fix w'
    assume w': "loop_at x c R r0 ra_add l (n # ns) w'"
    then have "ra_add (wa_r w') = n # ns" by (simp add: loop_at_def)
    from reactor_step.enqueue [OF this] show "wp (bus (\<lambda>_. []) (\<lambda>r. ((), r\<lparr>ra_q := wq_Add (ra_q r) n, ra_add := ns\<rparr>)))
        (\<lambda>_. wp (add_units b ns) (\<lambda>_. loop_at x c R r0 ra_add l [])) w'"
      by (intro bus_own [OF w', where l' = l and v' = ns] Cons.IH) simp_all
  qed
qed (simp add: wp_simps)

lemma resync_at:
  assumes b: "bus_rely x c R ra_add b" and w: "loop_at x c R r0 ra_add Listening [] w"
  shows "wp (reactor_resync b) (\<lambda>_. loop_at x c R r0 ra_add Synced []) w"
  unfolding reactor_resync_def
proof (rule wp_bindI, rule yield_step [OF b w], rule wp_bindI)
  fix w'
  assume w': "loop_at x c R r0 ra_add Listening [] w'"
  let ?ns = "resync (sh_units (ra_s (wa_r w')))"
  from w' have "ra_add (wa_r w') = []" by (simp add: loop_at_def)
  from reactor_step.reconnect [OF this]
  show "wp (bus (\<lambda>_. []) (\<lambda>r. let ns = resync (sh_units (ra_s r)) in (ns, r\<lparr>ra_add := ns\<rparr>)))
      (\<lambda>ns. wp (add_units b ns \<bind> (\<lambda>_. bus (\<lambda>_. [Resynced]) (\<lambda>r. ((), r)))) (\<lambda>_. loop_at x c R r0 ra_add Synced [])) w'"
    by (intro bus_own [OF w', where l' = Listening and v' = ?ns])
      (auto simp: Let_def intro!: wp_bindI wp_mono [OF add_units_at [OF b]] bus_log [where l' = Synced])
qed

lemma take_at:
  assumes b: "bus_rely x c R ra_add b" and w: "loop_at x c R r0 ra_add Synced [] w"
  shows "wp (take_update b x u) (\<lambda>_. loop_at x c R r0 ra_add Synced []) w"
  unfolding take_update_def
proof (rule wp_bindI)
  obtain add s' where run: "run_state (enqueueIfExit x u) (ra_s (wa_r w)) = (add, s')" by fastforce
  from w have "ra_add (wa_r w) = []" by (simp add: loop_at_def)
  from reactor_step.signal [OF this run]
  show "wp (bus (\<lambda>_. [Taken u]) (\<lambda>r. case run_state (enqueueIfExit x u) (ra_s r) of (add, s') \<Rightarrow>
       let ns = (if add then [pathBase u] else []) in
       (ns, r\<lparr>ra_s := s', ra_add := ns,
          ra_exits := (if add \<and> interfaceName u = serviceInterface \<and> has_pid s' (pathBase u)
                       then insert (pathBase u) (ra_exits r) else ra_exits r)\<rparr>)))
      (\<lambda>ns. wp (add_units b ns) (\<lambda>_. loop_at x c R r0 ra_add Synced [])) w"
    by (intro bus_own [OF w, where l' = Synced and v' = "if add then [pathBase u] else []"])
      (simp_all add: run Let_def add_units_at [OF b])
qed

lemma consume_at:
  assumes b: "bus_rely x c R ra_add b"
  shows "loop_at x c R r0 ra_add Synced [] w \<Longrightarrow> wp (consume b x m) (\<lambda>_. loop_at x c R r0 ra_add Synced []) w"
proof (induction m arbitrary: w)
  case (Suc m)
  from b have sig: "moves x c R ra_add (wa_r w) (snd (b_sig b (wa_r w)))" by (simp add: bus_rely_def)
  show ?case
    unfolding consume.simps
    by (rule wp_bindI, rule bus_outside [where f = "b_sig b" and l' = "\<lambda>_. Synced", OF Suc.prems sig])
      (auto intro!: wp_intros Suc.IH wp_mono [OF take_at [OF b]])
qed (simp add: wp_simps)


lemma dial_at:
  assumes b: "bus_rely x c R ra_add b" and w: "loop_at x c R r0 ra_add Down [] w"
  shows "wp (dialSignalBus b) (\<lambda>e. loop_at x c R r0 ra_add (if e = None then Up else Down) []) w"
  unfolding dialSignalBus_def dialSystemdPrivateBus_def
proof (rule wp_bindI)
  have auth: "wp (do { e \<leftarrow> bus (\<lambda>e. [Auth e]) (b_auth b);
       if e \<noteq> None then do { bus (\<lambda>_. [CloseBus]) (\<lambda>r. ((), r)); return_go e } else return_go None })
      (\<lambda>e. loop_at x c R r0 ra_add (if e = None then Up else Down) []) w'" if "loop_at x c R r0 ra_add Dialed [] w'" for w'
    by (rule wp_bindI, rule bus_outside [where f = "b_auth b" and l' = "\<lambda>e. if e = None then Up else Dialed", OF that])
      (use b in \<open>auto simp: bus_rely_def link_answers intro!: wp_intros bus_log simp del: link_run.simps, simp\<close>)
  show "wp (bus (\<lambda>e. [Dial systemdPrivateBus e]) (b_dial b)) (\<lambda>e. wp (if e \<noteq> None then return_go e
       else do { e \<leftarrow> bus (\<lambda>e. [Auth e]) (b_auth b);
         if e \<noteq> None then do { bus (\<lambda>_. [CloseBus]) (\<lambda>r. ((), r)); return_go e } else return_go None })
      (\<lambda>e. loop_at x c R r0 ra_add (if e = None then Up else Down) [])) w"
    by (rule bus_outside [where f = "b_dial b" and l' = "\<lambda>e. if e = None then Dialed else Down", OF w])
      (use b in \<open>auto simp: bus_rely_def link_answers intro!: wp_ifI wp_returnI auth [simplified] simp del: link_run.simps\<close>)
qed

lemma follow_at:
  assumes b: "bus_rely x c R ra_add b" and w: "loop_at x c R r0 ra_add Up [] w"
  shows "wp (follow b x m) (\<lambda>k. loop_at x c R r0 ra_add (if k = None then Synced else Down) []) w"
  unfolding follow_def
  by (rule wp_bindI, rule bus_log [OF w, where l' = Listening])
    (auto intro!: wp_bindI wp_mono [OF resync_at [OF b]] wp_mono [OF consume_at [OF b]] wp_optionI wp_returnI bus_log [where l' = Down])

lemma ask_at:
  assumes "loop_at x c R r0 ra_add Down [] w" and "bus_rely x c R ra_add b" and "f = b_done b \<or> f = b_sleep b"
    and "\<And>d w'. loop_at x c R r0 ra_add Down [] w' \<Longrightarrow> Q d w'"
  shows "wp (bus (\<lambda>_. []) f) Q w"
  by (rule bus_outside [OF assms(1), where l' = "\<lambda>_. Down"]) (use assms(2-4) in \<open>auto simp: bus_rely_def\<close>)

lemma connect_at:
  assumes b: "bus_rely x c R ra_add b"
  shows "loop_at x c R r0 ra_add Down [] w \<Longrightarrow>
     wp (connect_loop b x m n) (\<lambda>k w'. \<exists>l. loop_at x c R r0 ra_add l [] w' \<and> (k = Some () \<longrightarrow> l = Down)) w"
proof (induction n arbitrary: w)
  case (Suc n)
  note ask = ask_at [OF _ b]
  have again: "wp (do { cancelled \<leftarrow> sleepCtx b; if cancelled then return_go (Some ()) else connect_loop b x m n })
      (\<lambda>k w'. \<exists>l. loop_at x c R r0 ra_add l [] w' \<and> (k = Some () \<longrightarrow> l = Down)) w'" if "loop_at x c R r0 ra_add Down [] w'" for w'
    unfolding sleepCtx_def by (rule wp_bindI, rule ask [OF that]) (auto intro!: wp_ifI wp_returnI Suc.IH)
  have more: "wp (do { k \<leftarrow> follow b x m; case k of None \<Rightarrow> return_go None
         | Some _ \<Rightarrow> do { d \<leftarrow> bus (\<lambda>_. []) (b_done b); if d then return_go (Some ())
             else do { cancelled \<leftarrow> sleepCtx b; if cancelled then return_go (Some ()) else connect_loop b x m n } } })
      (\<lambda>k w'. \<exists>l. loop_at x c R r0 ra_add l [] w' \<and> (k = Some () \<longrightarrow> l = Down)) w'" if "loop_at x c R r0 ra_add Up [] w'" for w'
    by (rule wp_bindI, rule wp_mono [OF follow_at [OF b that]], rule wp_optionI)
      (auto intro!: wp_returnI wp_bindI wp_ifI ask [where f = "b_done b"] again)
  show ?case
    unfolding connect_loop.simps
    by (rule wp_bindI, rule ask [OF Suc.prems], simp, rule wp_ifI)
      (auto intro!: wp_returnI wp_bindI [where m = "dialSignalBus b"] wp_mono [OF dial_at [OF b]] wp_ifI again more split: if_splits)
qed (auto simp: wp_simps)

text \<open>The worker, step by step.\<close>

lemma watch_eta [simp]: "\<lparr>wa_r = wa_r w, wa_calls = wa_calls w\<rparr> = w"
  by simp

lemma worker_get:
  assumes w: "loop_at x c R r0 (\<lambda>r. ra_w r i) l WIdle w" and "Q Waits w"
    and "wq_queue (ra_q (wa_r w)) = [] \<Longrightarrow> wq_shutdown (ra_q (wa_r w)) \<Longrightarrow> Q Shutdown w"
    and "\<And>n w'. loop_at x c R r0 (\<lambda>r. ra_w r i) l (WGot n) w' \<Longrightarrow> Q (Got n) w'"
  shows "wp (bus (\<lambda>_. []) (\<lambda>r. case wq_Get (ra_q r) of (g, q') \<Rightarrow>
       (g, case g of Got n \<Rightarrow> r\<lparr>ra_q := q', ra_w := (ra_w r)(i := WGot n)\<rparr> | _ \<Rightarrow> r))) Q w"
proof (cases "fst (wq_Get (ra_q (wa_r w)))")
  case (Got n)
  then obtain q' where g: "wq_Get (ra_q (wa_r w)) = (Got n, q')" by (metis prod.collapse)
  from w have "ra_w (wa_r w) i = WIdle" by (simp add: loop_at_def)
  from reactor_step.get [OF this g] show ?thesis
    by (intro bus_own [OF w, where l' = l and v' = "WGot n"]) (simp_all add: g assms(4))
qed (use assms(2,3) in \<open>auto simp: wp_simps wq_Get_def split: list.splits if_splits prod.splits\<close>)

lemma worker_reconcile:
  assumes w: "loop_at x c R r0 (\<lambda>r. ra_w r i) l (WGot n) w" and "\<And>e w'. loop_at x c R r0 (\<lambda>r. ra_w r i) l (WRec n e) w' \<Longrightarrow> Q e w'"
  shows "wp (bus (\<lambda>_. []) (\<lambda>r. case run_state (reconcileUnit x c n) (ra_s r) of (e, s') \<Rightarrow>
           (e, r\<lparr>ra_s := s', ra_w := (ra_w r)(i := WRec n e)\<rparr>))) Q w"
proof -
  obtain e s' where run: "run_state (reconcileUnit x c n) (ra_s (wa_r w)) = (e, s')" by fastforce
  from w have "ra_w (wa_r w) i = WGot n" by (simp add: loop_at_def)
  from reactor_step.reconcile [OF this run] show ?thesis
    by (intro bus_own [OF w, where l' = l and v' = "WRec n e"]) (simp_all add: run assms(2))
qed

lemma worker_finish:
  assumes w: "loop_at x c R r0 (\<lambda>r. ra_w r i) l (WRec n e) w" and "\<And>w'. loop_at x c R r0 (\<lambda>r. ra_w r i) l (WDone n e) w' \<Longrightarrow> Q () w'"
  shows "wp (bus (\<lambda>_. []) (\<lambda>r. ((), r\<lparr>ra_q := wq_Done (ra_q r) n, ra_w := (ra_w r)(i := WDone n e)\<rparr>))) Q w"
proof -
  from w have "ra_w (wa_r w) i = WRec n e" by (simp add: loop_at_def)
  from reactor_step.finish [OF this] show ?thesis
    by (intro bus_own [OF w, where l' = l and v' = "WDone n e"]) (simp_all add: assms(2))
qed

lemma worker_settle:
  assumes w: "loop_at x c R r0 (\<lambda>r. ra_w r i) l (WDone n e) w" and "\<And>w'. loop_at x c R r0 (\<lambda>r. ra_w r i) l WIdle w' \<Longrightarrow> Q () w'"
  shows "wp (bus (\<lambda>_. []) (\<lambda>r. case after_reconcile (ra_q r) n e of (q', gave) \<Rightarrow>
           ((), r\<lparr>ra_q := q', ra_w := (ra_w r)(i := WIdle), ra_gave := (if gave then insert n (ra_gave r) else ra_gave r)\<rparr>))) Q w"
proof -
  obtain q' gave where a: "after_reconcile (ra_q (wa_r w)) n e = (q', gave)" by fastforce
  from w have "ra_w (wa_r w) i = WDone n e" by (simp add: loop_at_def)
  from reactor_step.settle [OF this a] show ?thesis
    by (intro bus_own [OF w, where l' = l and v' = WIdle]) (simp_all add: a assms(2))
qed

lemma worker_at:
  assumes b: "bus_rely x c R (\<lambda>r. ra_w r i) b"
  shows "loop_at x c R r0 (\<lambda>r. ra_w r i) l WIdle w \<Longrightarrow>
     wp (reconcileWorker b x c i k) (\<lambda>ret w'. reactor_reach x c R r0 (wa_r w')
        \<and> (ret = Some () \<longrightarrow> wq_shutdown (ra_q (wa_r w')) \<and> wq_queue (ra_q (wa_r w')) = [])) w"
proof (induction k arbitrary: w)
  case (Suc k)
  note yield = yield_step [OF b]
  show ?case
    unfolding reconcileWorker.simps
  proof (rule wp_bindI, rule yield [OF Suc.prems], rule wp_bindI, rule worker_get, assumption)
    fix n and w' :: "'a watch"
    assume "loop_at x c R r0 (\<lambda>r. ra_w r i) l (WGot n) w'"
    then show "wp (case Got n of Waits \<Rightarrow> reconcileWorker b x c i k | Shutdown \<Rightarrow> return_go (Some ())
       | Got n \<Rightarrow> do {
         yield b;
         e \<leftarrow> bus (\<lambda>_. []) (\<lambda>r. case run_state (reconcileUnit x c n) (ra_s r) of (e, s') \<Rightarrow>
           (e, r\<lparr>ra_s := s', ra_w := (ra_w r)(i := WRec n e)\<rparr>));
         yield b;
         bus (\<lambda>_. []) (\<lambda>r. ((), r\<lparr>ra_q := wq_Done (ra_q r) n, ra_w := (ra_w r)(i := WDone n e)\<rparr>));
         yield b;
         bus (\<lambda>_. []) (\<lambda>r. case after_reconcile (ra_q r) n e of (q', gave) \<Rightarrow>
           ((), r\<lparr>ra_q := q', ra_w := (ra_w r)(i := WIdle), ra_gave := (if gave then insert n (ra_gave r) else ra_gave r)\<rparr>));
         reconcileWorker b x c i k })
      (\<lambda>ret w'. reactor_reach x c R r0 (wa_r w') \<and> (ret = Some () \<longrightarrow> wq_shutdown (ra_q (wa_r w')) \<and> wq_queue (ra_q (wa_r w')) = [])) w'"
      unfolding get_result.case
      by - (rule wp_bindI, rule yield, assumption, rule wp_bindI, rule worker_reconcile, assumption, rule wp_bindI, rule yield, assumption,
        rule wp_bindI, rule worker_finish, assumption, rule wp_bindI, rule yield, assumption, rule wp_bindI, rule worker_settle, assumption,
        rule Suc.IH)
  qed (simp_all add: Suc.IH wp_simps loop_at_def)
qed (simp add: wp_simps loop_at_def)

lemma shut_down: "wq_shutdown (wq_ShutDown q)"
  by (simp add: wq_ShutDown_def)

lemma run_at:
  assumes b: "bus_rely x c R ra_add b" and w: "loop_at x c R r0 ra_add Down [] w"
  shows "wp (runEventReactor b x m n) (\<lambda>k w'. \<exists>l. loop_at x c R r0 ra_add l [] w'
     \<and> (k = Some () \<longrightarrow> l = Down \<and> wq_shutdown (ra_q (wa_r w')))) w"
  unfolding runEventReactor_def
proof (rule wp_bindI, rule wp_mono [OF connect_at [OF b w]], rule wp_optionI)
  fix k :: "unit option" and w' :: "'a watch" and u
  assume "\<exists>l. loop_at x c R r0 ra_add l [] w' \<and> (k = Some () \<longrightarrow> l = Down)" and "k = Some u"
  then have w': "loop_at x c R r0 ra_add Down [] w'" by auto
  have stop: "wp (bus (\<lambda>_. []) (\<lambda>r. ((), r\<lparr>ra_q := wq_ShutDown (ra_q r)\<rparr>)))
      (\<lambda>_ v. loop_at x c R r0 ra_add Down [] v \<and> wq_shutdown (ra_q (wa_r v))) w'"
    by (rule bus_own [OF w', where l' = Down and v' = "[]"])
      (use w' in \<open>auto simp: loop_at_def shut_down intro: reactor_step.stop\<close>)
  have wait: "wp (yield b) (\<lambda>_ v'. loop_at x c R r0 ra_add Down [] v' \<and> wq_shutdown (ra_q (wa_r v'))) v"
    if "loop_at x c R r0 ra_add Down [] v \<and> wq_shutdown (ra_q (wa_r v))" for v
  proof (rule wp_conj)
    show "wp (yield b) (\<lambda>_. loop_at x c R r0 ra_add Down []) v" by (rule yield_step [OF b]) (use that in auto)
    show "wp (yield b) (\<lambda>_ v'. wq_shutdown (ra_q (wa_r v'))) v"
      using b that reach_shutdown by (fastforce simp: yield_def wp_simps bus_rely_def moves_def)
  qed
  show "wp (do { bus (\<lambda>_. []) (\<lambda>r. ((), r\<lparr>ra_q := wq_ShutDown (ra_q r)\<rparr>)); yield b; return_go (Some ()) })
      (\<lambda>k w'. \<exists>l. loop_at x c R r0 ra_add l [] w' \<and> (k = Some () \<longrightarrow> l = Down \<and> wq_shutdown (ra_q (wa_r w')))) w'"
    by (rule wp_bindI, rule wp_mono [OF stop], rule wp_bindI, rule wp_mono [OF wait]) (auto intro: wp_returnI)
qed (auto intro!: wp_returnI)

text \<open>
  C12: the reactor's goroutines do what its transition system says. Whatever the others do meanwhile, as long as it is steps of that system
  and leaves alone what belongs to the goroutine: every run of \<open>runEventReactor\<close>, ended or not, is a run of the system;
  its connections are dialled one at a time, subscribed to before the resync and resynced before the first update is taken, and when it has
  returned, no connection is open and the queue is shut down. Every run of a worker is a run of the system, and one that has
  returned left a queue that is shut down and empty.
\<close>

theorem reactor_code_refines:
  assumes "bus_rely x c R ra_add b" and "bus_rely x c R (\<lambda>r. ra_w r i) b'" and "ra_w r i = WIdle" and "ra_add r = []"
    and "run_state (runEventReactor b x m n) \<lparr>wa_r = r, wa_calls = []\<rparr> = (ret, w)"
    and "run_state (reconcileWorker b' x c i k) \<lparr>wa_r = r, wa_calls = []\<rparr> = (ret', w')"
  shows "reactor_reach x c R r (wa_r w) \<and> (\<exists>l. link_run Down (wa_calls w) = Some l \<and> (ret = Some () \<longrightarrow> l = Down \<and> wq_shutdown (ra_q (wa_r w))))
    \<and> reactor_reach x c R r (wa_r w') \<and> (ret' = Some () \<longrightarrow> wq_shutdown (ra_q (wa_r w')) \<and> wq_queue (ra_q (wa_r w')) = [])"
proof -
  have "loop_at x c R r ra_add Down [] \<lparr>wa_r = r, wa_calls = []\<rparr>" "loop_at x c R r (\<lambda>r. ra_w r i) Down WIdle \<lparr>wa_r = r, wa_calls = []\<rparr>"
    using assms(3,4) by (simp_all add: loop_at_def reach_refl)
  from wpD [OF run_at [OF assms(1) this(1)] assms(5)] wpD [OF worker_at [OF assms(2) this(2)] assms(6)]
  show ?thesis by (auto simp: loop_at_def)
qed


text \<open>A bus that delivers one exit signal, after which the context ends.\<close>

definition demo_bus :: "unit bus" where
  "demo_bus = \<lparr>b_others = (\<lambda>r. r), b_dial = (\<lambda>r. (None, r)), b_auth = (\<lambda>r. (None, r)), b_done = (\<lambda>r. (ra_exits r \<noteq> {}, r)),
     b_sleep = (\<lambda>r. (False, r)),
     b_sig = (\<lambda>r. (if ra_exits r = {} then Some (Some \<lparr>sig_Name = propertiesChangedSignal, sig_Path = ''/unit/u_e'',
        sig_Body = [BValue (VStr serviceInterface), BProps (changed exit_signal)]\<rparr>) else None, r))\<rparr>"

definition demo_watch :: "unit option \<times> unit watch" where
  "demo_watch = run_state (runEventReactor demo_bus calm_env 2 2) \<lparr>wa_r = newEventReactor demo_running, wa_calls = []\<rparr>"

definition demo_worker :: "unit option \<times> unit watch" where
  "demo_worker = run_state (reconcileWorker demo_bus calm_env ReqCtx 0 1) \<lparr>wa_r = newEventReactor demo_running, wa_calls = []\<rparr>"

lemma demo_bus_rely: "bus_rely x c R own demo_bus"
  by (simp add: bus_rely_def demo_bus_def moves_refl)

lemma demo_watch_calls:
  "fst demo_watch = Some () \<and> wa_calls (snd demo_watch) = [Dial systemdPrivateBus None, Auth None, Subscribe, Resynced, Taken exit_signal, CloseBus]"
  by code_simp

theorem reactor_code_refines_witness:
  "reactor_reach calm_env ReqCtx (=) (newEventReactor demo_running) (wa_r (snd demo_watch)) \<and> wq_shutdown (ra_q (wa_r (snd demo_watch)))
   \<and> reactor_reach calm_env ReqCtx (=) (newEventReactor demo_running) (wa_r (snd demo_worker))"
proof -
  have r: "ra_w (newEventReactor demo_running) 0 = WIdle" "ra_add (newEventReactor demo_running) = []" by (simp_all add: newEventReactor_def)
  have "demo_watch = (Some (), snd demo_watch)" using demo_watch_calls by (metis prod.collapse)
  from reactor_code_refines [OF demo_bus_rely demo_bus_rely r this [unfolded demo_watch_def]
      prod.collapse [of demo_worker, unfolded demo_worker_def, symmetric], where R = "(=)"]
  show ?thesis by (auto simp: demo_watch_def demo_worker_def)
qed

end
