(* ===== verification/Machine.thy ===== *)
theory Machine
  imports Shim_Prelude
begin

text \<open>
  Transition systems with executable steps: an action either has an effect on the state or is not enabled. Their runs, invariants of the states they
  reach and ranks that count the steps still to come.
\<close>

fun run_acts :: "('a \<Rightarrow> 's \<Rightarrow> 's option) \<Rightarrow> 'a list \<Rightarrow> 's \<Rightarrow> 's option" where
  "run_acts step [] s = Some s"
| "run_acts step (a # acts) s = Option.bind (step a s) (run_acts step acts)"

lemma run_acts_append: "run_acts step (as @ bs) s = Option.bind (run_acts step as s) (run_acts step bs)"
  by (induction as arbitrary: s) (simp_all split: Option.bind_split)

locale machine =
  fixes step :: "'a \<Rightarrow> 's \<Rightarrow> 's option" and inv :: "'s \<Rightarrow> bool"
  assumes inv_step: "inv s \<Longrightarrow> step a s = Some s' \<Longrightarrow> inv s'"
begin

lemma inv_run: "inv s \<Longrightarrow> run_acts step acts s = Some s' \<Longrightarrow> inv s'"
  by (induction acts arbitrary: s) (auto simp: bind_eq_Some_conv intro: inv_step)

end

text \<open>With a rank that every step lowers by one, a run has as many steps as the rank went down, so none is longer than the rank.\<close>

locale ranked_machine = machine +
  fixes rank :: "'b \<Rightarrow> nat"
  assumes rank_step: "inv s \<Longrightarrow> step a s = Some s' \<Longrightarrow> Suc (rank s') = rank s"
begin

lemma rank_run: "inv s \<Longrightarrow> run_acts step acts s = Some s' \<Longrightarrow> length acts + rank s' = rank s"
proof (induction acts arbitrary: s)
  case (Cons a acts)
  then obtain s1 where "step a s = Some s1" "run_acts step acts s1 = Some s'" by (auto simp: bind_eq_Some_conv)
  with Cons.IH [of s1] Cons.prems(1) inv_step [of s a s1] rank_step [of s a s1] show ?case by simp
qed simp

end

end
