(* ===== verification/Shutdown.thy ===== *)
theory Shutdown
  imports Outbox Machine
begin

text \<open>
  The end of the service (\<open>serve\<close> in \<open>main.go\<close>, \<open>Service.Close\<close> in \<open>manager.go\<close>): the goroutines that send task events, the one that
  forwards them to containerd (\<open>Service.Forward\<close> in \<open>events.go\<close>) and the one that shuts the service down, in any interleaving.
\<close>

subsection \<open>States and steps\<close>

text \<open>Where \<open>serve\<close> is: waiting for its context, past \<open>svc.Close()\<close>, inside \<open>shm.Close()\<close> after it closed the channel, returned.\<close>

datatype serve_pc = Serving | Stopping | Draining | Stopped

text \<open>
  \<open>pl_events\<close> is the buffered channel, \<open>pl_hand\<close> the envelope \<open>Forward\<close> has received and not yet published, \<open>pl_pub\<close> the publisher and
  \<open>pl_waitEvents\<close> whether that channel is closed. \<open>pl_panic\<close>: a goroutine has panicked, which ends the process.
  \<open>pl_accepted\<close> is the history of what the channel accepted.
\<close>

record 'p pipeline =
  pl_pc :: serve_pc
  pl_events :: "envelope list"
  pl_closed :: bool
  pl_forwarding :: bool
  pl_hand :: "envelope option"
  pl_pub :: 'p
  pl_pubClosed :: bool
  pl_waitEvents :: bool
  pl_conn :: bool
  pl_pinConn :: "bool option"
  pl_panic :: bool
  pl_accepted :: "envelope list"

definition events_capacity :: nat where "events_capacity = 128"

definition pipeline_start :: "bool \<Rightarrow> 'p \<Rightarrow> 'p pipeline" where
  "pipeline_start pinned p = \<lparr>pl_pc = Serving, pl_events = [], pl_closed = False, pl_forwarding = True, pl_hand = None, pl_pub = p, pl_pubClosed = False,
     pl_waitEvents = False, pl_conn = True, pl_pinConn = (if pinned then Some True else None), pl_panic = False, pl_accepted = []\<rparr>"

text \<open>\<open>close(s.events)\<close>; closing a closed channel panics.\<close>

definition close_events :: "'p pipeline \<Rightarrow> 'p pipeline" where
  "close_events s = (if pl_closed s then s\<lparr>pl_panic := True\<rparr> else s\<lparr>pl_closed := True\<rparr>)"

datatype shutdown_act = SendEvent string task_event | ReceiveEvent | PublishEvent | EndForward | ContextDone | CloseService | ServeReturns

text \<open>A send on a closed channel panics; on a full one it waits. Giving up changes nothing.\<close>

definition send_event :: "string \<Rightarrow> task_event \<Rightarrow> 'p pipeline \<Rightarrow> 'p pipeline option" where
  "send_event ns e s =
     (if pl_closed s then Some (s\<lparr>pl_panic := True\<rparr>)
      else if length (pl_events s) < events_capacity
      then Some (s\<lparr>pl_events := pl_events s @ [(ns, e)], pl_accepted := pl_accepted s @ [(ns, e)]\<rparr>) else None)"

text \<open>
  \<open>Forward\<close> receives, publishes, and once the channel is closed and empty closes the publisher, where that is a closer, and \<open>waitEvents\<close>.
\<close>

definition receive_event :: "'p pipeline \<Rightarrow> 'p pipeline option" where
  "receive_event s =
     (if \<not> pl_forwarding s \<or> pl_hand s \<noteq> None then None
      else case pl_events s of [] \<Rightarrow> None | ev # evs \<Rightarrow> Some (s\<lparr>pl_events := evs, pl_hand := Some ev\<rparr>))"

definition publish_event :: "(string \<Rightarrow> topic \<Rightarrow> task_event \<Rightarrow> 'p \<Rightarrow> err option \<times> 'p) \<Rightarrow> 'p pipeline \<Rightarrow> 'p pipeline option" where
  "publish_event publish s =
     (case pl_hand s of
        None \<Rightarrow> None
      | Some (ns, e) \<Rightarrow> Some (s\<lparr>pl_hand := None, pl_pub := snd (publish ns (GetTopic e) e (pl_pub s))\<rparr>))"

definition end_forward :: "bool \<Rightarrow> 'p pipeline \<Rightarrow> 'p pipeline option" where
  "end_forward closer s =
     (if pl_forwarding s \<and> pl_hand s = None \<and> pl_events s = [] \<and> pl_closed s
      then Some (s\<lparr>pl_forwarding := False, pl_pubClosed := closer, pl_waitEvents := True\<rparr>) else None)"

text \<open>\<open>Service.Close\<close>, up to its wait.\<close>

definition close_service :: "'p pipeline \<Rightarrow> 'p pipeline" where
  "close_service s = close_events (s\<lparr>pl_conn := False, pl_pinConn := map_option (\<lambda>_. False) (pl_pinConn s)\<rparr>)"

text \<open>The steps, with those of \<open>serve\<close>. Its \<open>svc.Close()\<close> does not wait for the handlers that still run.\<close>

fun shutdown_step ::
  "(string \<Rightarrow> topic \<Rightarrow> task_event \<Rightarrow> 'p \<Rightarrow> err option \<times> 'p) \<Rightarrow> bool \<Rightarrow> shutdown_act \<Rightarrow> 'p pipeline \<Rightarrow> 'p pipeline option" where
  "shutdown_step publish closer (SendEvent ns e) s = send_event ns e s"
| "shutdown_step publish closer ReceiveEvent s = receive_event s"
| "shutdown_step publish closer PublishEvent s = publish_event publish s"
| "shutdown_step publish closer EndForward s = end_forward closer s"
| "shutdown_step publish closer ContextDone s = (if pl_pc s = Serving then Some (s\<lparr>pl_pc := Stopping\<rparr>) else None)"
| "shutdown_step publish closer CloseService s = (if pl_pc s = Stopping then Some (close_service (s\<lparr>pl_pc := Draining\<rparr>)) else None)"
| "shutdown_step publish closer ServeReturns s = (if pl_pc s = Draining \<and> pl_waitEvents s then Some (s\<lparr>pl_pc := Stopped\<rparr>) else None)"

lemmas shutdown_ops [simp] = send_event_def receive_event_def publish_event_def end_forward_def close_service_def

text \<open>A panic ends the process.\<close>

definition live_step ::
  "(string \<Rightarrow> topic \<Rightarrow> task_event \<Rightarrow> 'p \<Rightarrow> err option \<times> 'p) \<Rightarrow> bool \<Rightarrow> shutdown_act \<Rightarrow> 'p pipeline \<Rightarrow> 'p pipeline option" where
  "live_step publish closer a s = (if pl_panic s then None else shutdown_step publish closer a s)"

definition shutdown_run ::
  "(string \<Rightarrow> topic \<Rightarrow> task_event \<Rightarrow> 'p \<Rightarrow> err option \<times> 'p) \<Rightarrow> bool \<Rightarrow> shutdown_act list \<Rightarrow> 'p pipeline \<Rightarrow> 'p pipeline option" where
  "shutdown_run publish closer = run_acts (live_step publish closer)"

subsection \<open>Its invariant\<close>

lemma Forward_append: "Forward publish (es @ fs) p = Forward publish fs (Forward publish es p)"
  by (induction publish es p rule: Forward.induct) (auto split: prod.splits)

definition pending :: "'p pipeline \<Rightarrow> envelope list" where
  "pending s = (case pl_hand s of None \<Rightarrow> [] | Some ev \<Rightarrow> [ev]) @ pl_events s"

text \<open>What has been published followed by what is pending is what was accepted.\<close>

definition told :: "(string \<Rightarrow> topic \<Rightarrow> task_event \<Rightarrow> 'p \<Rightarrow> err option \<times> 'p) \<Rightarrow> 'p \<Rightarrow> 'p pipeline \<Rightarrow> bool" where
  "told publish p s \<longleftrightarrow> (\<exists>es. pl_accepted s = es @ pending s \<and> pl_pub s = Forward publish es p)"

definition shutdown_inv :: "(string \<Rightarrow> topic \<Rightarrow> task_event \<Rightarrow> 'p \<Rightarrow> err option \<times> 'p) \<Rightarrow> bool \<Rightarrow> 'p \<Rightarrow> 'p pipeline \<Rightarrow> bool" where
  "shutdown_inv publish closer p s \<longleftrightarrow>
     told publish p s \<and> length (pl_events s) \<le> events_capacity
     \<and> (pl_closed s \<longleftrightarrow> pl_pc s = Draining \<or> pl_pc s = Stopped) \<and> (pl_closed s \<longrightarrow> \<not> pl_conn s \<and> pl_pinConn s \<noteq> Some True)
     \<and> (pl_waitEvents s \<longleftrightarrow> \<not> pl_forwarding s) \<and> (pl_waitEvents s \<longrightarrow> pl_closed s \<and> pending s = [] \<and> pl_pubClosed s = closer)
     \<and> (pl_pc s = Stopped \<longrightarrow> pl_waitEvents s)"

lemma shutdown_inv_start: "shutdown_inv publish closer p (pipeline_start pinned p)"
  by (simp add: shutdown_inv_def told_def pipeline_start_def pending_def)

lemma told_publish:
  assumes "told publish p s" "pl_hand s = Some (ns, e)"
  shows "told publish p (s\<lparr>pl_hand := None, pl_pub := snd (publish ns (GetTopic e) e (pl_pub s))\<rparr>)"
proof -
  obtain es where "pl_accepted s = es @ pending s" "pl_pub s = Forward publish es p" using assms(1) by (auto simp: told_def)
  then show ?thesis unfolding told_def
    by (intro exI [of _ "es @ [(ns, e)]"]) (simp add: assms(2) pending_def Forward_append split: prod.splits)
qed

lemma told_step: "told publish p s \<Longrightarrow> shutdown_step publish closer a s = Some s' \<Longrightarrow> told publish p s'"
proof (cases a)
  case PublishEvent
  assume "told publish p s" "shutdown_step publish closer a s = Some s'"
  with PublishEvent show ?thesis by (auto simp: told_publish split: option.splits)
qed (auto simp: told_def pending_def close_events_def split: if_splits option.splits list.splits)

lemma shutdown_inv_step:
  assumes "shutdown_inv publish closer p s" "shutdown_step publish closer a s = Some s'"
  shows "shutdown_inv publish closer p s'"
proof -
  have "told publish p s'" by (rule told_step [OF _ assms(2)]) (use assms(1) in \<open>simp add: shutdown_inv_def\<close>)
  with assms show ?thesis
    by (cases a; cases "pl_pc s"; cases "pl_hand s"; clarsimp simp: shutdown_inv_def pending_def close_events_def split: if_split_asm list.split_asm)
qed

interpretation sd: machine "live_step publish closer" "shutdown_inv publish closer p" for publish closer p
  by unfold_locales (auto simp: live_step_def simp del: shutdown_step.simps intro: shutdown_inv_step split: if_splits)

text \<open>The steps still to come once \<open>serve\<close> is being shut down: two per pending event, and the last ones of \<open>Forward\<close>, \<open>Close\<close> and \<open>serve\<close>.\<close>

definition left :: "'p pipeline \<Rightarrow> nat" where
  "left s = 2 * length (pl_events s) + (if pl_hand s = None then 0 else 1) + (if pl_waitEvents s then 0 else 1)
     + (case pl_pc s of Serving \<Rightarrow> 3 | Stopping \<Rightarrow> 2 | Draining \<Rightarrow> 1 | Stopped \<Rightarrow> 0)"

lemma left_step:
  assumes "shutdown_inv publish closer p s" "shutdown_step publish closer a s = Some s'" "pl_closed s" "\<not> pl_panic s'"
  shows "Suc (left s') = left s \<and> pl_closed s'"
  using assms
  by (cases a) (auto simp: left_def shutdown_inv_def pending_def close_events_def split: if_splits option.splits list.splits)

lemma shutdown_progress:
  assumes "shutdown_inv publish closer p s" "pl_pc s \<noteq> Serving" "pl_pc s \<noteq> Stopped"
  shows "\<exists>a\<in>{ReceiveEvent, PublishEvent, EndForward, CloseService, ServeReturns}. shutdown_step publish closer a s \<noteq> None"
  using assms
  by (cases "pl_pc s"; cases "pl_hand s"; cases "pl_events s") (auto simp: shutdown_inv_def)

subsection \<open>Shutdown\<close>

lemma live_stepD: "live_step publish closer a s = Some s' \<Longrightarrow> shutdown_step publish closer a s = Some s'"
  by (simp add: live_step_def split: if_splits)

lemma no_panic_before: "run_acts (live_step publish closer) acts s = Some s' \<Longrightarrow> \<not> pl_panic s' \<Longrightarrow> \<not> pl_panic s"
  by (cases acts) (auto simp: live_step_def split: if_splits)

lemma left_run:
  assumes "shutdown_inv publish closer p s" "shutdown_run publish closer acts s = Some s'" "pl_closed s" "\<not> pl_panic s'"
  shows "length acts + left s' = left s"
  using assms unfolding shutdown_run_def
proof (induction acts arbitrary: s)
  case (Cons a acts)
  then obtain s1 where 1: "shutdown_step publish closer a s = Some s1" "run_acts (live_step publish closer) acts s1 = Some s'"
    by (auto simp: bind_eq_Some_conv dest: live_stepD)
  with left_step [OF Cons.prems(1) 1(1) Cons.prems(3)] Cons.IH [OF shutdown_inv_step [OF Cons.prems(1) 1(1)] 1(2)] Cons.prems(4)
    no_panic_before [OF 1(2)]
  show ?case by auto
qed simp

text \<open>Only a send on the closed channel panics.\<close>

lemma panic_step:
  assumes "shutdown_inv publish closer p s" "live_step publish closer a s = Some s'" "pl_panic s'"
  shows "(\<exists>ns e. a = SendEvent ns e) \<and> pl_closed s \<and> pl_closed s'"
  using assms by (cases a) (auto simp: live_step_def shutdown_inv_def close_events_def split: if_splits option.splits list.splits)

lemma shutdown_live:
  assumes inv: "shutdown_inv publish closer p s" and s: "\<not> pl_panic s" "pl_pc s \<noteq> Serving" "pl_pc s \<noteq> Stopped"
  shows "\<exists>a\<in>{ReceiveEvent, PublishEvent, EndForward, CloseService, ServeReturns}. \<exists>t. live_step publish closer a s = Some t \<and> \<not> pl_panic t"
proof -
  obtain a t where a: "a \<in> {ReceiveEvent, PublishEvent, EndForward, CloseService, ServeReturns}" "live_step publish closer a s = Some t"
    using shutdown_progress [OF inv s(2,3)] s(1) by (auto simp: live_step_def simp del: shutdown_step.simps)
  with panic_step [OF inv a(2)] show ?thesis by blast
qed

lemma panic_run:
  assumes "shutdown_run publish closer acts (pipeline_start pinned p) = Some s" "pl_panic s"
  shows "acts \<noteq> [] \<and> (\<exists>ns e. last acts = SendEvent ns e) \<and> pl_closed s"
proof (cases acts rule: rev_cases)
  case Nil
  with assms show ?thesis by (auto simp: shutdown_run_def pipeline_start_def)
next
  case (snoc bs a)
  with assms(1) obtain t where t: "run_acts (live_step publish closer) bs (pipeline_start pinned p) = Some t" "live_step publish closer a t = Some s"
    by (auto simp: shutdown_run_def run_acts_append bind_eq_Some_conv)
  from panic_step [OF sd.inv_run [OF shutdown_inv_start t(1)] t(2) assms(2)] snoc show ?thesis by simp
qed

text \<open>
  C14: Nothing the channel accepted is lost at shutdown. In every interleaving of senders, forwarder and shutdown the publisher has seen a prefix of the
  accepted events, each under its topic and in order, and the rest is pending. The one exception is a goroutine that still sends when the channel is closed:
  that send, and nothing else, panics, and ends the process with whatever is pending unpublished. As long as none does, \<open>serve\<close>, once told to stop, can always go on until it
  returns, and after it closed the channel it returns within the number of steps that are left; when it has
  returned, the publisher has been given exactly the accepted events, no connection is open, and the publisher is closed if it can be.
\<close>

theorem shutdown_publishes_all:
  assumes run: "shutdown_run publish closer acts (pipeline_start pinned p) = Some s"
  shows "(\<exists>es. pl_accepted s = es @ pending s \<and> pl_pub s = Forward publish es p) \<and> length (pl_events s) \<le> events_capacity
    \<and> (pl_panic s \<longrightarrow> acts \<noteq> [] \<and> (\<exists>ns e. last acts = SendEvent ns e) \<and> pl_closed s)
    \<and> (\<not> pl_panic s \<and> pl_pc s \<noteq> Serving \<and> pl_pc s \<noteq> Stopped
         \<longrightarrow> (\<exists>a\<in>{ReceiveEvent, PublishEvent, EndForward, CloseService, ServeReturns}. \<exists>t. live_step publish closer a s = Some t \<and> \<not> pl_panic t))
    \<and> (pl_closed s \<and> shutdown_run publish closer acts' s = Some s' \<and> \<not> pl_panic s' \<longrightarrow> length acts' + left s' = left s)
    \<and> (pl_pc s = Stopped \<longrightarrow> pl_pub s = Forward publish (pl_accepted s) p \<and> pending s = [] \<and> pl_pubClosed s = closer
         \<and> \<not> pl_conn s \<and> pl_pinConn s \<noteq> Some True)"
proof -
  have inv: "shutdown_inv publish closer p s" by (rule sd.inv_run [OF shutdown_inv_start run [unfolded shutdown_run_def]])
  then have told: "told publish p s" by (simp add: shutdown_inv_def)
  have "pl_pub s = Forward publish (pl_accepted s) p \<and> pending s = [] \<and> pl_pubClosed s = closer \<and> \<not> pl_conn s \<and> pl_pinConn s \<noteq> Some True"
    if "pl_pc s = Stopped"
    using inv that by (auto simp: shutdown_inv_def told_def)
  with inv told show ?thesis
    using shutdown_live [OF inv] left_run [OF inv] panic_run [OF run] by (auto simp: told_def shutdown_inv_def simp del: shutdown_step.simps)
qed

definition demo_publish :: "string \<Rightarrow> topic \<Rightarrow> task_event \<Rightarrow> (string \<times> topic) list \<Rightarrow> err option \<times> (string \<times> topic) list" where
  "demo_publish ns t e p = (None, p @ [(ns, t)])"

theorem shutdown_publishes_all_witness:
  "\<exists>s. shutdown_run demo_publish True [SendEvent ''a'' (TaskPaused ''c''), ContextDone, SendEvent ''b'' (TaskResumed ''d''), CloseService, ReceiveEvent,
        PublishEvent, ReceiveEvent, PublishEvent, EndForward, ServeReturns] (pipeline_start True []) = Some s
     \<and> pl_pc s = Stopped \<and> pl_pub s = Forward demo_publish [(''a'', TaskPaused ''c''), (''b'', TaskResumed ''d'')] []
     \<and> pl_pub s = [(''a'', TaskPausedEventTopic), (''b'', TaskResumedEventTopic)]" (is "\<exists>s. ?run = Some s \<and> _")
proof -
  have "\<exists>s. ?run = Some s \<and> pl_pc s = Stopped \<and> pl_accepted s = [(''a'', TaskPaused ''c''), (''b'', TaskResumed ''d'')]"
    by (simp add: shutdown_run_def live_step_def pipeline_start_def events_capacity_def close_events_def)
  then obtain s where run: "?run = Some s" and s: "pl_pc s = Stopped" "pl_accepted s = [(''a'', TaskPaused ''c''), (''b'', TaskResumed ''d'')]" by blast
  have "pl_pub s = Forward demo_publish (pl_accepted s) []" using shutdown_publishes_all [OF run] s(1) by blast
  with run s show ?thesis by (simp add: demo_publish_def)
qed

text \<open>
  What the shutdown does not wait for: a goroutine that still has an event to send, of a handler or of the reactor, panics after \<open>Close\<close>.
\<close>

lemma send_after_close_panics:
  assumes "shutdown_run publish closer acts (pipeline_start pinned p) = Some s" "pl_pc s = Draining"
  shows "\<exists>s'. shutdown_step publish closer (SendEvent ns e) s = Some s' \<and> pl_panic s'"
  using sd.inv_run [OF shutdown_inv_start assms(1) [unfolded shutdown_run_def]] assms(2) by (simp add: shutdown_inv_def)

end
