(* ===== verification/Serving.thy ===== *)
theory Serving
  imports Logic Cli
begin

text \<open>
  The start of the service (\<open>main.go\<close>, \<open>manager.go\<close>, \<open>unitref.go\<close>, \<open>log.go\<close>, \<open>tracing.go\<close>): signals, the \<open>serve\<close> command with its log format, tracing and
  publisher, the connections \<open>New\<close> makes, and \<open>serve\<close> with every early return and deferred clean-up, down to its shutdown, which theory \<open>Shutdown\<close>
  refines.
\<close>

subsection \<open>Calls\<close>

text \<open>What the process does, with the outcome of what can fail; \<open>None\<close> is success.\<close>

datatype scall =
    LoadConfig string "err option"
  | SetFormatter string
  | DialExporter string bool "err option"
  | NewResource "err option"
  | SetTracerProvider
  | ShutdownProvider
  | NewPublisher string "err option"
  | DebugServer
  | ConnectSystemd "err option"
  | LookRunc "err option"
  | ConnectPin "err option"
  | MakeRoot string "err option"
  | NewServer "err option"
  | WatchEvents
  | Listeners "err option"
  | ServeOn nat
  | StartForward
  | AwaitDone
  | CancelContext
  | CloseServer
  | Unsubscribe
  | CloseSystemd
  | ClosePin
  | CloseEvents

text \<open>The outside: outcomes, the log format of containerd's configuration as far as it could be decoded, and the listeners systemd passed, with whether each is a Unix listener.\<close>

record 'w senv =
  se_err :: "scall \<Rightarrow> 'w \<Rightarrow> err option \<times> 'w"
  se_format :: "'w \<Rightarrow> string \<times> 'w"
  se_listeners :: "'w \<Rightarrow> bool list \<times> 'w"

record 'w server =
  sv_world :: 'w
  sv_log :: "scall list"

type_synonym ('w, 'a) sgo = "('w server, 'a) state"

definition sdo :: "'w senv \<Rightarrow> (err option \<Rightarrow> scall) \<Rightarrow> ('w, err option) sgo" where
  "sdo x k = State (\<lambda>s. case se_err x (k None) (sv_world s) of (e, w) \<Rightarrow> (e, \<lparr>sv_world = w, sv_log = sv_log s @ [k e]\<rparr>))"

definition snote :: "scall \<Rightarrow> ('w, unit) sgo" where
  "snote k = State (\<lambda>s. ((), s\<lparr>sv_log := sv_log s @ [k]\<rparr>))"

definition sask :: "('w \<Rightarrow> 'a \<times> 'w) \<Rightarrow> ('w, 'a) sgo" where
  "sask f = State (\<lambda>s. case f (sv_world s) of (r, w) \<Rightarrow> (r, s\<lparr>sv_world := w\<rparr>))"

subsection \<open>Signals\<close>

text \<open>
  The goroutine of \<open>newCtx\<close> over the signals that arrive before its context ends: a termination cancels the context, \<open>SIGUSR1\<close> writes a stack
  dump to a temporary file, whose creation may fail. The result is whether the context is cancelled, how many dumps were written, and \<open>Panic\<close> where the code
  asks a nil file for its name.
\<close>

datatype signal = SIGTERM | SIGINT | SIGUSR1 "err option" | OtherSignal

fun signal_loop :: "signal list \<Rightarrow> nat \<Rightarrow> (bool \<times> nat) result" where
  "signal_loop [] dumps = Inr (False, dumps)"
| "signal_loop (SIGTERM # _) dumps = Inr (True, dumps)"
| "signal_loop (SIGINT # _) dumps = Inr (True, dumps)"
| "signal_loop (SIGUSR1 None # sigs) dumps = signal_loop sigs (Suc dumps)"
| "signal_loop (SIGUSR1 (Some _) # _) dumps = Inl (Panic ''nil file'')"
| "signal_loop (OtherSignal # sigs) dumps = signal_loop sigs dumps"

subsection \<open>The connection that pins units\<close>

text \<open>
  Connections are numbers. \<open>connectSystemdMessageBus\<close> asks for the system bus as root and for the session bus otherwise.
\<close>

datatype which_bus = SystemBus | SessionBus

record 'w dialler =
  dl_world :: 'w
  dl_method :: "nat option"
  dl_dialed :: nat

definition connectSystemdMessageBus ::
  "(which_bus \<Rightarrow> 'w \<Rightarrow> nat result \<times> 'w) \<Rightarrow> nat \<Rightarrow> ('w dialler, nat result) state" where
  "connectSystemdMessageBus connect euid =
     State (\<lambda>s. case connect (if euid = 0 then SystemBus else SessionBus) (dl_world s) of (r, w) \<Rightarrow> (r, s\<lparr>dl_world := w\<rparr>))"

text \<open>The function \<open>newPinConnection\<close> passes to \<open>systemd.NewConnection\<close>, which remembers the first connection it made.\<close>

definition pin_dial :: "(which_bus \<Rightarrow> 'w \<Rightarrow> nat result \<times> 'w) \<Rightarrow> nat \<Rightarrow> ('w dialler, nat result) state" where
  "pin_dial connect euid = do {
     c \<leftarrow> connectSystemdMessageBus connect euid;
     case c of
       Inl e \<Rightarrow> return_go (Inl e)
     | Inr c \<Rightarrow> State (\<lambda>s. (Inr c, s\<lparr>dl_method := (if dl_dialed s = 0 then Some c else dl_method s), dl_dialed := dl_dialed s + 1\<rparr>)) }"

text \<open>
  \<open>NewConnection\<close> is a function of go-systemd: it takes a way to dial and returns the connection for method calls and the one for signals. The result of
  \<open>newPinConnection\<close> is that pair with the connection references are released on.
\<close>

definition newPinConnection ::
  "(('w dialler, nat result) state \<Rightarrow> ('w dialler, (nat \<times> nat) result) state) \<Rightarrow> (which_bus \<Rightarrow> 'w \<Rightarrow> nat result \<times> 'w) \<Rightarrow> nat \<Rightarrow> 'w
   \<Rightarrow> ((nat \<times> nat) \<times> nat option) result \<times> 'w" where
  "newPinConnection NewConnection connect euid w =
     (case run_state (NewConnection (pin_dial connect euid)) \<lparr>dl_world = w, dl_method = None, dl_dialed = 0\<rparr> of
        (Inl e, s) \<Rightarrow> (Inl e, dl_world s)
      | (Inr conn, s) \<Rightarrow> (Inr (conn, dl_method s), dl_world s))"

subsection \<open>Log format and tracing\<close>

definition setupLogFormat :: "string \<Rightarrow> ('w, unit) sgo" where
  "setupLogFormat fmt =
     (let fmt = (if fmt = '''' then ''text'' else fmt)
      in if fmt = ''text'' then snote (SetFormatter ''text'')
         else if fmt = ''json'' then snote (SetFormatter ''json'')
         else return_go ())"

text \<open>The function \<open>ConfigureTracing\<close> returns is to be called at the end: it shuts the provider down, or does nothing (\<open>False\<close>).\<close>

definition ConfigureTracing :: "'w senv \<Rightarrow> string \<Rightarrow> bool \<Rightarrow> ('w, bool result) sgo" where
  "ConfigureTracing x endpoint insecure =
     (if endpoint = '''' then return_go (Inr False)
      else do {
        e \<leftarrow> sdo x (DialExporter endpoint insecure);
        if e \<noteq> None then return_go (Inl (ErrOther ''error setting up otel exporter''))
        else do {
          e \<leftarrow> sdo x NewResource;
          case e of
            Some e \<Rightarrow> return_go (Inl e)
          | None \<Rightarrow> do { snote SetTracerProvider; return_go (Inr True) } } })"

subsection \<open>The service's connections\<close>

text \<open>\<open>New\<close> with \<open>newServiceWithConfig\<close>, as far as connections go: whether units are pinned. What the service is made of is in theory \<open>Handlers\<close>.\<close>

definition New_connections :: "'w senv \<Rightarrow> string \<Rightarrow> ('w, bool result) sgo" where
  "New_connections x root = do {
     e \<leftarrow> sdo x ConnectSystemd;
     case e of
       Some e \<Rightarrow> return_go (Inl e)
     | None \<Rightarrow> do {
         e \<leftarrow> sdo x LookRunc;
         case e of
           Some e \<Rightarrow> do { snote CloseSystemd; return_go (Inl e) }
         | None \<Rightarrow> do {
             p \<leftarrow> sdo x ConnectPin;
             e \<leftarrow> sdo x (MakeRoot (path_Join [root, ''runc'']));
             case e of
               Some e \<Rightarrow> do {
                 snote CloseSystemd;
                 (if p = None then snote ClosePin else return_go ());
                 return_go (Inl e) }
             | None \<Rightarrow> return_go (Inr (p = None)) } } }"

definition Close_connections :: "bool \<Rightarrow> ('w, unit) sgo" where
  "Close_connections pinned = do {
     snote Unsubscribe;
     snote CloseSystemd;
     (if pinned then snote ClosePin else return_go ());
     snote CloseEvents }"

subsection \<open>Serving\<close>

text \<open>One goroutine per listener; a listener that is none of Unix panics.\<close>

fun serve_listeners :: "nat \<Rightarrow> bool list \<Rightarrow> ('w, bool) sgo" where
  "serve_listeners i [] = return_go True"
| "serve_listeners i (unix # ls) = (if unix then do { snote (ServeOn i); serve_listeners (Suc i) ls } else return_go False)"

text \<open>
  \<open>serve\<close>. Once the server exists, its deferred close and, before it, the deferred cancelling of the context run on every return and during a panic. At the end \<open>serve\<close>
  has waited for its context, so that the error it returns is that of the context. The goroutine of the debug HTTP server is started first and nothing ever closes it; should its address
  be taken, it ends the whole process there and then (\<open>Fatal\<close>), which is outside of what is described here.
\<close>

definition serve :: "'w senv \<Rightarrow> string \<Rightarrow> ('w, err) sgo" where
  "serve x root = do {
     snote DebugServer;
     c \<leftarrow> New_connections x root;
     case c of
       Inl e \<Rightarrow> return_go e
     | Inr pinned \<Rightarrow> do {
         e \<leftarrow> sdo x NewServer;
         case e of
           Some e \<Rightarrow> return_go e
         | None \<Rightarrow> do {
             snote WatchEvents;
             e \<leftarrow> sdo x Listeners;
             case e of
               Some e \<Rightarrow> do { snote CancelContext; snote CloseServer; return_go e }
             | None \<Rightarrow> do {
                 ls \<leftarrow> sask (se_listeners x);
                 ok \<leftarrow> serve_listeners 0 ls;
                 if \<not> ok then do { snote CancelContext; snote CloseServer; return_go (Panic ''listener type not supported'') }
                 else do {
                   snote StartForward;
                   snote AwaitDone;
                   snote CloseServer;
                   Close_connections pinned;
                   snote CancelContext;
                   snote CloseServer;
                   return_go ErrCanceled } } } } }"

definition serve_command :: "'w senv \<Rightarrow> cli \<Rightarrow> ('w, err) sgo" where
  "serve_command x cl = do {
     e \<leftarrow> sdo x (LoadConfig (cl_containerdConfig cl));
     fmt \<leftarrow> (if e \<noteq> None then return_go '''' else sask (se_format x));
     setupLogFormat fmt;
     t \<leftarrow> ConfigureTracing x (cl_traceEndpoint cl) (cl_traceInsecure cl);
     case t of
       Inl e \<Rightarrow> return_go e
     | Inr provider \<Rightarrow> do {
         e \<leftarrow> sdo x (NewPublisher (cl_ttrpcAddr cl));
         r \<leftarrow> (case e of Some e \<Rightarrow> return_go e | None \<Rightarrow> serve x (cl_root cl));
         (if provider then snote ShutdownProvider else return_go ());
         return_go r } }"

subsection \<open>What is open\<close>

text \<open>
  A reading of the calls: what is open, or \<open>None\<close> when a call comes out of order. Requests may be served only when the server has its connection and the
  reactor watches units; the channel of events may be closed only when the server is closed and somebody forwards what is left in it, or closing would wait forever. The
  forwarder takes the publisher over and closes it, and the tracing provider takes over the exporter, which has a connection of its own. The reactor counts as open until its context is
  cancelled, which tells it to end.
\<close>

datatype sres = RExporter | RProvider | RPublisher | RDebug | RSystemd | RPin | RServer | RReactor | RForward

definition opens :: "bool \<Rightarrow> sres \<Rightarrow> err option \<Rightarrow> sres set \<Rightarrow> sres set option" where
  "opens ok r e S = (if e \<noteq> None then Some S else if ok \<and> r \<notin> S then Some (insert r S) else None)"

definition closes :: "bool \<Rightarrow> sres \<Rightarrow> sres set \<Rightarrow> sres set option" where
  "closes ok r S = (if ok \<and> r \<in> S then Some (S - {r}) else None)"

fun serve_track :: "scall \<Rightarrow> sres set \<Rightarrow> sres set option" where
  "serve_track (DialExporter _ _ e) S = opens True RExporter e S"
| "serve_track SetTracerProvider S = (if RExporter \<in> S then opens True RProvider None (S - {RExporter}) else None)"
| "serve_track DebugServer S = opens True RDebug None S"
| "serve_track ShutdownProvider S = closes True RProvider S"
| "serve_track (NewPublisher _ e) S = opens True RPublisher e S"
| "serve_track (ConnectSystemd e) S = opens True RSystemd e S"
| "serve_track (ConnectPin e) S = opens (RSystemd \<in> S) RPin e S"
| "serve_track (NewServer e) S = opens (RSystemd \<in> S) RServer e S"
| "serve_track WatchEvents S = opens (RSystemd \<in> S) RReactor None S"
| "serve_track (ServeOn _) S = (if {RServer, RReactor, RSystemd} \<subseteq> S then Some S else None)"
| "serve_track StartForward S = (if RPublisher \<in> S then Some (insert RForward (S - {RPublisher})) else None)"
| "serve_track AwaitDone S = (if {RServer, RReactor, RSystemd, RForward} \<subseteq> S then Some S else None)"
| "serve_track CancelContext S = closes True RReactor S"
| "serve_track CloseServer S = Some (S - {RServer})"
| "serve_track Unsubscribe S = (if RSystemd \<in> S then Some S else None)"
| "serve_track CloseSystemd S = closes True RSystemd S"
| "serve_track ClosePin S = closes True RPin S"
| "serve_track CloseEvents S = closes (RServer \<notin> S) RForward S"
| "serve_track _ S = Some S"

fun open_after :: "scall list \<Rightarrow> sres set \<Rightarrow> sres set option" where
  "open_after [] S = Some S"
| "open_after (c # cs) S = Option.bind (serve_track c S) (open_after cs)"

text \<open>The start failed after the connections were made.\<close>

fun late_failure :: "scall list \<Rightarrow> err \<Rightarrow> bool" where
  "late_failure cs r = (list_ex (\<lambda>c. case c of NewServer (Some _) \<Rightarrow> True | Listeners (Some _) \<Rightarrow> True | _ \<Rightarrow> False) cs
     \<or> r = Panic ''listener type not supported'' \<and> NewServer None \<in> set cs)"

lemma open_after_append: "open_after (cs @ ds) S = Option.bind (open_after cs S) (open_after ds)"
  by (induction cs arbitrary: S) (auto simp: bind_eq_None_conv split: Option.bind_split)

lemma logs_sdo [hp_rules]: "(\<And>e. Q e [k e]) \<Longrightarrow> logs sv_log (sdo x k) Q"
  by (auto simp: logs_def sdo_def wp_def split: prod.splits)

lemma logs_snote [hp_rules]: "Q () [k] \<Longrightarrow> logs sv_log (snote k) Q"
  by (auto simp: logs_def snote_def wp_def)

lemma logs_sask [hp_rules]: "(\<And>r. Q r []) \<Longrightarrow> logs sv_log (sask f) Q"
  by (auto simp: logs_def sask_def wp_def split: prod.splits)

lemma logs_serve_listeners [hp_rules]:
  "(\<And>ok is. Q ok (map ServeOn is)) \<Longrightarrow> logs sv_log (serve_listeners i ls) Q"
proof (induction ls arbitrary: i Q)
  case Nil
  from Nil [of True "[]"] show ?case by (simp add: logs_return)
next
  case (Cons unix ls)
  show ?case unfolding serve_listeners.simps
    by (intro hp_rules Cons.IH) (use Cons.prems [of _ "_ # _"] Cons.prems [of _ "[]"] in auto)
qed

lemma open_after_serving: "{RServer, RReactor, RSystemd} \<subseteq> S \<Longrightarrow> open_after (map ServeOn is @ cs) S = open_after cs S"
  by (induction "is") auto

definition serve_left :: "scall list \<Rightarrow> err \<Rightarrow> sres set" where
  "serve_left cs r = {RDebug} \<union>
     (if AwaitDone \<in> set cs then {}
      else {RPublisher} \<union> (if late_failure cs r then {RSystemd} \<union> (if ConnectPin None \<in> set cs then {RPin} else {}) else {}))"

definition no_resource :: "scall list \<Rightarrow> bool" where
  "no_resource cs = list_ex (\<lambda>c. case c of NewResource (Some _) \<Rightarrow> True | _ \<Rightarrow> False) cs"

lemma logs_serve:
  "logs sv_log (serve x root) (\<lambda>r cs. open_after cs {RPublisher} = Some (serve_left cs r)
     \<and> open_after cs {RPublisher, RProvider} = Some (insert RProvider (serve_left cs r)) \<and> \<not> no_resource cs)"
  unfolding serve_def New_connections_def Close_connections_def
  by (intro hp_rules) (auto simp: opens_def closes_def serve_left_def open_after_serving no_resource_def list_ex_iff)

text \<open>What comes before \<open>serve\<close> and concerns only the log opens nothing.\<close>

fun quiet :: "scall \<Rightarrow> bool" where
  "quiet (LoadConfig _ _) = True" | "quiet (SetFormatter _) = True"
| "quiet _ = False"

definition published :: "scall list \<Rightarrow> bool" where
  "published cs = list_ex (\<lambda>c. case c of NewPublisher _ None \<Rightarrow> True | _ \<Rightarrow> False) cs"

text \<open>What a run of the command leaves open, read off its calls and its result.\<close>

definition left_open :: "scall list \<Rightarrow> err \<Rightarrow> sres set" where
  "left_open cs r = (if no_resource cs then {RExporter} else {}) \<union> (if published cs then serve_left cs r else {})"

lemma quiet_step [simp]:
  assumes "quiet c"
  shows "open_after (c # cs) S = open_after cs S" "serve_left (c # cs) r = serve_left cs r" "published (c # cs) = published cs"
    "no_resource (c # cs) = no_resource cs"
  using assms by (cases c; simp add: serve_left_def published_def no_resource_def)+

lemma quiet_prefix:
  assumes "list_all quiet qs"
  shows "serve_left (qs @ cs) r = serve_left cs r" "published (qs @ cs) = published cs" "no_resource (qs @ cs) = no_resource cs"
    "open_after qs S = Some S"
  using assms by (induction qs) (simp_all del: open_after.simps(2))

lemma published_simps [simp]:
  "\<not> published []" "published (DialExporter a b e # cs) = published cs" "published (NewResource e # cs) = published cs"
  "published (SetTracerProvider # cs) = published cs" "published (NewPublisher a e # cs) = (e = None \<or> published cs)"
  "published (cs @ [ShutdownProvider]) = published cs" "published [ShutdownProvider] = False"
  by (auto simp: published_def split: option.splits)

lemma no_resource_simps [simp]:
  "\<not> no_resource []" "no_resource (DialExporter a b e # cs) = no_resource cs" "no_resource (NewResource e # cs) = (e \<noteq> None \<or> no_resource cs)"
  "no_resource (SetTracerProvider # cs) = no_resource cs" "no_resource (NewPublisher a e # cs) = no_resource cs"
  "no_resource (cs @ [ShutdownProvider]) = no_resource cs" "no_resource [ShutdownProvider] = False"
  by (auto simp: no_resource_def split: option.splits)

lemma logs_setupLogFormat: "(\<And>qs. list_all quiet qs \<Longrightarrow> Q () qs) \<Longrightarrow> logs sv_log (setupLogFormat fmt) Q"
  unfolding setupLogFormat_def by (intro hp_rules) auto

lemma serve_frame [simp]:
  "serve_left (cs @ [ShutdownProvider]) r = serve_left cs r" "serve_left (SetTracerProvider # cs) r = serve_left cs r"
  "serve_left (NewPublisher a e # cs) r = serve_left cs r" "serve_left (DialExporter a b e # cs) r = serve_left cs r"
  "serve_left (NewResource e # cs) r = serve_left cs r"
  by (simp_all add: serve_left_def)

lemma serve_left_closed [simp]: "RProvider \<notin> serve_left cs r"
  by (simp add: serve_left_def)

lemma logs_serve_command:
  "logs sv_log (serve_command x cl) (\<lambda>r cs. open_after cs {} = Some (left_open cs r))"
  unfolding serve_command_def ConfigureTracing_def
  by (intro hp_rules logs_setupLogFormat logs_mono [OF logs_serve])
    (auto simp: opens_def closes_def left_open_def quiet_prefix open_after_append)

text \<open>
  C15: The serve command, on every path that returns or panics. Requests are served only on a server that has its connection to systemd, while the reactor watches units; the channel of
  events is closed only after the server and while its forwarder runs; whatever was opened is closed at most once. At the end the server is closed, the reactor's context cancelled, a tracing provider
  shut down with its exporter, and what is left open is exactly this: the debug HTTP server once \<open>serve\<close> began; the exporter, if the resource of the traces could not be made; the publisher,
  once it was made, unless the service ran; and the connections to systemd if the server or the listeners could not be had.
\<close>

theorem serve_command_releases:
  "case run_state (serve_command x cl) \<lparr>sv_world = w, sv_log = []\<rparr> of (r, s) \<Rightarrow>
     open_after (sv_log s) {} = Some (left_open (sv_log s) r)
     \<and> left_open (sv_log s) r \<inter> {RServer, RReactor, RProvider, RForward} = {}
     \<and> (RDebug \<in> left_open (sv_log s) r) = published (sv_log s)
     \<and> (RExporter \<in> left_open (sv_log s) r) = no_resource (sv_log s)
     \<and> (RPublisher \<in> left_open (sv_log s) r) = (published (sv_log s) \<and> AwaitDone \<notin> set (sv_log s))
     \<and> (RSystemd \<in> left_open (sv_log s) r) = (published (sv_log s) \<and> AwaitDone \<notin> set (sv_log s) \<and> late_failure (sv_log s) r)"
proof -
  obtain r s where rs: "run_state (serve_command x cl) \<lparr>sv_world = w, sv_log = []\<rparr> = (r, s)" by force
  have "open_after (sv_log s) {} = Some (left_open (sv_log s) r)"
    using logsD [OF logs_serve_command rs, of "sv_log s"] by simp
  then show ?thesis by (simp add: rs left_open_def serve_left_def)
qed

text \<open>
  \<open>NewConnection\<close> dials twice and makes its method calls on the first connection. So the connection the references are released on is the one they were taken on.
\<close>

definition dial_twice :: "('w dialler, nat result) state \<Rightarrow> ('w dialler, (nat \<times> nat) result) state" where
  "dial_twice d = do {
     a \<leftarrow> d;
     case a of
       Inl e \<Rightarrow> return_go (Inl e)
     | Inr sysconn \<Rightarrow> do {
         b \<leftarrow> d;
         return_go (case b of Inl e \<Rightarrow> Inl e | Inr sigconn \<Rightarrow> Inr (sysconn, sigconn)) } }"

lemma pin_reference_connection:
  assumes "NewConnection = dial_twice" and "newPinConnection NewConnection connect euid w = (Inr ((sysconn, sigconn), m), w')"
  shows "m = Some sysconn"
  using assms
  by (auto simp: newPinConnection_def dial_twice_def pin_dial_def connectSystemdMessageBus_def split: prod.splits sum.splits)

text \<open>A stack dump whose file cannot be made ends the process.\<close>

lemma stack_dump_panics: "signal_loop (sigs @ [SIGUSR1 (Some e)]) 0 = Inl (Panic ''nil file'')" if "set sigs \<subseteq> {SIGUSR1 None, OtherSignal}"
proof -
  have "signal_loop (sigs @ [SIGUSR1 (Some e)]) n = Inl (Panic ''nil file'')" for n
    using that by (induction sigs arbitrary: n) auto
  then show ?thesis .
qed

lemma termination_cancels:
  assumes "set sigs \<subseteq> {SIGUSR1 None, OtherSignal}" "sg = SIGTERM \<or> sg = SIGINT"
  shows "signal_loop (sigs @ sg # rest) n = Inr (True, n + length (filter (\<lambda>g. g = SIGUSR1 None) sigs))"
  using assms by (induction sigs arbitrary: n) auto

end
