(* ===== verification/Telemetry.thy ===== *)
theory Telemetry
  imports Api
begin

text \<open>
  Tracing and logging around the requests (\<open>tracing.go\<close>, \<open>log.go\<close>): the interceptors that put every call of the service and of its client into a span, the
  carrier of trace headers, and the log of a bundle. They are to be invisible to what they wrap.
\<close>

subsection \<open>Spans\<close>

datatype span_kind = SpanKindServer | SpanKindClient

datatype span_event =
    StartSpan string span_kind
  | SetAttribute string string
  | AddEvent string "nat option"
  | SetStatus err
  | EndSpan

text \<open>A program over the state it wraps and the record of spans.\<close>

type_synonym ('s, 'a) traced = "('s \<times> span_event list, 'a) state"

definition span :: "span_event \<Rightarrow> ('s, unit) traced" where
  "span e = State (\<lambda>(s, t). ((), (s, t @ [e])))"

definition wrapped :: "('s, 'a) state \<Rightarrow> ('s, 'a) traced" where
  "wrapped m = State (\<lambda>(s, t). case run_state m s of (r, s') \<Rightarrow> (r, (s', t)))"

definition span_status :: "err option \<Rightarrow> ('s, unit) traced" where
  "span_status e = (case e of None \<Rightarrow> return_go () | Some e \<Rightarrow> span (SetStatus e))"

subsection \<open>Interceptors\<close>

text \<open>
  What the tracing library does with contexts and metadata: \<open>pg_extract\<close> and \<open>pg_inject\<close> are the propagator's, \<open>pg_enter\<close> adds a span and a logger to a context,
  \<open>pg_recording\<close> says whether the span of a context is recorded; the others are \<open>ttrpc.GetMetadata\<close>, \<open>ttrpc.WithMetadata\<close> and the empty metadata.
\<close>

record ('c, 'md) propagator =
  pg_extract :: "'md \<Rightarrow> 'c \<Rightarrow> 'c"
  pg_inject :: "'c \<Rightarrow> 'md \<Rightarrow> 'md"
  pg_enter :: "string \<Rightarrow> 'c \<Rightarrow> 'c"
  pg_recording :: "'c \<Rightarrow> bool"
  pg_GetMetadata :: "'c \<Rightarrow> 'md option"
  pg_WithMetadata :: "'md \<Rightarrow> 'c \<Rightarrow> 'c"
  pg_MD :: 'md

text \<open>\<open>failed\<close> is the error an answer of the method stands for.\<close>

definition server_ctx :: "('c, 'md) propagator \<Rightarrow> string \<Rightarrow> 'c \<Rightarrow> 'c" where
  "server_ctx pg method c = pg_enter pg method (case pg_GetMetadata pg c of Some md \<Rightarrow> pg_extract pg md c | None \<Rightarrow> c)"

definition UnaryServerInterceptor ::
  "('c, 'md) propagator \<Rightarrow> ('a \<Rightarrow> err option) \<Rightarrow> 'c \<Rightarrow> string \<Rightarrow> ('c \<Rightarrow> ('s, 'a) state) \<Rightarrow> ('s, 'a) traced" where
  "UnaryServerInterceptor pg failed c method m = do {
     span (StartSpan method SpanKindServer);
     span (SetAttribute ''rpc.system'' ''ttrpc'');
     span (AddEvent ''sent'' None);
     r \<leftarrow> wrapped (m (server_ctx pg method c));
     span_status (failed r);
     span (AddEvent ''received'' None);
     span EndSpan;
     return_go r }"

text \<open>A request by its service, method and payload, and what the client has of the response afterwards: its payload and status code.\<close>

record request =
  rq_Service :: string
  rq_Method :: string
  rq_Payload :: string

record response =
  rs_Payload :: string
  rs_Status :: "int option"

text \<open>The trace headers travel in the metadata of the call, beside what the caller put there, when the span is recorded.\<close>

definition client_ctx :: "('c, 'md) propagator \<Rightarrow> string \<Rightarrow> 'c \<Rightarrow> 'c" where
  "client_ctx pg method c =
     (let c = pg_enter pg method c
      in if pg_recording pg c
         then let md = (case pg_GetMetadata pg c of None \<Rightarrow> pg_MD pg | Some md \<Rightarrow> md) in pg_WithMetadata pg (pg_inject pg c md) c
         else c)"

definition UnaryClientInterceptor ::
  "('c, 'md) propagator \<Rightarrow> 'c \<Rightarrow> request \<Rightarrow> string \<Rightarrow> ('c \<Rightarrow> request \<Rightarrow> ('s, err option \<times> response) state) \<Rightarrow> ('s, err option \<times> response) traced" where
  "UnaryClientInterceptor pg c req method invoker = do {
     span (StartSpan method SpanKindClient);
     span (SetAttribute ''rpc.system'' ''ttrpc'');
     span (SetAttribute ''rpc.ttrpc.service'' (rq_Service req));
     span (SetAttribute ''rpc.ttrpc.method'' (rq_Method req));
     span (AddEvent ''sent'' (Some (length (rq_Payload req))));
     r \<leftarrow> wrapped (invoker (client_ctx pg method c) req);
     span_status (fst r);
     span (AddEvent ''received'' (Some (length (rs_Payload (snd r)))));
     (case rs_Status (snd r) of None \<Rightarrow> return_go () | Some code \<Rightarrow> span (SetAttribute ''rpc.ttrpc.response.status'' (show_int code)));
     span EndSpan;
     return_go r }"

subsection \<open>The carrier\<close>

text \<open>\<open>ttrpc.MD\<close> by its \<open>Get\<close> and the keys of its map.\<close>

definition carrier_Get :: "('md \<Rightarrow> string \<Rightarrow> string list option) \<Rightarrow> 'md \<Rightarrow> string \<Rightarrow> string" where
  "carrier_Get get md key = (case get md key of Some (v # vs) \<Rightarrow> v | _ \<Rightarrow> '''')"

definition carrier_Set :: "(string \<Rightarrow> string list \<Rightarrow> 'md \<Rightarrow> 'md) \<Rightarrow> string \<Rightarrow> string \<Rightarrow> 'md \<Rightarrow> 'md" where
  "carrier_Set set_md key v md = set_md key [v] md"

subsection \<open>The log of a bundle\<close>

text \<open>\<open>OpenShimLog\<close> is defined in theory \<open>World\<close>; here it runs over any outside \<open>le_do\<close>, with the outcomes of its calls kept.\<close>

type_synonym 'w log_run = "'w \<times> (log_call \<times> err option) list"

definition ldo :: "(log_call \<Rightarrow> 'w \<Rightarrow> err option \<times> 'w) \<Rightarrow> log_call \<Rightarrow> ('w log_run, err option) state" where
  "ldo le_do k = State (\<lambda>(w, t). case le_do k w of (e, w') \<Rightarrow> (e, (w', t @ [(k, e)])))"

text \<open>The logger of a context: where it writes, what a copy keeps, and whether a bundle's log was added already.\<close>

record log_ctx =
  lc_shimLogSet :: bool
  lc_Out :: "log_writer list"
  lc_Level :: nat
  lc_Hooks :: "string list"
  lc_ReportCaller :: bool
  lc_Fields :: "(string \<times> string) list"

definition WithShimLog :: "log_ctx \<Rightarrow> log_writer \<Rightarrow> log_ctx" where
  "WithShimLog ctx w =
     (if lc_shimLogSet ctx then ctx
      else \<lparr>lc_shimLogSet = True, lc_Out = lc_Out ctx @ [w], lc_Level = lc_Level ctx, lc_Hooks = lc_Hooks ctx,
            lc_ReportCaller = lc_ReportCaller ctx, lc_Fields = lc_Fields ctx\<rparr>)"

subsection \<open>They are invisible\<close>

text \<open>A span of a kind as it should be: begun first, ended last and once, with the status of a failed call and of no other.\<close>

fun status_of :: "span_event list \<Rightarrow> err option" where
  "status_of [] = None"
| "status_of (SetStatus e # _) = Some e"
| "status_of (_ # es) = status_of es"

definition one_span :: "string \<Rightarrow> span_kind \<Rightarrow> err option \<Rightarrow> span_event list \<Rightarrow> bool" where
  "one_span method kind e es \<longleftrightarrow> (\<exists>body. es = StartSpan method kind # body @ [EndSpan] \<and> EndSpan \<notin> set body
     \<and> (\<forall>n k. StartSpan n k \<notin> set body) \<and> status_of body = e)"

lemma run_span: "run_state (span e) (s, t) = ((), (s, t @ [e]))"
  by (simp add: span_def)

lemma run_wrapped: "run_state (wrapped m) (s, t) = (fst (run_state m s), (snd (run_state m s), t))"
  by (simp add: wrapped_def split: prod.splits)

lemma run_span_status: "run_state (span_status e) (s, t) = ((), (s, t @ (case e of None \<Rightarrow> [] | Some e \<Rightarrow> [SetStatus e])))"
  by (cases e) (simp_all add: span_status_def run_span)

lemmas run_traced = run_span run_wrapped run_span_status

lemma server_interceptor:
  "\<exists>es. run_state (UnaryServerInterceptor pg failed c method m) (s, t) =
     (fst (run_state (m (server_ctx pg method c)) s), (snd (run_state (m (server_ctx pg method c)) s), t @ es))
     \<and> one_span method SpanKindServer (failed (fst (run_state (m (server_ctx pg method c)) s))) es"
  by (cases "failed (fst (run_state (m (server_ctx pg method c)) s))") (auto simp: UnaryServerInterceptor_def run_traced one_span_def)

lemma client_interceptor:
  "\<exists>es. run_state (UnaryClientInterceptor pg c req method inv) (s, t) =
     (fst (run_state (inv (client_ctx pg method c) req) s), (snd (run_state (inv (client_ctx pg method c) req) s), t @ es))
     \<and> one_span method SpanKindClient (fst (fst (run_state (inv (client_ctx pg method c) req) s))) es"
  by (cases "fst (fst (run_state (inv (client_ctx pg method c) req) s))"; cases "rs_Status (snd (fst (run_state (inv (client_ctx pg method c) req) s)))")
    (auto simp: UnaryClientInterceptor_def run_traced one_span_def)

text \<open>The error of an answer of either version.\<close>

definition v3_failed :: "v3_response result option \<Rightarrow> err option" where
  "v3_failed r = (case r of Some (Inl e) \<Rightarrow> Some e | _ \<Rightarrow> None)"

definition v2_failed :: "(v2_response option \<times> err option) option \<Rightarrow> err option" where
  "v2_failed r = Option.bind r snd"

text \<open>
  Tracing is invisible. Behind the interceptor every request of either version has the same answer and the same effect on the shim as without it, for every
  propagator, as long as its contexts end when the request's does; and it adds exactly one server span of the method's name to the record, ended last and marked with the error if and only if
  the answer is one.
\<close>

theorem tracing_invisible:
  assumes "server_ctx pg method c = c"
  shows "let v3 = (\<lambda>c. serve_v3 (Service_TTRPC x sv js pid c ns n) r); v2 = (\<lambda>c. taskV2Adapter (Service_TTRPC x sv js pid c ns n) r2)
    in (\<exists>es. run_state (UnaryServerInterceptor pg v3_failed c method v3) (s, t) = (fst (run_state (v3 c) s), (snd (run_state (v3 c) s), t @ es))
          \<and> one_span method SpanKindServer (v3_failed (fst (run_state (v3 c) s))) es)
     \<and> (\<exists>es. run_state (UnaryServerInterceptor pg v2_failed c method v2) (s, t) = (fst (run_state (v2 c) s), (snd (run_state (v2 c) s), t @ es))
          \<and> one_span method SpanKindServer (v2_failed (fst (run_state (v2 c) s))) es)"
  unfolding Let_def
  using server_interceptor [of pg v3_failed c "method" "\<lambda>c. serve_v3 (Service_TTRPC x sv js pid c ns n) r" s t]
    server_interceptor [of pg v2_failed c "method" "\<lambda>c. taskV2Adapter (Service_TTRPC x sv js pid c ns n) r2" s t]
  unfolding assms by blast

definition demo_propagator :: "(ctx, (string \<times> string) list) propagator" where
  "demo_propagator = \<lparr>pg_extract = (\<lambda>md c. c), pg_inject = (\<lambda>c md. (''traceparent'', ''00-1'') # md), pg_enter = (\<lambda>n c. c), pg_recording = (\<lambda>c. True),
     pg_GetMetadata = (\<lambda>c. None), pg_WithMetadata = (\<lambda>md c. c), pg_MD = []\<rparr>"

theorem tracing_invisible_witness:
  "\<exists>es. run_state (UnaryServerInterceptor demo_propagator v3_failed ReqCtx ''Task/Delete''
        (\<lambda>c. serve_v3 (Service_TTRPC (calm_env :: unit env) demo_conf (\<lambda>_. Inr '''') 1 c (Inr ''ns'') 1) (V3Delete ''c'' '''')))
        (demo_shim exited_process (blank_process ''ns''), [])
      = (fst (run_state (serve_v3 (Service_TTRPC calm_env demo_conf (\<lambda>_. Inr '''') 1 ReqCtx (Inr ''ns'') 1) (V3Delete ''c'' '''')) (demo_shim exited_process (blank_process ''ns''))),
         (snd (run_state (serve_v3 (Service_TTRPC calm_env demo_conf (\<lambda>_. Inr '''') 1 ReqCtx (Inr ''ns'') 1) (V3Delete ''c'' '''')) (demo_shim exited_process (blank_process ''ns''))), es))"
proof -
  have c: "server_ctx demo_propagator ''Task/Delete'' ReqCtx = ReqCtx" by (simp add: server_ctx_def demo_propagator_def)
  show ?thesis
    using tracing_invisible [OF c, where x = "calm_env :: unit env" and sv = demo_conf and js = "\<lambda>_. Inr ''''" and pid = 1 and ns = "Inr ''ns''" and n = 1
      and r = "V3Delete ''c'' ''''" and s = "demo_shim exited_process (blank_process ''ns'')" and t = "[]"]
    unfolding Let_def append_Nil by blast
qed

subsection \<open>Carrier and log\<close>

lemma carrier_roundtrip:
  assumes "\<And>k vs md. get (set_md k vs md) k = Some vs"
  shows "carrier_Get get (carrier_Set set_md k v md) k = v"
  by (simp add: carrier_Get_def carrier_Set_def assms)

lemma logs_ldo [hp_rules]: "(\<And>e. Q e [(k, e)]) \<Longrightarrow> logs snd (ldo x k) Q"
  by (auto simp: logs_def ldo_def wp_def split: prod.splits)

text \<open>
  Opening the log of a bundle never fails: it gives the pipe when its last attempt to open it succeeded, and otherwise discards, having removed the pipe if it made one.
\<close>

lemma OpenShimLog_outcome:
  "logs snd (OpenShimLog (ldo x) bundle) (\<lambda>w cs. let p = path_Join [bundle, ''log''] in
     w = (if last cs = (OpenLog p, None) then LogFile p else Discard) \<and> (w = Discard \<and> (MkfifoLog p, None) \<in> set cs \<longrightarrow> fst (last cs) = RemoveLog p))"
  unfolding OpenShimLog_def by (intro hp_rules) (auto simp: Let_def)

lemma WithShimLog_once: "WithShimLog (WithShimLog ctx w) w' = WithShimLog ctx w"
  by (simp add: WithShimLog_def)

lemma WithShimLog_keeps:
  "lc_Fields (WithShimLog ctx w) = lc_Fields ctx \<and> lc_Level (WithShimLog ctx w) = lc_Level ctx \<and> set (lc_Out ctx) \<subseteq> set (lc_Out (WithShimLog ctx w))"
  by (auto simp: WithShimLog_def)


end
