(* ===== verification/Bench.thy ===== *)
theory Bench
  imports Logic
begin

text \<open>
  The driver of the benchmark in \<open>contrib/bench\<close> (\<open>driver.go\<close>, \<open>scenarios.go\<close>, \<open>main.go\<close>): a client that creates containers, tasks and execs
  through containerd, times them, and has to give back everything it created on every path.
\<close>

subsection \<open>Calls of the client\<close>

text \<open>A process of a container: its task, or an exec in it.\<close>

datatype target = TaskOf string | ExecOf string string

fun container_of :: "target \<Rightarrow> string" where
  "container_of (TaskOf i) = i" | "container_of (ExecOf i e) = i"

text \<open>
  What the driver asks of the client library and of the pty. The flag of a call says that its context is one made by
  \<open>context.WithoutCancel\<close>. The log keeps each with its outcome; \<open>None\<close> is success.
\<close>

datatype bop =
    BNewPty
  | BOpenSlave string
  | BCloseSlave
  | BCloseMaster
  | BNewContainer string string bool "string list"
  | BContainerDelete bool string
  | BNewTask string bool
  | BNewExec string string bool "string list"
  | BLoadTask string
  | BWait bool target
  | BStart target
  | BAwaitExit target
  | BKill bool target
  | BDelete bool target
  | BContainers

text \<open>
  The outside. An exit status arrives on a channel: \<open>None\<close> is the context's end or the time-out, \<open>Inl\<close> an error of the wait. Latencies are floating point
  numbers; \<open>f_ms\<close> is the conversion of a duration to milliseconds and \<open>f_add\<close> the addition of the machine. \<open>be_jump\<close> is how often other
  goroutines have taken an id meanwhile.
\<close>

record ('w, 'f) benv =
  be_do :: "bop \<Rightarrow> 'w \<Rightarrow> err option \<times> 'w"
  be_exit :: "target \<Rightarrow> 'w \<Rightarrow> u32 result option \<times> 'w"
  be_pty :: "'w \<Rightarrow> string \<times> 'w"
  be_ids :: "'w \<Rightarrow> string list \<times> 'w"
  be_now :: "'w \<Rightarrow> time \<times> 'w"
  be_jump :: "'w \<Rightarrow> nat \<times> 'w"
  f_ms :: "int \<Rightarrow> 'f"
  f_add :: "'f \<Rightarrow> 'f \<Rightarrow> 'f"

record 'w driver =
  bd_world :: 'w
  bd_seq :: nat
  bd_log :: "(bop \<times> err option) list"

type_synonym ('w, 'a) bgo = "('w driver, 'a) state"
type_synonym 'f ops = "(string \<times> 'f) list"

definition ask :: "('w \<Rightarrow> 'a \<times> 'w) \<Rightarrow> ('w, 'a) bgo" where
  "ask f = State (\<lambda>s. case f (bd_world s) of (r, w) \<Rightarrow> (r, s\<lparr>bd_world := w\<rparr>))"

definition bdo :: "('w, 'f) benv \<Rightarrow> bop \<Rightarrow> ('w, err option) bgo" where
  "bdo x k = State (\<lambda>s. case be_do x k (bd_world s) of (e, w) \<Rightarrow> (e, s\<lparr>bd_world := w, bd_log := bd_log s @ [(k, e)]\<rparr>))"

definition msSince :: "('w, 'f) benv \<Rightarrow> time \<Rightarrow> ('w, 'f) bgo" where
  "msSince x t0 = do { t \<leftarrow> ask (be_now x); return_go (f_ms x (t - t0)) }"

definition benchIDPrefix :: string where "benchIDPrefix = ''bench-''"

text \<open>The counter is 64 bits wide in the source; here it does not wrap.\<close>

definition uid :: "('w, 'f) benv \<Rightarrow> string \<Rightarrow> ('w, string) bgo" where
  "uid x prefix = do {
     k \<leftarrow> ask (be_jump x);
     n \<leftarrow> State (\<lambda>s. (bd_seq s + k + 1, s\<lparr>bd_seq := bd_seq s + k + 1\<rparr>));
     return_go (benchIDPrefix @ prefix @ ''-'' @ show_nat n) }"

text \<open>Waiting for an exit status, or for the end of the context or of five seconds. A run in which neither comes has no result here.\<close>

definition await_exit :: "('w, 'f) benv \<Rightarrow> target \<Rightarrow> ('w, u32 result option) bgo" where
  "await_exit x p = do { _ \<leftarrow> bdo x (BAwaitExit p); ask (be_exit x p) }"

definition killAndDelete :: "('w, 'f) benv \<Rightarrow> target \<Rightarrow> ('w, unit) bgo" where
  "killAndDelete x p = do {
     w \<leftarrow> bdo x (BWait True p);
     _ \<leftarrow> bdo x (BKill True p);
     _ \<leftarrow> (if w = None then do { _ \<leftarrow> await_exit x p; return_go () } else return_go ());
     _ \<leftarrow> bdo x (BDelete True p);
     return_go () }"

subsection \<open>Terminals and containers\<close>

text \<open>\<open>newIO\<close>, whose result says whether there is a pty to clean up, and that clean-up.\<close>

definition newIO :: "('w, 'f) benv \<Rightarrow> bool \<Rightarrow> ('w, bool result) bgo" where
  "newIO x tty =
     (if \<not> tty then return_go (Inr False)
      else do {
        e \<leftarrow> bdo x BNewPty;
        case e of
          Some e \<Rightarrow> return_go (Inl e)
        | None \<Rightarrow> do {
            slavePath \<leftarrow> ask (be_pty x);
            e \<leftarrow> bdo x (BOpenSlave slavePath);
            case e of
              Some e \<Rightarrow> do { _ \<leftarrow> bdo x BCloseMaster; return_go (Inl e) }
            | None \<Rightarrow> return_go (Inr True) } })"

definition io_cleanup :: "('w, 'f) benv \<Rightarrow> bool \<Rightarrow> ('w, unit) bgo" where
  "io_cleanup x pty = (if pty then do { _ \<leftarrow> bdo x BCloseSlave; _ \<leftarrow> bdo x BCloseMaster; return_go () } else return_go ())"

definition newContainer :: "('w, 'f) benv \<Rightarrow> string \<Rightarrow> string \<Rightarrow> bool \<Rightarrow> string list \<Rightarrow> ('w, err option) bgo" where
  "newContainer x rt i tty args = bdo x (BNewContainer rt i tty args)"

subsection \<open>One container from birth to death\<close>

text \<open>
  From the wait on a task to its delete, as both \<open>containerLifecycle\<close> and \<open>execOnce\<close> do it: the latencies and the error it
  returned with, if any. Without an error the process is deleted.
\<close>

definition run_to_end :: "('w, 'f) benv \<Rightarrow> target \<Rightarrow> 'f ops \<Rightarrow> ('w, 'f ops \<times> err option) bgo" where
  "run_to_end x p ops = do {
     e \<leftarrow> bdo x (BWait False p);
     if e \<noteq> None then return_go (ops, e)
     else do {
       t \<leftarrow> ask (be_now x);
       e \<leftarrow> bdo x (BStart p);
       if e \<noteq> None then return_go (ops, e)
       else do {
         d \<leftarrow> msSince x t;
         let ops = AList.update ''start'' d ops;
         t \<leftarrow> ask (be_now x);
         st \<leftarrow> await_exit x p;
         case st of
           None \<Rightarrow> return_go (ops, Some ErrCanceled)
         | Some res \<Rightarrow> do {
             d \<leftarrow> msSince x t;
             let ops = AList.update ''run'' d ops;
             case res of
               Inl e \<Rightarrow> return_go (ops, Some e)
             | Inr code \<Rightarrow>
                 if code \<noteq> 0 then return_go (ops, Some (ErrOther ''exited''))
                 else do {
                   t \<leftarrow> ask (be_now x);
                   e \<leftarrow> bdo x (BDelete False p);
                   if e \<noteq> None then return_go (ops, e)
                   else do { d \<leftarrow> msSince x t; return_go (AList.update ''delete'' d ops, None) } } } } } }"

definition lookup_f :: "('w, 'f) benv \<Rightarrow> 'f ops \<Rightarrow> string \<Rightarrow> 'f" where
  "lookup_f x ops k = (case map_of ops k of Some v \<Rightarrow> v | None \<Rightarrow> f_ms x 0)"

definition total_of :: "('w, 'f) benv \<Rightarrow> string \<Rightarrow> 'f ops \<Rightarrow> 'f ops" where
  "total_of x first ops = AList.update ''total''
     (f_add x (f_add x (f_add x (lookup_f x ops first) (lookup_f x ops ''start'')) (lookup_f x ops ''run'')) (lookup_f x ops ''delete'')) ops"

text \<open>The part of \<open>containerLifecycle\<close> after the container was made; the flag says that it deleted the container itself.\<close>

definition with_task :: "('w, 'f) benv \<Rightarrow> string \<Rightarrow> bool \<Rightarrow> 'f ops \<Rightarrow> ('w, ('f ops \<times> err option) \<times> bool) bgo" where
  "with_task x i pty ops = do {
     t \<leftarrow> ask (be_now x);
     e \<leftarrow> bdo x (BNewTask i pty);
     d \<leftarrow> msSince x t;
     let ops = AList.update ''create'' d ops;
     if e \<noteq> None then return_go ((ops, e), False)
     else do {
       (ops, e) \<leftarrow> run_to_end x (TaskOf i) ops;
       if e \<noteq> None then do { killAndDelete x (TaskOf i); return_go ((ops, e), False) }
       else do {
         t \<leftarrow> ask (be_now x);
         e \<leftarrow> bdo x (BContainerDelete False i);
         if e \<noteq> None then return_go ((ops, e), False)
         else do {
           d \<leftarrow> msSince x t;
           return_go ((total_of x ''create'' (AList.update ''container_delete'' d ops), None), True) } } } }"

definition containerLifecycle :: "('w, 'f) benv \<Rightarrow> string \<Rightarrow> bool \<Rightarrow> ('w, 'f ops \<times> err option) bgo" where
  "containerLifecycle x rt tty = do {
     i \<leftarrow> uid x ''ctr'';
     io \<leftarrow> newIO x tty;
     case io of
       Inl e \<Rightarrow> return_go ([], Some e)
     | Inr pty \<Rightarrow> do {
         t \<leftarrow> ask (be_now x);
         e \<leftarrow> newContainer x rt i tty [''/bin/true''];
         d \<leftarrow> msSince x t;
         let ops = [(''container_new'', d)];
         r \<leftarrow> (if e \<noteq> None then return_go (ops, e)
              else do {
                (r, deleted) \<leftarrow> with_task x i pty ops;
                _ \<leftarrow> (if deleted then return_go None else bdo x (BContainerDelete True i));
                return_go r });
         io_cleanup x pty;
         return_go r } }"

definition execOnce :: "('w, 'f) benv \<Rightarrow> string \<Rightarrow> bool \<Rightarrow> ('w, 'f ops \<times> err option) bgo" where
  "execOnce x task tty = do {
     io \<leftarrow> newIO x tty;
     case io of
       Inl e \<Rightarrow> return_go ([], Some e)
     | Inr pty \<Rightarrow> do {
         execID \<leftarrow> uid x ''exec'';
         t \<leftarrow> ask (be_now x);
         e \<leftarrow> bdo x (BNewExec task execID tty [''/bin/true'']);
         d \<leftarrow> msSince x t;
         let ops = [(''exec_create'', d)];
         r \<leftarrow> (if e \<noteq> None then return_go (ops, e)
              else do {
                (ops, e) \<leftarrow> run_to_end x (ExecOf task execID) ops;
                if e \<noteq> None then do { killAndDelete x (ExecOf task execID); return_go (ops, e) }
                else return_go (total_of x ''exec_create'' ops, None) });
         io_cleanup x pty;
         return_go r } }"

subsection \<open>Containers that stay\<close>

definition longContainer :: "('w, 'f) benv \<Rightarrow> string \<Rightarrow> string \<Rightarrow> ('w, err option) bgo" where
  "longContainer x rt i = do {
     e \<leftarrow> newContainer x rt i False [''/bin/sleep'', ''3600''];
     if e \<noteq> None then return_go e
     else do {
       e \<leftarrow> bdo x (BNewTask i False);
       if e \<noteq> None then do { _ \<leftarrow> bdo x (BContainerDelete True i); return_go e }
       else do {
         e \<leftarrow> bdo x (BWait False (TaskOf i));
         e \<leftarrow> (if e \<noteq> None then return_go e else bdo x (BStart (TaskOf i)));
         if e \<noteq> None then do {
           _ \<leftarrow> bdo x (BDelete True (TaskOf i));
           _ \<leftarrow> bdo x (BContainerDelete True i);
           return_go e }
         else return_go None } } }"

text \<open>The function \<open>longContainer\<close> returns to tear its container down.\<close>

definition teardown :: "('w, 'f) benv \<Rightarrow> string \<Rightarrow> ('w, unit) bgo" where
  "teardown x i = do {
     _ \<leftarrow> bdo x (BKill True (TaskOf i));
     _ \<leftarrow> await_exit x (TaskOf i);
     _ \<leftarrow> bdo x (BDelete True (TaskOf i));
     _ \<leftarrow> bdo x (BContainerDelete True i);
     return_go () }"

fun teardowns :: "('w, 'f) benv \<Rightarrow> string list \<Rightarrow> ('w, unit) bgo" where
  "teardowns x [] = return_go ()"
| "teardowns x (i # is) = do { teardown x i; teardowns x is }"

text \<open>\<open>taskPool\<close>: the ids of the running containers, in order; \<open>teardowns\<close> of them is the clean-up it returns.\<close>

fun taskPool_from :: "('w, 'f) benv \<Rightarrow> string \<Rightarrow> string \<Rightarrow> nat \<Rightarrow> string list \<Rightarrow> ('w, string list result) bgo" where
  "taskPool_from x rt prefix 0 tasks = return_go (Inr tasks)"
| "taskPool_from x rt prefix (Suc n) tasks = do {
     i \<leftarrow> uid x prefix;
     e \<leftarrow> longContainer x rt i;
     case e of
       Some e \<Rightarrow> do { teardowns x tasks; return_go (Inl e) }
     | None \<Rightarrow> taskPool_from x rt prefix n (tasks @ [i]) }"

definition taskPool :: "('w, 'f) benv \<Rightarrow> string \<Rightarrow> string \<Rightarrow> int \<Rightarrow> ('w, string list result) bgo" where
  "taskPool x rt prefix n = taskPool_from x rt prefix (nat n) []"

subsection \<open>Leftovers\<close>

fun cleanup_each :: "('w, 'f) benv \<Rightarrow> string list \<Rightarrow> ('w, unit) bgo" where
  "cleanup_each x [] = return_go ()"
| "cleanup_each x (i # is) =
     (if \<not> HasPrefix i benchIDPrefix then cleanup_each x is
      else do {
        e \<leftarrow> bdo x (BLoadTask i);
        _ \<leftarrow> (if e \<noteq> None then return_go None
             else do {
               w \<leftarrow> bdo x (BWait False (TaskOf i));
               _ \<leftarrow> bdo x (BKill False (TaskOf i));
               _ \<leftarrow> (if w = None then await_exit x (TaskOf i) else return_go None);
               bdo x (BDelete False (TaskOf i)) });
        _ \<leftarrow> bdo x (BContainerDelete False i);
        cleanup_each x is })"

definition cleanupNamespace :: "('w, 'f) benv \<Rightarrow> ('w, unit) bgo" where
  "cleanupNamespace x = do {
     e \<leftarrow> bdo x BContainers;
     if e \<noteq> None then return_go ()
     else do { cs \<leftarrow> ask (be_ids x); cleanup_each x cs } }"

subsection \<open>What the driver holds\<close>

text \<open>
  Two readings of the log. \<open>track\<close> follows what the driver still answers for: the two halves of a pty, containers and their processes. It is \<open>None\<close> when a
  call uses what is not answered for, when a container is deleted before its processes were dealt with, a task before its execs, or the master of a pty before its slave. A
  delete settles the matter when it succeeds, or when it is the last resort, on a context that is not cancelled: the driver does not try again. Whether the thing
  is gone is the second reading, \<open>remains\<close>, in which only a delete that succeeded takes anything away.
\<close>

datatype res = RContainer string | RProc target | RMaster | RSlave

definition in_use :: "res set \<Rightarrow> target \<Rightarrow> bool" where
  "in_use S p = (case p of TaskOf i \<Rightarrow> (\<exists>r\<in>S. case r of RProc (ExecOf j _) \<Rightarrow> j = i | _ \<Rightarrow> False) | ExecOf _ _ \<Rightarrow> False)"

definition occupied :: "res set \<Rightarrow> string \<Rightarrow> bool" where
  "occupied S i = (\<exists>r\<in>S. case r of RProc p \<Rightarrow> container_of p = i | _ \<Rightarrow> False)"

definition acquire :: "bool \<Rightarrow> res \<Rightarrow> err option \<Rightarrow> res set \<Rightarrow> res set option" where
  "acquire ok r e S = (if e \<noteq> None then Some S else if ok \<and> r \<notin> S then Some (insert r S) else None)"

definition release :: "bool \<Rightarrow> res \<Rightarrow> bool \<Rightarrow> res set \<Rightarrow> res set option" where
  "release ok r gone S = (if \<not> ok \<or> r \<notin> S then None else if gone then Some (S - {r}) else Some S)"

fun track :: "bop \<times> err option \<Rightarrow> res set \<Rightarrow> res set option" where
  "track (BNewPty, e) S = acquire True RMaster e S"
| "track (BOpenSlave _, e) S = acquire (RMaster \<in> S) RSlave e S"
| "track (BCloseSlave, e) S = release True RSlave True S"
| "track (BCloseMaster, e) S = release (RSlave \<notin> S) RMaster True S"
| "track (BNewContainer _ i _ _, e) S = acquire True (RContainer i) e S"
| "track (BContainerDelete d i, e) S = release (\<not> occupied S i) (RContainer i) (d \<or> e = None) S"
| "track (BNewTask i _, e) S = acquire (RContainer i \<in> S) (RProc (TaskOf i)) e S"
| "track (BNewExec i j _ _, e) S = acquire (RProc (TaskOf i) \<in> S) (RProc (ExecOf i j)) e S"
| "track (BWait _ p, e) S = release True (RProc p) False S"
| "track (BStart p, e) S = release True (RProc p) False S"
| "track (BAwaitExit p, e) S = release True (RProc p) False S"
| "track (BKill _ p, e) S = release True (RProc p) False S"
| "track (BDelete d p, e) S = release (\<not> in_use S p) (RProc p) (d \<or> e = None) S"
| "track (BLoadTask _, e) S = Some S"
| "track (BContainers, e) S = Some S"

fun track_all :: "(bop \<times> err option) list \<Rightarrow> res set \<Rightarrow> res set option" where
  "track_all [] S = Some S"
| "track_all (c # cs) S = Option.bind (track c S) (track_all cs)"

lemma track_all_Nil [simp]: "track_all [] = Some"
  by (rule ext) simp

lemma track_all_append: "track_all (cs @ ds) S = Option.bind (track_all cs S) (track_all ds)"
  by (induction cs arbitrary: S) (auto simp: bind_eq_None_conv split: Option.bind_split)

fun makes :: "bop \<Rightarrow> res option" where
  "makes BNewPty = Some RMaster"
| "makes (BOpenSlave _) = Some RSlave"
| "makes (BNewContainer _ i _ _) = Some (RContainer i)"
| "makes (BNewTask i _) = Some (RProc (TaskOf i))"
| "makes (BNewExec i j _ _) = Some (RProc (ExecOf i j))"
| "makes _ = None"

text \<open>The thing a call deletes, and whether it is the last resort.\<close>

fun deleting :: "bop \<Rightarrow> (bool \<times> res) option" where
  "deleting (BContainerDelete d i) = Some (d, RContainer i)"
| "deleting (BDelete d p) = Some (d, RProc p)"
| "deleting _ = None"

fun closing :: "bop \<Rightarrow> res option" where
  "closing BCloseSlave = Some RSlave"
| "closing BCloseMaster = Some RMaster"
| "closing _ = None"

text \<open>What is there after a call. A file descriptor is gone after its close, whatever that returned.\<close>

definition after_call :: "bop \<times> err option \<Rightarrow> res set \<Rightarrow> res set" where
  "after_call c T = (case c of (k, e) \<Rightarrow>
     (case e of None \<Rightarrow> (T \<union> set_option (makes k)) - snd ` set_option (deleting k) | Some _ \<Rightarrow> T) - set_option (closing k))"

definition remains :: "(bop \<times> err option) list \<Rightarrow> res set \<Rightarrow> res set" where
  "remains cs T = fold after_call cs T"

text \<open>The things whose last resort failed, and that no later delete removed.\<close>

definition stranded :: "(bop \<times> err option) list \<Rightarrow> res set" where
  "stranded cs = {r. \<exists>as k e bs. cs = as @ (k, Some e) # bs \<and> deleting k = Some (True, r) \<and> (\<forall>k' d. (k', None) \<in> set bs \<longrightarrow> deleting k' \<noteq> Some (d, r))}"

lemma stranded_Nil [simp]: "stranded [] = {}"
  by (simp add: stranded_def)

lemma split_snoc:
  "(\<exists>as q f bs. cs @ [(k, e)] = as @ (q, Some f) # bs \<and> P q bs)
    \<longleftrightarrow> (\<exists>as q f bs. cs = as @ (q, Some f) # bs \<and> P q (bs @ [(k, e)])) \<or> (\<exists>f. e = Some f \<and> P k [])" (is "?a \<longleftrightarrow> ?b")
proof
  assume ?a
  then obtain as q f bs where q: "cs @ [(k, e)] = as @ (q, Some f) # bs" "P q bs" by blast
  then show ?b by (cases bs rule: rev_cases) auto
next
  assume ?b
  then show ?a
  proof (elim disjE exE conjE)
    fix as q f bs assume "cs = as @ (q, Some f) # bs" "P q (bs @ [(k, e)])"
    then show ?a by (intro exI [of _ as] exI [of _ q] exI [of _ f] exI [of _ "bs @ [(k, e)]"]) simp
  qed blast
qed

lemma mem_stranded_snoc:
  "r \<in> stranded (cs @ [(k, e)]) \<longleftrightarrow> r \<in> stranded cs \<and> \<not> (e = None \<and> (\<exists>d. deleting k = Some (d, r))) \<or> e \<noteq> None \<and> deleting k = Some (True, r)"
proof -
  define P where "P q bs \<longleftrightarrow> deleting q = Some (True, r) \<and> (\<forall>k' d. (k', None) \<in> set bs \<longrightarrow> deleting k' \<noteq> Some (d, r))" for q and bs :: "(bop \<times> err option) list"
  have mem: "r \<in> stranded ds \<longleftrightarrow> (\<exists>as q f bs. ds = as @ (q, Some f) # bs \<and> P q bs)" for ds by (simp add: stranded_def P_def)
  have later: "P q (bs @ [(k, e)]) \<longleftrightarrow> P q bs \<and> \<not> (e = None \<and> (\<exists>d. deleting k = Some (d, r)))" for q bs
    unfolding P_def set_append Un_iff by (simp only: list.set insert_iff empty_iff prod.inject) blast
  have "(\<exists>f. e = Some f \<and> P k []) \<longleftrightarrow> e \<noteq> None \<and> deleting k = Some (True, r)" by (simp add: P_def)
  then show ?thesis unfolding mem split_snoc later by blast
qed

lemma stranded_snoc:
  "stranded (cs @ [(k, e)]) = (if e = None then stranded cs - snd ` set_option (deleting k)
     else stranded cs \<union> {r. deleting k = Some (True, r)})"
  by (rule set_eqI) (cases "deleting k"; force simp: mem_stranded_snoc)

lemma stranded_deletable: "r \<in> stranded cs \<Longrightarrow> r \<noteq> RMaster \<and> r \<noteq> RSlave"
  by (auto simp: stranded_def elim!: deleting.elims)

lemma remains_snoc: "remains (cs @ [c]) T = after_call c (remains cs T)"
  by (simp add: remains_def)

text \<open>What is there is what the driver still answers for and what it failed to delete.\<close>

lemma track_after_call:
  assumes "track (k, e) S = Some S'" "T = S \<union> stranded cs"
  shows "after_call (k, e) T = S' \<union> stranded (cs @ [(k, e)])"
proof -
  have pty: "RMaster \<notin> stranded cs" "RSlave \<notin> stranded cs" using stranded_deletable by blast+
  show ?thesis using assms(1) unfolding assms(2)
    by (cases k; cases e; insert pty; simp add: after_call_def stranded_snoc acquire_def release_def split: if_splits; blast?)
qed

lemma track_all_remains: "track_all cs S = Some S' \<Longrightarrow> remains cs (S \<union> stranded bs) = S' \<union> stranded (bs @ cs)"
proof (induction cs arbitrary: S' rule: rev_induct)
  case (snoc c cs)
  then obtain S1 where "track_all cs S = Some S1" "track c S1 = Some S'" by (auto simp: track_all_append split: bind_splits)
  then show ?case using snoc.IH track_after_call [of "fst c" "snd c" S1 S' _ "bs @ cs"] by (simp add: remains_snoc)
qed (simp add: remains_def)

lemma remains_append: "remains (as @ bs) T = remains bs (remains as T)"
  by (simp add: remains_def)

subsection \<open>Programs seen through what they hold\<close>

text \<open>
  The state of a driver as \<open>track\<close> sees it from some moment on: what was added to the log of that moment, read from what was held then, and the counter of ids.
\<close>

definition view :: "(bop \<times> err option) list \<times> res set \<Rightarrow> 'w driver \<Rightarrow> res set option \<times> nat" where
  "view R s = (if take (length (fst R)) (bd_log s) = fst R then track_all (drop (length (fst R)) (bd_log s)) (snd R) else None, bd_seq s)"

lemma view_append: "bd_log s = fst R @ cs \<Longrightarrow> view R s = (track_all cs (snd R), bd_seq s)"
  by (simp add: view_def)

lemma view_some: "view R s = (Some S, n) \<longleftrightarrow> (\<exists>cs. bd_log s = fst R @ cs \<and> track_all cs (snd R) = Some S) \<and> bd_seq s = n"
  unfolding view_def by (auto split: if_splits) (metis append_take_drop_id)

lemma via_ask [via_rules]: "(\<And>r. Q r a) \<Longrightarrow> via (view R) a (ask f) Q"
  by (auto simp: via_def ask_def wp_def view_def split: prod.splits)

lemma via_bdo [via_rules]:
  fixes x :: "('w, 'f) benv"
  assumes "\<And>e. track (k, e) S \<noteq> None" and "\<And>e T. track (k, e) S = Some T \<Longrightarrow> Q e (Some T, n)"
  shows "via (view R) (Some S, n) (bdo x k) Q"
proof -
  have Q: "Q e (track (k, e) S, n)" for e using assms [of e] by (cases "track (k, e) S") auto
  show ?thesis unfolding via_def
  proof (intro allI impI, unfold view_some, elim conjE exE)
    fix s :: "'w driver" and cs assume s: "bd_log s = fst R @ cs" "track_all cs (snd R) = Some S" "bd_seq s = n"
    have v: "view R (s\<lparr>bd_world := w, bd_log := bd_log s @ [(k, e)]\<rparr>) = (track (k, e) S, n)" for e w
      by (subst view_append [of _ _ "cs @ [(k, e)]"]) (simp_all add: s track_all_append)
    show "wp (bdo x k) (\<lambda>r s'. Q r (view R s')) s" using Q by (auto simp: bdo_def wp_def v split: prod.splits)
  qed
qed

definition bench_id :: "string \<Rightarrow> nat \<Rightarrow> string" where
  "bench_id prefix n = benchIDPrefix @ prefix @ ''-'' @ show_nat n"

lemma bench_id_inject [simp]: "bench_id p m = bench_id p n \<longleftrightarrow> m = n"
  by (simp add: bench_id_def show_nat_inject)

lemma via_uid [via_rules]: "(\<And>m. n < m \<Longrightarrow> Q (bench_id p m) (a, m)) \<Longrightarrow> via (view R) (a, n) (uid x p) Q"
  unfolding uid_def
  by (rule via_rules)+ (auto simp: via_def wp_def view_def bench_id_def)

lemma via_msSince [via_rules]: "(\<And>r. Q r a) \<Longrightarrow> via (view R) a (msSince x t) Q"
  unfolding msSince_def by (intro via_rules)

subsection \<open>The pieces\<close>

lemmas hold_defs = acquire_def release_def

lemma via_await_exit [via_rules]:
  assumes "RProc p \<in> S" and "\<And>r. Q r (Some S, n)"
  shows "via (view R) (Some S, n) (await_exit x p) Q"
  unfolding await_exit_def by (intro via_rules) (use assms in \<open>auto simp: hold_defs\<close>)

lemma via_killAndDelete:
  assumes "RProc p \<in> S" "\<not> in_use S p" and "Q () (Some (S - {RProc p}), n)"
  shows "via (view R) (Some S, n) (killAndDelete x p) Q"
  unfolding killAndDelete_def by (intro via_rules) (use assms in \<open>auto simp: hold_defs\<close>)

text \<open>With a pty both its halves.\<close>

definition with_pty :: "bool \<Rightarrow> res set \<Rightarrow> res set" where
  "with_pty pty S = (if pty then insert RSlave (insert RMaster S) else S)"

lemma via_newIO:
  assumes "RMaster \<notin> S" "RSlave \<notin> S" and "\<And>e. Q (Inl e) (Some S, n)" and "\<And>pty. Q (Inr pty) (Some (with_pty pty S), n)"
  shows "via (view R) (Some S, n) (newIO x tty) Q"
  unfolding newIO_def
  by (intro via_rules) (use assms(1,2) assms(3) assms(4) [of False] assms(4) [of True] in \<open>auto simp: hold_defs with_pty_def split: if_splits\<close>)

lemma via_io_cleanup:
  assumes "RMaster \<notin> S" "RSlave \<notin> S" and "Q () (Some S, n)"
  shows "via (view R) (Some (with_pty pty S), n) (io_cleanup x pty) Q"
  unfolding io_cleanup_def
  by (intro via_rules) (use assms in \<open>auto simp: hold_defs with_pty_def split: if_splits\<close>)

lemma via_run_to_end:
  assumes "RProc p \<in> S" "\<not> in_use S p"
    and "\<And>ops e. Q (ops, Some e) (Some S, n)" and "\<And>ops. Q (ops, None) (Some (S - {RProc p}), n)"
  shows "via (view R) (Some S, n) (run_to_end x p ops) Q"
  unfolding run_to_end_def
  by (intro via_rules) (use assms in \<open>auto simp: hold_defs split: if_splits\<close>)

lemma use_insert [simp]:
  "occupied (insert (RContainer i) S) j = occupied S j" "occupied (insert (RProc p) S) j = (container_of p = j \<or> occupied S j)"
  "occupied (with_pty pty S) j = occupied S j"
  "in_use (insert (RContainer i) S) p = in_use S p" "in_use (insert (RProc (TaskOf i)) S) p = in_use S p"
  "in_use S (ExecOf i j) = False" "in_use (with_pty pty S) p = in_use S p"
  by (auto simp: occupied_def in_use_def with_pty_def split: target.splits res.splits)

lemma occupied_free: "\<not> occupied S i \<Longrightarrow> \<not> in_use S (TaskOf i) \<and> RProc (TaskOf i) \<notin> S"
  by (force simp: occupied_def in_use_def split: target.splits res.splits)

lemma with_pty_mem [simp]:
  "RContainer i \<in> with_pty pty S \<longleftrightarrow> RContainer i \<in> S" "RProc p \<in> with_pty pty S \<longleftrightarrow> RProc p \<in> S"
  "insert (RContainer i) (with_pty pty S) - {RContainer i} = with_pty pty (S - {RContainer i})"
  "insert (RProc p) (with_pty pty S) - {RProc p} = with_pty pty (S - {RProc p})"
  by (auto simp: with_pty_def)

text \<open>After the container was made: on success nothing of it is left, else the container alone.\<close>

lemma via_with_task:
  assumes "RContainer i \<in> S" "\<not> occupied S i"
    and "\<And>r. Q (r, False) (Some S, n)" and "\<And>r. Q (r, True) (Some (S - {RContainer i}), n)"
  shows "via (view R) (Some S, n) (with_task x i pty ops) Q"
  unfolding with_task_def
  by (intro via_rules via_run_to_end via_killAndDelete)
    (use assms occupied_free [OF assms(2)] in \<open>auto simp: hold_defs split: if_splits\<close>)

lemma via_containerLifecycle:
  assumes "RMaster \<notin> S" "RSlave \<notin> S" and "\<And>m. n < m \<Longrightarrow> RContainer (bench_id ''ctr'' m) \<notin> S \<and> \<not> occupied S (bench_id ''ctr'' m)"
    and "\<And>r m. n < m \<Longrightarrow> Q r (Some S, m)"
  shows "via (view R) (Some S, n) (containerLifecycle x rt tty) Q"
  unfolding containerLifecycle_def newContainer_def
  by (intro via_rules via_newIO via_with_task)
    (use assms in \<open>auto simp: hold_defs intro!: via_io_cleanup via_return split: if_splits\<close>)

lemma via_execOnce:
  assumes "RMaster \<notin> S" "RSlave \<notin> S" "RProc (TaskOf t) \<in> S" and "\<And>m. n < m \<Longrightarrow> RProc (ExecOf t (bench_id ''exec'' m)) \<notin> S"
    and "\<And>r m. n \<le> m \<Longrightarrow> Q r (Some S, m)"
  shows "via (view R) (Some S, n) (execOnce x t tty) Q"
  unfolding execOnce_def
  by (intro via_rules via_newIO via_run_to_end via_killAndDelete)
    (use assms in \<open>auto simp: hold_defs intro!: via_io_cleanup via_return split: if_splits\<close>)

lemma via_longContainer:
  assumes "RContainer i \<notin> S" "\<not> occupied S i"
    and "\<And>e. Q (Some e) (Some S, n)" and "Q None (Some (insert (RProc (TaskOf i)) (insert (RContainer i) S)), n)"
  shows "via (view R) (Some S, n) (longContainer x rt i) Q"
  unfolding longContainer_def newContainer_def
  by (intro via_rules) (use assms occupied_free [OF assms(2)] in \<open>auto simp: hold_defs split: if_splits\<close>)

text \<open>The containers of a pool, each with its task.\<close>

fun pool :: "string list \<Rightarrow> res set" where
  "pool [] = {}"
| "pool (i # is) = insert (RProc (TaskOf i)) (insert (RContainer i) (pool is))"

lemma pool_append [simp]: "pool (is @ js) = pool is \<union> pool js"
  by (induction "is") auto

lemma pool_mem [simp]:
  "RContainer i \<in> pool is \<longleftrightarrow> i \<in> set is" "RProc p \<in> pool is \<longleftrightarrow> p \<in> TaskOf ` set is" "RMaster \<notin> pool is" "RSlave \<notin> pool is"
  by (induction "is") auto

lemma pool_use [simp]:
  "occupied (S \<union> pool is) i = (occupied S i \<or> i \<in> set is)" "in_use (S \<union> pool is) p = in_use S p"
  by (induction "is") (auto simp: occupied_def in_use_def split: target.splits)

lemma via_teardown:
  assumes "RContainer i \<notin> S" "\<not> occupied S i" and "Q () (Some S, n)"
  shows "via (view R) (Some (insert (RProc (TaskOf i)) (insert (RContainer i) S)), n) (teardown x i) Q"
  unfolding teardown_def
  by (intro via_rules) (use assms occupied_free [OF assms(2)] in \<open>auto simp: hold_defs\<close>)

lemma via_teardowns:
  assumes "distinct is" "\<And>i. i \<in> set is \<Longrightarrow> RContainer i \<notin> S \<and> \<not> occupied S i" and "Q () (Some S, n)"
  shows "via (view R) (Some (S \<union> pool is), n) (teardowns x is) Q"
  using assms
proof (induction "is")
  case (Cons i "is")
  have "via (view R) (Some (S \<union> pool is), n) (teardowns x is) Q" using Cons by simp
  then show ?case using Cons.prems by (auto intro!: via_bind via_teardown)
qed (simp add: via_return)

lemma via_taskPool_from:
  assumes "\<And>i. i \<in> set is \<Longrightarrow> \<exists>k\<le>n. i = bench_id p k"
    and "distinct is" "\<And>i. i \<in> set is \<Longrightarrow> RContainer i \<notin> S \<and> \<not> occupied S i"
    and "\<And>m. n < m \<Longrightarrow> RContainer (bench_id p m) \<notin> S \<and> \<not> occupied S (bench_id p m)"
    and "\<And>e m. n \<le> m \<Longrightarrow> Q (Inl e) (Some S, m)"
    and "\<And>js m. n \<le> m \<Longrightarrow> length js = length is + k \<Longrightarrow> distinct js \<Longrightarrow> (\<And>i. i \<in> set js \<Longrightarrow> RContainer i \<notin> S \<and> \<not> occupied S i)
         \<Longrightarrow> (\<And>i. i \<in> set js \<Longrightarrow> \<exists>k\<le>m. i = bench_id p k) \<Longrightarrow> Q (Inr js) (Some (S \<union> pool js), m)"
  shows "via (view R) (Some (S \<union> pool is), n) (taskPool_from x rt p k is) Q"
  using assms
proof (induction k arbitrary: "is" n)
  case 0
  then show ?case by (simp add: via_return)
next
  case (Suc k)
  have new: "bench_id p m \<notin> set is" if "n < m" for m
    using Suc.prems(1) [of "bench_id p m"] that by auto
  have IH: "via (view R) (Some (S \<union> pool (is @ [bench_id p m])), m) (taskPool_from x rt p k (is @ [bench_id p m])) Q" if m: "n < m" for m
  proof (rule Suc.IH)
    show "\<exists>k\<le>m. i = bench_id p k" if "i \<in> set (is @ [bench_id p m])" for i
      using that Suc.prems(1) [of i] m by (auto intro: order_trans less_imp_le)
  qed (use m Suc.prems(2-6) new in auto)
  then show ?case unfolding taskPool_from.simps
    by (intro via_rules via_longContainer) (use Suc.prems(2-6) new in \<open>auto intro!: via_teardowns via_return\<close>)
qed

text \<open>The number in an id is the number it was made with, whatever the prefix.\<close>

lemma bench_id_number: "bench_id p m = bench_id q n \<Longrightarrow> m = n"
proof -
  have "takeWhile is_digit (rev (bench_id p m)) = rev (show_nat m)" for p m
  proof -
    have "\<forall>c\<in>set (rev (show_nat m)). is_digit c" using show_nat_digits [of m] by (simp add: list_all_iff)
    then have "takeWhile is_digit (rev (show_nat m) @ CHR ''-'' # t) = rev (show_nat m)" for t
      by (simp add: takeWhile_append is_digit_def)
    then show ?thesis by (simp add: bench_id_def)
  qed
  then show "bench_id p m = bench_id q n \<Longrightarrow> m = n" by (metis rev_rev_ident show_nat_inject)
qed

subsection \<open>Nothing is left behind\<close>

text \<open>What the driver holds when it held \<open>R\<close> at first, and that no id of the harness to come is in use.\<close>

definition held :: "res set \<Rightarrow> 'w driver \<Rightarrow> res set option" where
  "held R s = track_all (bd_log s) R"

definition fresh :: "nat \<Rightarrow> res set \<Rightarrow> bool" where
  "fresh n S \<longleftrightarrow> (\<forall>p m. n < m \<longrightarrow> RContainer (bench_id p m) \<notin> S \<and> \<not> occupied S (bench_id p m) \<and> (\<forall>t. RProc (ExecOf t (bench_id p m)) \<notin> S))"

text \<open>
  Whatever containerd, the pty layer, the clock and the processes do, a run of \<open>containerLifecycle\<close> or \<open>execOnce\<close> ends answering for
  exactly what it began with: each half of a pty was closed, and for each container, task and exec it made a delete succeeded or the last resort, on a context that is
  not cancelled, was tried, processes before their containers and execs before their task; nothing is used before it was made or after it was dealt with. A \<open>taskPool\<close> that fails has torn down the containers it had; one that succeeds holds as many new containers as
  were asked for, and its clean-up deals with all of them. What is then left of them is what the last resort failed to delete (\<open>track_all_remains\<close>).
\<close>

theorem bench_cleans_up:
  assumes "held R s = Some S" "fresh (bd_seq s) S" "RMaster \<notin> S" "RSlave \<notin> S"
  shows "held R (snd (run_state (containerLifecycle x rt tty) s)) = Some S
    \<and> (RProc (TaskOf t) \<in> S \<longrightarrow> held R (snd (run_state (execOnce x t tty) s)) = Some S)
    \<and> (case run_state (taskPool x rt p k) s of
         (Inl e, s') \<Rightarrow> held R s' = Some S
       | (Inr is, s') \<Rightarrow> length is = nat k \<and> distinct is \<and> held R s' = Some (S \<union> pool is)
           \<and> held R (snd (run_state (teardowns x is) s')) = Some S)"
proof (intro conjI impI)
  have v: "view ([], R) s = (Some S, bd_seq s)" using assms(1) by (simp add: view_def held_def)
  have f: "RContainer (bench_id p m) \<notin> S \<and> \<not> occupied S (bench_id p m) \<and> RProc (ExecOf t (bench_id p m)) \<notin> S" if "bd_seq s < m" for p m
    using assms(2) that by (simp add: fresh_def)
  have "via (view ([], R)) (view ([], R) s) (containerLifecycle x rt tty) (\<lambda>r b. fst b = Some S)"
    unfolding v by (rule via_containerLifecycle) (use assms(3,4) f in auto)
  from viaD [OF this] show "held R (snd (run_state (containerLifecycle x rt tty) s)) = Some S"
    by (cases "run_state (containerLifecycle x rt tty) s") (simp add: view_def held_def)
  show "held R (snd (run_state (execOnce x t tty) s)) = Some S" if t: "RProc (TaskOf t) \<in> S"
  proof -
    have "via (view ([], R)) (view ([], R) s) (execOnce x t tty) (\<lambda>r b. fst b = Some S)"
      unfolding v by (rule via_execOnce) (use assms(3,4) f t in auto)
    from viaD [OF this] show ?thesis
      by (cases "run_state (execOnce x t tty) s") (simp add: view_def held_def)
  qed
  let ?Q = "\<lambda>r b. case r of Inl e \<Rightarrow> fst b = Some S | Inr is \<Rightarrow> length is = nat k \<and> distinct is \<and> fst b = Some (S \<union> pool is)
    \<and> (\<forall>i\<in>set is. RContainer i \<notin> S \<and> \<not> occupied S i)"
  have "via (view ([], R)) (Some (S \<union> pool []), bd_seq s) (taskPool_from x rt p (nat k) []) ?Q"
    by (rule via_taskPool_from) (use f in auto)
  then have "via (view ([], R)) (view ([], R) s) (taskPool x rt p k) ?Q" by (simp add: v taskPool_def)
  from viaD [OF this] have q: "?Q r (view ([], R) s')" if "run_state (taskPool x rt p k) s = (r, s')" for r s' using that by blast
  have "held R (snd (run_state (teardowns x is) s')) = Some S" if "run_state (taskPool x rt p k) s = (Inr is, s')" for "is" s'
  proof -
    have "via (view ([], R)) (view ([], R) s') (teardowns x is) (\<lambda>r b. fst b = Some S)"
      using q [OF that] by (auto simp: view_def [of "([], R)" s'] intro!: via_teardowns)
    from viaD [OF this] show ?thesis by (cases "run_state (teardowns x is) s'") (simp add: view_def held_def)
  qed
  then show "case run_state (taskPool x rt p k) s of (Inl e, s') \<Rightarrow> held R s' = Some S
    | (Inr is, s') \<Rightarrow> length is = nat k \<and> distinct is \<and> held R s' = Some (S \<union> pool is) \<and> held R (snd (run_state (teardowns x is) s')) = Some S"
    using q by (cases "run_state (taskPool x rt p k) s") (auto simp: view_def held_def split: sum.splits)
qed

text \<open>The outside of an example: the task's start fails, and so does the first delete of a container.\<close>

definition demo_bench :: "(nat, int) benv" where
  "demo_bench = \<lparr> be_do = (\<lambda>k w. (case k of BStart _ \<Rightarrow> Some ErrCanceled | BContainerDelete False _ \<Rightarrow> Some ErrCanceled | _ \<Rightarrow> None, w + 1)),
     be_exit = (\<lambda>p w. (None, w)), be_pty = (\<lambda>w. (''/dev/pts/0'', w)), be_ids = (\<lambda>w. ([''bench-ctr-1'', ''web''], w)), be_now = (\<lambda>w. (int w, w)), be_jump = (\<lambda>w. (2, w)),
     f_ms = (\<lambda>d. d), f_add = (+) \<rparr>"

theorem bench_cleans_up_witness:
  "let s = \<lparr>bd_world = 0, bd_seq = 4, bd_log = []\<rparr>; S = pool [''c0'']
   in held S s = Some S \<and> fresh (bd_seq s) S \<and> RMaster \<notin> S \<and> RSlave \<notin> S
    \<and> held S (snd (run_state (containerLifecycle demo_bench ''rt'' True) s)) = Some S
    \<and> held S (snd (run_state (execOnce demo_bench ''c0'' True) s)) = Some S
    \<and> (case run_state (taskPool demo_bench ''rt'' ''p'' 2) s of (Inl e, s') \<Rightarrow> held S s' = Some S | (Inr is, s') \<Rightarrow> length is = nat 2 \<and> distinct is \<and> held S s' = Some (S \<union> pool is)
           \<and> held S (snd (run_state (teardowns demo_bench is) s')) = Some S)"
proof -
  let ?s = "\<lparr>bd_world = 0, bd_seq = 4, bd_log = []\<rparr>" and ?S = "pool [''c0'']"
  have 1: "held ?S ?s = Some ?S" by (simp add: held_def)
  have 2: "fresh (bd_seq ?s) ?S" by (simp add: fresh_def bench_id_def benchIDPrefix_def occupied_def)
  have 3: "RMaster \<notin> ?S" "RSlave \<notin> ?S" "RProc (TaskOf ''c0'') \<in> ?S" by simp_all
  show ?thesis unfolding Let_def
    using bench_cleans_up [OF 1 2 3(1,2), where x = demo_bench and rt = "''rt''" and tty = True and t = "''c0''" and p = "''p''" and k = 2] 1 2 3 by (simp del: pool.simps)
qed

subsection \<open>The clean-up of a namespace\<close>

fun concerns :: "bop \<Rightarrow> string option" where
  "concerns (BLoadTask i) = Some i"
| "concerns (BContainerDelete d i) = Some i"
| "concerns (BWait d p) = Some (container_of p)"
| "concerns (BAwaitExit p) = Some (container_of p)"
| "concerns (BKill d p) = Some (container_of p)"
| "concerns (BDelete d p) = Some (container_of p)"
| "concerns (BNewContainer rt i tty args) = Some i"
| "concerns (BNewTask i t) = Some i"
| "concerns (BNewExec i j t args) = Some i"
| "concerns (BStart p) = Some (container_of p)"
| "concerns _ = None"

fun deletes :: "(bop \<times> err option) list \<Rightarrow> string list" where
  "deletes [] = []"
| "deletes ((BContainerDelete d i, e) # cs) = i # deletes cs"
| "deletes (c # cs) = deletes cs"

lemma deletes_append [simp]: "deletes (cs @ ds) = deletes cs @ deletes ds"
  by (induction cs rule: deletes.induct) simp_all

abbreviation own :: "string \<Rightarrow> bool" where
  "own i \<equiv> HasPrefix i benchIDPrefix"

definition spares :: "(bop \<times> err option) list \<Rightarrow> bool" where
  "spares = list_all (\<lambda>(k, e). case concerns k of Some i \<Rightarrow> own i | None \<Rightarrow> True)"

lemma logs_run: "logs log m Q \<Longrightarrow> \<exists>cs. log (snd (run_state m s)) = log s @ cs \<and> Q (fst (run_state m s)) cs"
  by (cases "run_state m s") (auto simp: logs_def wp_def dest: spec [of _ s])

lemma logs_ask [hp_rules]: "(\<And>r. Q r []) \<Longrightarrow> logs bd_log (ask f) Q"
  by (auto simp: logs_def ask_def wp_def split: prod.splits)

lemma logs_bdo [hp_rules]: "(\<And>e. Q e [(k, e)]) \<Longrightarrow> logs bd_log (bdo x k) Q"
  by (auto simp: logs_def bdo_def wp_def split: prod.splits)

lemma logs_await_exit [hp_rules]: "(\<And>r e. Q r [(BAwaitExit p, e)]) \<Longrightarrow> logs bd_log (await_exit x p) Q"
  unfolding await_exit_def by (intro hp_rules) simp

text \<open>The calls of a clean-up make nothing and close nothing, and none of their deletes is a last resort.\<close>

definition sweeps :: "(bop \<times> err option) list \<Rightarrow> bool" where
  "sweeps = list_all (\<lambda>(k, e). makes k = None \<and> closing k = None \<and> (\<forall>r. deleting k \<noteq> Some (True, r)))"

lemma sweeps_remains: "sweeps cs \<Longrightarrow> remains cs (stranded bs) = stranded (bs @ cs)"
proof (induction cs rule: rev_induct)
  case (snoc c cs)
  then show ?case using stranded_snoc [of "bs @ cs" "fst c" "snd c"]
    by (cases c; cases "snd c") (simp_all add: remains_snoc after_call_def sweeps_def)
qed (simp add: remains_def)

lemma logs_cleanup_each: "logs bd_log (cleanup_each x is) (\<lambda>_ cs. spares cs \<and> sweeps cs \<and> deletes cs = filter own is)"
proof (induction "is")
  case (Cons i "is")
  note IH = logs_mono [OF Cons.IH]
  show ?case unfolding cleanup_each.simps by (intro hp_rules; (rule IH)?) (auto simp: spares_def sweeps_def)
qed (simp add: logs_return spares_def sweeps_def)

lemma own_bench_id: "own (bench_id p n)"
  by (simp add: bench_id_def)

text \<open>
  \<open>cleanupNamespace\<close> never asks anything of a container whose id does not carry the harness's prefix, and of the others, in the order containerd
  listed them, it deletes each exactly once, whatever the calls before answered. Every id \<open>uid\<close> makes carries the prefix, so that what a run left is among
  what the next one removes.
\<close>

theorem cleanup_only_own:
  "\<exists>cs. bd_log (snd (run_state (cleanupNamespace x) s)) = bd_log s @ cs \<and> spares cs
     \<and> deletes cs = (case be_do x BContainers (bd_world s) of (Some e, w) \<Rightarrow> [] | (None, w) \<Rightarrow> filter own (fst (be_ids x w)))
     \<and> own (fst (run_state (uid x p) s))"
proof -
  have u: "own (fst (run_state (uid x p) s))"
    by (simp add: uid_def ask_def split: prod.splits)
  obtain e w where e: "be_do x BContainers (bd_world s) = (e, w)" by force
  define s1 where "s1 = s\<lparr>bd_log := bd_log s @ [(BContainers, e)], bd_world := snd (be_ids x w)\<rparr>"
  obtain cs where "bd_log (snd (run_state (cleanup_each x (fst (be_ids x w))) s1)) = bd_log s1 @ cs"
    "spares cs" "deletes cs = filter own (fst (be_ids x w))"
    using logs_run [OF logs_cleanup_each, of x "fst (be_ids x w)" s1] by auto
  then show ?thesis using u e
    by (cases e) (auto intro!: exI [of _ "(BContainers, e) # cs"] simp: cleanupNamespace_def bdo_def ask_def s1_def spares_def split: prod.splits)
qed

end
