(* ===== verification/Batch.thy ===== *)
theory Batch
  imports Machine
begin

text \<open>
  The worker pool of the benchmark (\<open>runConcurrentN\<close> in \<open>contrib/bench/driver.go\<close>): a loop that starts a goroutine per invocation, a buffered channel
  as a semaphore, a mutex around the collected samples and a wait group. The steps of the loop and of the goroutines interleave in any order.
\<close>

subsection \<open>States and steps\<close>

text \<open>The loop before a send on the semaphore, between it and the start of the goroutine, and after it; then the function has returned.\<close>

datatype pc = AtSend | AtGo | Returned

text \<open>
  The goroutines are told apart only by where they are: in \<open>fn\<close>, past the mutex, and past the receive on the semaphore that the deferred function makes; only
  then does \<open>wg.Go\<close> count them as done. \<open>b_results\<close> keeps what the invocations returned, in the order they took the mutex.
\<close>

record 'f batch =
  b_pc :: pc
  b_left :: nat
  b_sem :: nat
  b_running :: nat
  b_recorded :: nat
  b_released :: nat
  b_raw :: "string \<Rightarrow> 'f list"
  b_errs :: nat
  b_results :: "((string \<times> 'f) list \<times> bool) list"

definition b_wg :: "'f batch \<Rightarrow> nat" where
  "b_wg b = b_running b + b_recorded b + b_released b"

text \<open>The capacity of the semaphore and the state at the head of the loop; \<open>for range total\<close> runs not at all for a negative \<open>total\<close>.\<close>

definition slots :: "int \<Rightarrow> nat" where
  "slots parallel = nat (if parallel < 1 then 1 else parallel)"

definition batch_start :: "int \<Rightarrow> 'f batch" where
  "batch_start tot = \<lparr>b_pc = AtSend, b_left = nat tot, b_sem = 0, b_running = 0, b_recorded = 0, b_released = 0, b_raw = (\<lambda>_. []), b_errs = 0, b_results = []\<rparr>"

text \<open>\<open>raw[k] = append(raw[k], v)\<close> for every entry of the map an invocation returned.\<close>

definition add_ops :: "(string \<times> 'f) list \<Rightarrow> (string \<Rightarrow> 'f list) \<Rightarrow> string \<Rightarrow> 'f list" where
  "add_ops ops raw k = raw k @ (case map_of ops k of None \<Rightarrow> [] | Some v \<Rightarrow> [v])"

datatype 'f act = Send | Go | Finish "(string \<times> 'f) list" bool | Receive | Done | Return

fun batch_step :: "int \<Rightarrow> 'f act \<Rightarrow> 'f batch \<Rightarrow> 'f batch option" where
  "batch_step parallel Send b =
     (if b_pc b = AtSend \<and> 0 < b_left b \<and> b_sem b < slots parallel
      then Some (b\<lparr>b_pc := AtGo, b_left := b_left b - 1, b_sem := b_sem b + 1\<rparr>) else None)"
| "batch_step parallel Go b =
     (if b_pc b = AtGo then Some (b\<lparr>b_pc := AtSend, b_running := b_running b + 1\<rparr>) else None)"
| "batch_step parallel (Finish ops failed) b =
     (if 0 < b_running b
      then Some (b\<lparr>b_running := b_running b - 1, b_recorded := b_recorded b + 1,
                   b_raw := add_ops ops (b_raw b), b_errs := (if failed then b_errs b + 1 else b_errs b),
                   b_results := b_results b @ [(ops, failed)]\<rparr>) else None)"
| "batch_step parallel Receive b =
     (if 0 < b_recorded b \<and> 0 < b_sem b
      then Some (b\<lparr>b_sem := b_sem b - 1, b_recorded := b_recorded b - 1, b_released := b_released b + 1\<rparr>) else None)"
| "batch_step parallel Done b =
     (if 0 < b_released b then Some (b\<lparr>b_released := b_released b - 1\<rparr>) else None)"
| "batch_step parallel Return b =
     (if b_pc b = AtSend \<and> b_left b = 0 \<and> b_wg b = 0 then Some (b\<lparr>b_pc := Returned\<rparr>) else None)"

definition runConcurrentN :: "int \<Rightarrow> 'f act list \<Rightarrow> 'f batch \<Rightarrow> 'f batch option" where
  "runConcurrentN parallel = run_acts (batch_step parallel)"

subsection \<open>Its invariant\<close>

definition samples :: "string \<Rightarrow> ((string \<times> 'f) list \<times> bool) list \<Rightarrow> 'f list" where
  "samples k rs = concat (map (\<lambda>(ops, _). case map_of ops k of None \<Rightarrow> [] | Some v \<Rightarrow> [v]) rs)"

text \<open>How many steps a state has still to make.\<close>

definition todo :: "'f batch \<Rightarrow> nat" where
  "todo b = 5 * b_left b + (if b_pc b = AtGo then 4 else 0) + 3 * b_running b + 2 * b_recorded b + b_released b + (if b_pc b = Returned then 0 else 1)"

definition batch_inv :: "int \<Rightarrow> int \<Rightarrow> 'f batch \<Rightarrow> bool" where
  "batch_inv tot parallel b \<longleftrightarrow>
     b_sem b = b_running b + b_recorded b + (if b_pc b = AtGo then 1 else 0)
     \<and> b_sem b \<le> slots parallel
     \<and> length (b_results b) + b_running b + (if b_pc b = AtGo then 1 else 0) + b_left b = nat tot
     \<and> b_errs b = length (filter snd (b_results b))
     \<and> (\<forall>k. b_raw b k = samples k (b_results b))
     \<and> (b_pc b = Returned \<longrightarrow> b_left b = 0 \<and> b_wg b = 0)"

lemma batch_inv_start: "batch_inv tot parallel (batch_start tot)"
  by (simp add: batch_inv_def batch_start_def samples_def)

lemma batch_inv_step:
  assumes "batch_inv tot parallel b" "batch_step parallel a b = Some b'"
  shows "batch_inv tot parallel b' \<and> Suc (todo b') = todo b"
proof (cases a)
  case (Finish ops failed)
  with assms show ?thesis
    by (clarsimp simp: batch_inv_def todo_def b_wg_def add_ops_def samples_def split: if_split_asm) auto
qed (use assms in \<open>clarsimp simp: batch_inv_def todo_def b_wg_def split: if_split_asm; arith?\<close>)+

interpretation bm: ranked_machine "batch_step parallel" "batch_inv tot parallel" todo for parallel tot
  by unfold_locales (use batch_inv_step in blast)+

text \<open>Unless the function has returned, the loop or a goroutine can go on; with a goroutine in \<open>fn\<close>, as soon as \<open>fn\<close> returns, whatever it returns.\<close>

lemma batch_progress:
  assumes "batch_inv tot parallel b" "b_pc b \<noteq> Returned"
  shows "\<exists>a\<in>{Send, Go, Receive, Done, Return, Finish ops failed}. batch_step parallel a b \<noteq> None \<and> (b_running b = 0 \<longrightarrow> a \<noteq> Finish ops failed)"
  using assms by (cases "b_pc b") (auto simp: batch_inv_def b_wg_def slots_def)

text \<open>
  C32: In every interleaving \<open>runConcurrentN\<close> has at most \<open>parallel\<close> invocations of \<open>fn\<close> in flight (one, for a \<open>parallel\<close> below one); the error count
  and the samples per operation are those of the invocations that returned, in the order they took the mutex; it never deadlocks; and it makes exactly
  five steps per invocation and one to return, so that it returns, after exactly \<open>total\<close> invocations, with the semaphore empty and no goroutine left.
\<close>

theorem runConcurrentN_correct:
  fixes b :: "'f batch"
  assumes run: "runConcurrentN parallel acts (batch_start tot) = Some b"
  shows "b_running b + b_recorded b \<le> max 1 (nat parallel)
    \<and> b_errs b = length (filter snd (b_results b)) \<and> (\<forall>k. b_raw b k = samples k (b_results b))
    \<and> length acts \<le> 5 * nat tot + 1
    \<and> (if b_pc b = Returned
       then length acts = 5 * nat tot + 1 \<and> length (b_results b) = nat tot \<and> b_sem b = 0 \<and> b_wg b = 0
       else \<exists>a\<in>{Send, Go, Receive, Done, Return, Finish ops failed}. batch_step parallel a b \<noteq> None \<and> (b_running b = 0 \<longrightarrow> a \<noteq> Finish ops failed))"
proof -
  have inv: "batch_inv tot parallel b" and len: "length acts + todo b = 5 * nat tot + 1"
    using bm.inv_run [OF batch_inv_start run [unfolded runConcurrentN_def]] bm.rank_run [OF batch_inv_start run [unfolded runConcurrentN_def]]
    by (simp_all add: todo_def batch_start_def)
  have ret: "length acts = 5 * nat tot + 1 \<and> length (b_results b) = nat tot \<and> b_sem b = 0 \<and> b_wg b = 0" if "b_pc b = Returned"
    using inv len that by (auto simp: batch_inv_def b_wg_def todo_def)
  have "b_running b + b_recorded b \<le> max 1 (nat parallel)"
    using inv by (auto simp: batch_inv_def slots_def split: if_splits)
  then show ?thesis using inv len ret batch_progress [OF inv, of ops failed] by (simp add: batch_inv_def)
qed

theorem runConcurrentN_correct_witness:
  "\<exists>b. runConcurrentN 2 [Send, Go, Send, Go, Finish [(''total'', 7)] False, Receive, Send, Finish [] True, Done, Go, Receive, Done,
       Finish [(''total'', 9)] False, Receive, Done, Return] (batch_start 3 :: int batch) = Some b
    \<and> b_pc b = Returned \<and> b_errs b = 1 \<and> b_raw b ''total'' = [7, 9] \<and> length (b_results b) = nat 3 \<and> b_sem b = 0 \<and> b_wg b = 0"
  (is "\<exists>b. ?run = Some b \<and> _")
proof -
  have "\<exists>b. ?run = Some b \<and> b_pc b = Returned \<and> b_errs b = 1 \<and> b_raw b ''total'' = [7, 9]"
    by (simp add: runConcurrentN_def batch_start_def slots_def b_wg_def add_ops_def)
  then obtain b where run: "?run = Some b" and b: "b_pc b = Returned" "b_errs b = 1" "b_raw b ''total'' = [7, 9]" by blast
  with runConcurrentN_correct [OF run] have "length (b_results b) = nat 3" "b_sem b = 0" "b_wg b = 0" by auto
  with run b show ?thesis by blast
qed


end
