(* ===== verification/Sampler.thy ===== *)
theory Sampler
  imports Go_Strings
begin

text \<open>
  The resource sampler of the benchmark (\<open>contrib/bench/sample.go\<close>): the readers of the files under \<open>/proc\<close>, the classification of
  processes, the passes that attribute processor time and memory to categories, and the summary of a window.
\<close>

subsection \<open>Strings\<close>

text \<open>\<open>strings.Split\<close> and \<open>strings.SplitSeq\<close> at a character, and \<open>strings.Fields\<close>.\<close>

fun Split :: "string \<Rightarrow> char \<Rightarrow> string list" where
  "Split [] c = [[]]"
| "Split (d # ds) c = (if d = c then [] # Split ds c else case Split ds c of [] \<Rightarrow> [[d]] | f # fs \<Rightarrow> (d # f) # fs)"

fun Fields_from :: "string \<Rightarrow> string \<Rightarrow> string list" where
  "Fields_from acc [] = (if acc = [] then [] else [rev acc])"
| "Fields_from acc (c # cs) =
     (if is_space c then (if acc = [] then Fields_from [] cs else rev acc # Fields_from [] cs) else Fields_from (c # acc) cs)"

definition Fields :: "string \<Rightarrow> string list" where
  "Fields s = Fields_from [] s"

text \<open>The text between the first opening and the last closing parenthesis, and what follows; \<open>None\<close> when there is no such pair.\<close>

definition parens :: "string \<Rightarrow> (string \<times> string) option" where
  "parens s =
     (let lp = length (takeWhile (\<lambda>c. c \<noteq> CHR ''('') s);
          after = length (takeWhile (\<lambda>c. c \<noteq> CHR '')'') (rev s));
          rp = length s - Suc after
      in if CHR ''('' \<notin> set s \<or> CHR '')'' \<notin> set s \<or> rp < lp then None
         else Some (take (rp - Suc lp) (drop (Suc lp) s), drop (Suc rp) s))"

subsection \<open>What a pass reads\<close>

text \<open>
  The machine's floating point numbers are a type of their own, with the operations the sampler uses of them.
\<close>

record 'f floats =
  fl_parse :: "string \<Rightarrow> 'f option"
  fl_num :: "int \<Rightarrow> 'f"
  fl_seconds :: "time \<Rightarrow> 'f"
  fl_add :: "'f \<Rightarrow> 'f \<Rightarrow> 'f"
  fl_sub :: "'f \<Rightarrow> 'f \<Rightarrow> 'f"
  fl_mul :: "'f \<Rightarrow> 'f \<Rightarrow> 'f"
  fl_div :: "'f \<Rightarrow> 'f \<Rightarrow> 'f"
  fl_le :: "'f \<Rightarrow> 'f \<Rightarrow> bool"
  fl_lt :: "'f \<Rightarrow> 'f \<Rightarrow> bool"

text \<open>
  What the outside shows to one pass: the time, the entries of \<open>/proc\<close> with whether they are directories, and the files. A pass reads no
  file twice, so that a function from paths says all it can see.
\<close>

record proc =
  pr_now :: time
  pr_dir :: "(string \<times> bool) list option"
  pr_file :: "string \<Rightarrow> string option"
  pr_self :: int

definition userHZ :: int where "userHZ = 100"

datatype category = catShimSystemd | catTTYHelper | catShimRunc | catRunc | catSystemd | catContainerd | catOther

definition sampledCategories :: "category list" where
  "sampledCategories = [catShimSystemd, catTTYHelper, catShimRunc, catRunc, catSystemd, catContainerd]"

definition categorize :: "int \<Rightarrow> string list \<Rightarrow> string \<Rightarrow> category" where
  "categorize pid argv comm =
     (let base = (if argv \<noteq> [] \<and> hd argv \<noteq> '''' then path_Base (hd argv) else comm)
      in if base = ''containerd-shim-systemd-v1'' then (if ''tty-handshake'' \<in> set argv then catTTYHelper else catShimSystemd)
         else if base = ''containerd-shim-runc-v2'' then catShimRunc
         else if base = ''runc'' then catRunc
         else if base = ''containerd'' then catContainerd
         else if base = ''systemd'' then catSystemd
         else if pid = 1 then catSystemd
         else catOther)"

definition proc_path :: "int \<Rightarrow> string \<Rightarrow> string" where
  "proc_path pid name = ''/proc/'' @ show_int pid @ ''/'' @ name"

definition readCmdline :: "proc \<Rightarrow> int \<Rightarrow> string list" where
  "readCmdline x pid =
     (case pr_file x (proc_path pid ''cmdline'') of
        None \<Rightarrow> []
      | Some data \<Rightarrow> if data = '''' then [] else Split (TrimRight data (\<lambda>c. c = CHR 0x00)) (CHR 0x00))"

definition parse_stat :: "'f floats \<Rightarrow> string \<Rightarrow> (string \<times> 'f) option" where
  "parse_stat fl s =
     (case parens s of
        None \<Rightarrow> None
      | Some (comm, tail) \<Rightarrow>
          (let rest = Fields tail
           in if length rest < 13 then None
              else (case (fl_parse fl (rest ! 11), fl_parse fl (rest ! 12)) of
                      (Some utime, Some stime) \<Rightarrow> Some (comm, fl_add fl utime stime)
                    | _ \<Rightarrow> None)))"

definition readStat :: "'f floats \<Rightarrow> proc \<Rightarrow> int \<Rightarrow> (string \<times> 'f) option" where
  "readStat fl x pid = Option.bind (pr_file x (proc_path pid ''stat'')) (parse_stat fl)"

definition parseKBLine :: "string \<Rightarrow> u64" where
  "parseKBLine line =
     (let fields = Fields line
      in if length fields < 2 then 0 else (case ParseUint 64 (fields ! 1) of None \<Rightarrow> 0 | Some v \<Rightarrow> of_nat v))"

definition line_with :: "string \<Rightarrow> string \<Rightarrow> string option" where
  "line_with prefix data = List.find (\<lambda>line. HasPrefix line prefix) (Split data (CHR ''\<newline>''))"

definition readPss :: "proc \<Rightarrow> int \<Rightarrow> u64" where
  "readPss x pid =
     (case Option.bind (pr_file x (proc_path pid ''smaps_rollup'')) (line_with ''Pss:'') of
        Some line \<Rightarrow> parseKBLine line * 1024
      | None \<Rightarrow>
          (case Option.bind (pr_file x (proc_path pid ''status'')) (line_with ''VmRSS:'') of
             Some line \<Rightarrow> parseKBLine line * 1024
           | None \<Rightarrow> 0))"

definition readMemTotal :: "proc \<Rightarrow> u64" where
  "readMemTotal x =
     (case line_with ''MemTotal:'' (case pr_file x ''/proc/meminfo'' of None \<Rightarrow> '''' | Some d \<Rightarrow> d) of
        Some line \<Rightarrow> parseKBLine line * 1024
      | None \<Rightarrow> 0)"

fun sum_jiffies :: "'f floats \<Rightarrow> nat \<Rightarrow> string list \<Rightarrow> 'f \<Rightarrow> 'f \<Rightarrow> 'f \<times> 'f" where
  "sum_jiffies fl i [] idle tot = (fl_sub fl tot idle, tot)"
| "sum_jiffies fl i (f # fs) idle tot =
     (case fl_parse fl f of
        None \<Rightarrow> sum_jiffies fl (Suc i) fs idle tot
      | Some v \<Rightarrow> sum_jiffies fl (Suc i) fs (if i = 3 \<or> i = 4 then fl_add fl idle v else idle) (fl_add fl tot v))"

definition readSystemCPU :: "'f floats \<Rightarrow> proc \<Rightarrow> 'f \<times> 'f" where
  "readSystemCPU fl x =
     (case Option.bind (pr_file x ''/proc/stat'') (line_with ''cpu '') of
        None \<Rightarrow> (fl_num fl 0, fl_num fl 0)
      | Some line \<Rightarrow> sum_jiffies fl 0 (tl (Fields line)) (fl_num fl 0) (fl_num fl 0))"

definition readSelfCPU :: "'f floats \<Rightarrow> proc \<Rightarrow> 'f" where
  "readSelfCPU fl x = (case readStat fl x (pr_self x) of None \<Rightarrow> fl_num fl 0 | Some (_, ticks) \<Rightarrow> ticks)"

definition shimCgroupCPUStat :: string where
  "shimCgroupCPUStat = ''/sys/fs/cgroup/system.slice/containerd-shim-systemd-v1.service/cpu.stat''"

text \<open>\<open>strconv.ParseInt\<close> in base ten and 64 bits accepts what \<open>Atoi\<close> does.\<close>

fun usage_of :: "string list \<Rightarrow> int" where
  "usage_of [] = -1"
| "usage_of (line # ls) =
     (if \<not> HasPrefix line ''usage_usec'' then usage_of ls
      else let fields = Fields line
           in if length fields < 2 then usage_of ls
              else (case Atoi (fields ! 1) of None \<Rightarrow> usage_of ls | Some v \<Rightarrow> v))"

definition readCgroupUsageUsec :: "proc \<Rightarrow> string \<Rightarrow> int" where
  "readCgroupUsageUsec x path = (case pr_file x path of None \<Rightarrow> -1 | Some data \<Rightarrow> usage_of (Split data (CHR ''\<newline>'')))"

subsection \<open>The sampler\<close>

record 'f point =
  pt_TSeconds :: 'f
  pt_PssBytes :: "(category \<times> u64) list"
  pt_CPUPct :: "(category \<times> 'f) list"

text \<open>
  \<open>sm_catOf\<close> is a Go map that the code ranges over, kept as an association list; Go chooses the order of the range, the model takes that of the
  insertions. Reading a missing key of the other maps gives zero.
\<close>

record 'f sampler =
  sm_interval :: time
  sm_seriesEvery :: time
  sm_startWall :: time
  sm_baseline :: "int \<rightharpoonup> 'f"
  sm_contrib :: "int \<rightharpoonup> 'f"
  sm_catOf :: "(int \<times> category) list"
  sm_pssTotals :: "category \<Rightarrow> u64 list"
  sm_series :: "'f point list"
  sm_lastSeries :: time
  sm_lastContrib :: "category \<rightharpoonup> 'f"
  sm_lastSeriesOK :: bool
  sm_sysBusyStart :: 'f
  sm_sysTotalStart :: 'f
  sm_selfStart :: 'f
  sm_shimCgStart :: int

text \<open>The interval is an \<open>int64\<close> of nanoseconds, and its multiple wraps.\<close>

definition newSampler :: "'f floats \<Rightarrow> time \<Rightarrow> 'f sampler" where
  "newSampler fl interval =
     (let interval = (if interval \<le> 0 then 25000000 else interval)
      in \<lparr>sm_interval = interval, sm_seriesEvery = max (sint (5 * word_of_int interval :: i64)) 200000000, sm_startWall = go_zero_time,
          sm_baseline = Map.empty, sm_contrib = Map.empty, sm_catOf = [], sm_pssTotals = (\<lambda>_. []), sm_series = [],
          sm_lastSeries = go_zero_time, sm_lastContrib = Map.empty, sm_lastSeriesOK = False,
          sm_sysBusyStart = fl_num fl 0, sm_sysTotalStart = fl_num fl 0, sm_selfStart = fl_num fl 0, sm_shimCgStart = 0\<rparr>)"

definition get_f :: "'f floats \<Rightarrow> ('k \<rightharpoonup> 'f) \<Rightarrow> 'k \<Rightarrow> 'f" where
  "get_f fl m k = (case m k of None \<Rightarrow> fl_num fl 0 | Some v \<Rightarrow> v)"

text \<open>The sum per category that \<open>collect\<close> and \<open>emitSeries\<close> make.\<close>

definition by_category :: "'f floats \<Rightarrow> 'f sampler \<Rightarrow> category \<rightharpoonup> 'f" where
  "by_category fl s = fold (\<lambda>(pid, c) m. m(c \<mapsto> fl_add fl (get_f fl m c) (get_f fl (sm_contrib s) pid))) (sm_catOf s) Map.empty"

definition emitSeries :: "'f floats \<Rightarrow> time \<Rightarrow> (category \<Rightarrow> u64) \<Rightarrow> 'f sampler \<Rightarrow> 'f sampler" where
  "emitSeries fl now perCatPss s =
     (let nowContrib = by_category fl s;
          elapsed = fl_seconds fl (now - sm_lastSeries s);
          pt = \<lparr>pt_TSeconds = fl_seconds fl (now - sm_startWall s),
                pt_PssBytes = map (\<lambda>c. (c, perCatPss c)) sampledCategories,
                pt_CPUPct = (if sm_lastSeriesOK s \<and> fl_lt fl (fl_num fl 0) elapsed
                             then map (\<lambda>c. (c, fl_mul fl (fl_div fl (fl_sub fl (get_f fl nowContrib c) (get_f fl (sm_lastContrib s) c)) elapsed) (fl_num fl 100)))
                                    sampledCategories
                             else [])\<rparr>
      in s\<lparr>sm_series := sm_series s @ [pt], sm_lastSeries := now, sm_lastContrib := nowContrib, sm_lastSeriesOK := True\<rparr>)"

text \<open>What a pass learns of an entry of \<open>/proc\<close>, when it does not skip it: the process, its category, its processor time and its memory.\<close>

definition look :: "'f floats \<Rightarrow> proc \<Rightarrow> string \<times> bool \<Rightarrow> (int \<times> category \<times> 'f \<times> u64) option" where
  "look fl x ent =
     (if \<not> snd ent then None
      else case Atoi (fst ent) of
        None \<Rightarrow> None
      | Some pid \<Rightarrow>
          (case readStat fl x pid of
             None \<Rightarrow> None
           | Some (comm, cpuTicks) \<Rightarrow>
               (let cat = categorize pid (readCmdline x pid) comm
                in if cat = catOther then None
                   else Some (pid, cat, fl_div fl cpuTicks (fl_num fl userHZ), readPss x pid))))"

definition charge :: "'f floats \<Rightarrow> bool \<Rightarrow> int \<times> category \<times> 'f \<times> u64 \<Rightarrow> 'f sampler \<Rightarrow> 'f sampler" where
  "charge fl baselinePass ob s = (case ob of (pid, cat, cpuCum, _) \<Rightarrow>
     let s = (if baselinePass
              then s\<lparr>sm_baseline := (sm_baseline s)(pid \<mapsto> cpuCum), sm_contrib := (sm_contrib s)(pid \<mapsto> fl_num fl 0)\<rparr>
              else case sm_baseline s pid of
                Some b \<Rightarrow> (let d = fl_sub fl cpuCum b
                           in if fl_le fl (fl_num fl 0) d then s\<lparr>sm_contrib := (sm_contrib s)(pid \<mapsto> d)\<rparr> else s)
              | None \<Rightarrow> s\<lparr>sm_contrib := (sm_contrib s)(pid \<mapsto> cpuCum)\<rparr>)
     in s\<lparr>sm_catOf := AList.update pid cat (sm_catOf s)\<rparr>)"

fun sample_entries :: "'f floats \<Rightarrow> bool \<Rightarrow> proc \<Rightarrow> (string \<times> bool) list \<Rightarrow> 'f sampler \<times> (category \<Rightarrow> u64) \<Rightarrow> 'f sampler \<times> (category \<Rightarrow> u64)" where
  "sample_entries fl baselinePass x [] (s, pss) = (s, pss)"
| "sample_entries fl baselinePass x (ent # ents) (s, pss) =
     (case look fl x ent of
        None \<Rightarrow> sample_entries fl baselinePass x ents (s, pss)
      | Some ob \<Rightarrow> sample_entries fl baselinePass x ents
          (charge fl baselinePass ob s, case ob of (_, cat, _, v) \<Rightarrow> pss(cat := pss cat + v)))"

definition sampleOnce :: "'f floats \<Rightarrow> bool \<Rightarrow> proc \<Rightarrow> 'f sampler \<Rightarrow> 'f sampler" where
  "sampleOnce fl baselinePass x s =
     (case pr_dir x of
        None \<Rightarrow> s
      | Some pids \<Rightarrow>
          (case sample_entries fl baselinePass x pids (s, \<lambda>_. 0) of (s, perCatPss) \<Rightarrow>
             let s = s\<lparr>sm_pssTotals := fold (\<lambda>c m. m(c := m c @ [perCatPss c])) sampledCategories (sm_pssTotals s)\<rparr>
             in if baselinePass then s\<lparr>sm_lastSeries := pr_now x\<rparr>
                else if pr_now x - sm_lastSeries s < sm_seriesEvery s then s
                else emitSeries fl (pr_now x) perCatPss s))"

text \<open>\<open>start\<close> reads the totals (in \<open>x\<close>) before its pass (over \<open>y\<close>); \<open>run\<close> makes a pass per tick and one when it is stopped.\<close>

definition sampler_start :: "'f floats \<Rightarrow> proc \<Rightarrow> proc \<Rightarrow> 'f sampler \<Rightarrow> 'f sampler" where
  "sampler_start fl x y s =
     sampleOnce fl True y
       (s\<lparr>sm_startWall := pr_now x, sm_sysBusyStart := fst (readSystemCPU fl x), sm_sysTotalStart := snd (readSystemCPU fl x),
          sm_selfStart := readSelfCPU fl x, sm_shimCgStart := readCgroupUsageUsec x shimCgroupCPUStat\<rparr>)"

definition sampler_run :: "'f floats \<Rightarrow> proc list \<Rightarrow> proc \<Rightarrow> 'f sampler \<Rightarrow> 'f sampler" where
  "sampler_run fl ticks stop s = sampleOnce fl False stop (fold (sampleOnce fl False) ticks s)"

record 'f sampleResult =
  sr_cpuSeconds :: "category \<rightharpoonup> 'f"
  sr_peakPss :: "category \<rightharpoonup> u64"
  sr_meanPss :: "category \<rightharpoonup> u64"
  sr_series :: "'f point list"
  sr_wall :: 'f
  sr_sysBusySeconds :: 'f
  sr_sysTotalSeconds :: 'f
  sr_harnessSeconds :: 'f
  sr_shimCgroupSeconds :: 'f

definition sum_peak :: "u64 list \<Rightarrow> u64 \<times> u64" where
  "sum_peak vals = fold (\<lambda>v (sum, peak). (sum + v, max peak v)) vals (0, 0)"

definition collect :: "'f floats \<Rightarrow> time \<Rightarrow> 'f sampler \<Rightarrow> 'f sampleResult" where
  "collect fl now s =
     (let pss = (\<lambda>f. fold (\<lambda>c m. let vals = sm_pssTotals s c in if vals = [] then m else m(c \<mapsto> f vals)) sampledCategories Map.empty)
      in \<lparr>sr_cpuSeconds = by_category fl s,
          sr_peakPss = pss (\<lambda>vals. snd (sum_peak vals)),
          sr_meanPss = pss (\<lambda>vals. fst (sum_peak vals) div of_nat (length vals)),
          sr_series = sm_series s, sr_wall = fl_seconds fl (now - sm_startWall s),
          sr_sysBusySeconds = fl_num fl 0, sr_sysTotalSeconds = fl_num fl 0, sr_harnessSeconds = fl_num fl 0, sr_shimCgroupSeconds = fl_num fl 0\<rparr>)"

text \<open>The rest of \<open>stopAndCollect\<close>, after the last pass; the difference of the cgroup's counters is one of \<open>int64\<close> values that are not negative.\<close>

definition stopAndCollect :: "'f floats \<Rightarrow> proc \<Rightarrow> time \<Rightarrow> 'f sampler \<Rightarrow> 'f sampleResult" where
  "stopAndCollect fl x now s =
     (let hz = fl_num fl userHZ; shimCgEnd = readCgroupUsageUsec x shimCgroupCPUStat
      in (collect fl now s)
          \<lparr>sr_sysBusySeconds := fl_div fl (fl_sub fl (fst (readSystemCPU fl x)) (sm_sysBusyStart s)) hz,
           sr_sysTotalSeconds := fl_div fl (fl_sub fl (snd (readSystemCPU fl x)) (sm_sysTotalStart s)) hz,
           sr_harnessSeconds := fl_div fl (fl_sub fl (readSelfCPU fl x) (sm_selfStart s)) hz,
           sr_shimCgroupSeconds := (if 0 \<le> sm_shimCgStart s \<and> 0 \<le> shimCgEnd
                                    then fl_div fl (fl_num fl (shimCgEnd - sm_shimCgStart s)) (fl_num fl 1000000) else fl_num fl (-1))\<rparr>)"

subsection \<open>Reading \<open>/proc/<pid>/stat\<close>\<close>

lemma parens_enclosed:
  assumes "CHR ''('' \<notin> set a" "CHR '')'' \<notin> set t"
  shows "parens (a @ CHR ''('' # comm @ CHR '')'' # t) = Some (comm, t)"
proof -
  have 1: "takeWhile (\<lambda>c. c \<noteq> CHR ''('') (a @ CHR ''('' # u) = a" for u
    using assms(1) by (simp add: takeWhile_append2 takeWhile_append split: if_splits)
  have 2: "takeWhile (\<lambda>c. c \<noteq> CHR '')'') (rev t @ CHR '')'' # u) = rev t" for u
    using assms(2) by (simp add: takeWhile_append2 takeWhile_append split: if_splits)
  show ?thesis by (simp add: parens_def 1 2)
qed

text \<open>Fields as the kernel prints them.\<close>

definition is_word :: "string \<Rightarrow> bool" where
  "is_word w \<longleftrightarrow> w \<noteq> [] \<and> list_all (\<lambda>c. \<not> is_space c \<and> c \<noteq> CHR '')'') w"

fun print_fields :: "string list \<Rightarrow> string" where
  "print_fields [] = ''\<newline>''"
| "print_fields (w # ws) = '' '' @ w @ print_fields ws"

definition print_stat :: "nat \<Rightarrow> string \<Rightarrow> string list \<Rightarrow> string" where
  "print_stat pid comm ws = show_nat pid @ '' ('' @ comm @ '')'' @ print_fields ws"

lemma Fields_from_word: "list_all (\<lambda>c. \<not> is_space c \<and> P c) w \<Longrightarrow> Fields_from acc (w @ t) = Fields_from (rev w @ acc) t"
  by (induction w arbitrary: acc) auto

lemma print_fields_starts: "\<exists>c t. print_fields ws = c # t \<and> is_space c"
  by (cases ws) (auto simp: is_space_def)

lemma Fields_print: "list_all is_word ws \<Longrightarrow> Fields (print_fields ws) = ws"
proof (induction ws)
  case (Cons w ws)
  obtain c t where "print_fields ws = c # t" "is_space c" using print_fields_starts by blast
  with Cons show ?case
    by (auto simp: Fields_def is_word_def is_space_def Fields_from_word)
qed (simp add: Fields_def is_space_def)

lemma print_fields_plain: "list_all is_word ws \<Longrightarrow> CHR '')'' \<notin> set (print_fields ws)"
  by (induction ws) (auto simp: is_word_def list_all_iff)

lemma show_nat_plain: "CHR ''('' \<notin> set (show_nat n)"
  using show_nat_digits [of n] by (auto simp: list_all_iff is_digit_def)

text \<open>
  C36: The line the kernel prints for a process reads back: whatever its command name, with blanks, parentheses or line breaks in it, \<open>readStat\<close>
  returns that name and the sum of the fourteenth and fifteenth fields, as long as these are numbers.
\<close>

theorem readStat_print_stat:
  assumes "pr_file x (proc_path pid ''stat'') = Some (print_stat n comm ws)"
    and "list_all is_word ws" "13 \<le> length ws" "fl_parse fl (ws ! 11) = Some utime" "fl_parse fl (ws ! 12) = Some stime"
  shows "readStat fl x pid = Some (comm, fl_add fl utime stime)"
proof -
  have "parens (print_stat n comm ws) = Some (comm, print_fields ws)"
    using parens_enclosed [of "show_nat n @ '' ''" "print_fields ws" comm] print_fields_plain [OF assms(2)] show_nat_plain [of n]
    by (simp add: print_stat_def)
  then show ?thesis using assms by (simp add: readStat_def parse_stat_def Fields_print)
qed

definition demo_floats :: "int floats" where
  "demo_floats = \<lparr>fl_parse = Atoi, fl_num = (\<lambda>i. i), fl_seconds = (\<lambda>d. d div 1000000000), fl_add = (+), fl_sub = (-), fl_mul = (*), fl_div = (div), fl_le = (\<le>), fl_lt = (<)\<rparr>"

definition demo_proc :: "time \<Rightarrow> string \<Rightarrow> string \<Rightarrow> proc" where
  "demo_proc t u v = \<lparr>pr_now = t, pr_dir = Some [(''7'', True)], pr_file = (\<lambda>p.
     if p = ''/proc/7/stat'' then Some (print_stat 7 ''runc) S ('' [''S'', ''1'', ''1'', ''1'', ''0'', ''-1'', ''0'', ''0'', ''0'', ''0'', ''0'', u, v, ''0''])
     else if p = ''/proc/7/cmdline'' then Some ''/usr/bin/runc'' else None), pr_self = 7\<rparr>"

lemma demo_path: "proc_path 7 name = ''/proc/7/'' @ name"
proof -
  have "show_int 7 = ''7''" by code_simp
  then show ?thesis by (simp add: proc_path_def)
qed

theorem readStat_print_stat_witness:
  "readStat demo_floats (demo_proc 0 ''12'' ''30'') 7 = Some (''runc) S ('', 42)"
  using readStat_print_stat [of "demo_proc 0 ''12'' ''30''" 7 7 "''runc) S (''"
      "[''S'', ''1'', ''1'', ''1'', ''0'', ''-1'', ''0'', ''0'', ''0'', ''0'', ''0'', ''12'', ''30'', ''0'']" demo_floats 12 30]
  by (simp add: demo_proc_def demo_floats_def demo_path is_word_def is_space_def Atoi_def nat_of_digits_def is_digit_def digit_val_def)

subsection \<open>The summary of memory\<close>

lemma sum_peak_fold: "fold (\<lambda>v (sum, peak). (sum + v, max peak v)) vals (a, b) = (a + sum_list vals, fold max vals b)" for vals :: "u64 list"
  by (induction vals arbitrary: a b) (simp_all add: algebra_simps max.commute)

lemma fold_max_upper: "(b :: u64) \<le> fold max vals b \<and> (\<forall>v\<in>set vals. v \<le> fold max vals b)"
  unfolding Max.set_eq_fold [symmetric] by simp

lemma fold_max_mem: "fold max vals (b :: u64) \<in> insert b (set vals)"
  unfolding Max.set_eq_fold [symmetric] using Max_in [of "set (b # vals)"] by simp

lemma unat_sum_list:
  "sum_list (map unat vals) < 2 ^ 64 \<Longrightarrow> unat (sum_list vals :: u64) = sum_list (map unat vals)"
proof (induction vals)
  case (Cons v vals)
  then show ?case by (simp add: unat_word_ariths(1))
qed simp

lemma mean_le_max: "(\<And>v. v \<in> set vs \<Longrightarrow> v \<le> p) \<Longrightarrow> sum_list vs div length vs \<le> p" for p :: nat
proof (cases "vs = []")
  case False
  assume "\<And>v. v \<in> set vs \<Longrightarrow> v \<le> p"
  then have "sum_list vs \<le> length vs * p"
    using sum_list_mono [of vs "\<lambda>v. v" "\<lambda>_. p"] by (simp add: sum_list_triv)
  then have "sum_list vs div length vs \<le> (length vs * p) div length vs" by (rule div_le_mono)
  with False show ?thesis by simp
qed simp

lemma fold_per_category:
  "fold (\<lambda>c m. let vals = g c in if vals = [] then m else m(c \<mapsto> f vals)) cs m k = (if k \<in> set cs \<and> g k \<noteq> [] then Some (f (g k)) else m k)"
  by (induction cs arbitrary: m) (auto simp: Let_def)

lemma sampled_iff [simp]: "c \<in> set sampledCategories \<longleftrightarrow> c \<noteq> catOther"
  by (cases c) (simp_all add: sampledCategories_def)

text \<open>
  For every category of which a pass recorded memory, \<open>collect\<close> reports as the peak a recorded value that none exceeds, and as the mean the quotient of the
  exact sum by the number of passes, which is at most the peak; the exact sum is that of 64-bit values as long as it stays below their bound.
\<close>

theorem collect_memory:
  assumes "c \<noteq> catOther" "sm_pssTotals s c = vals" "vals \<noteq> []" "sum_list (map unat vals) < 2 ^ 64" "length vals < 2 ^ 64"
  shows "\<exists>peak mean. sr_peakPss (collect fl now s) c = Some peak \<and> sr_meanPss (collect fl now s) c = Some mean
    \<and> peak \<in> set vals \<and> list_all (\<lambda>v. v \<le> peak) vals \<and> unat mean = sum_list (map unat vals) div length vals \<and> mean \<le> peak"
proof (intro exI conjI)
  let ?peak = "fold max vals 0" and ?mean = "sum_list vals div of_nat (length vals)"
  show "sr_peakPss (collect fl now s) c = Some ?peak" "sr_meanPss (collect fl now s) c = Some ?mean"
    using assms by (simp_all add: collect_def fold_per_category sum_peak_def sum_peak_fold del: Let_def)
  obtain v where v: "v \<in> set vals" using assms(3) by (cases vals) auto
  have up: "list_all (\<lambda>v. v \<le> ?peak) vals" using fold_max_upper [of 0 vals] by (simp add: list_all_iff)
  then show "list_all (\<lambda>v. v \<le> ?peak) vals" .
  show "?peak \<in> set vals"
  proof (cases "?peak = 0")
    case True
    with up v have "v = 0" by (auto simp: list_all_iff)
    with True v show ?thesis by simp
  next
    case False
    with fold_max_mem [of vals 0] show ?thesis by auto
  qed
  show mean: "unat ?mean = sum_list (map unat vals) div length vals"
    using assms(4,5) by (simp add: unat_div unat_sum_list unat_of_nat take_bit_nat_eq_self)
  have "sum_list (map unat vals) div length (map unat vals) \<le> unat ?peak"
    by (rule mean_le_max) (use up in \<open>auto simp: list_all_iff word_le_nat_alt\<close>)
  with mean show "?mean \<le> ?peak" by (simp add: word_le_nat_alt)
qed

theorem collect_memory_witness:
  "\<exists>peak mean. sr_peakPss (collect demo_floats 0 ((newSampler demo_floats 0)\<lparr>sm_pssTotals := (\<lambda>_. [3, 8, 4])\<rparr>)) catRunc = Some peak
    \<and> sr_meanPss (collect demo_floats 0 ((newSampler demo_floats 0)\<lparr>sm_pssTotals := (\<lambda>_. [3, 8, 4])\<rparr>)) catRunc = Some mean
    \<and> peak \<in> set [3, 8, 4] \<and> list_all (\<lambda>v. v \<le> peak) [3, 8, 4] \<and> unat mean = 5 \<and> mean \<le> peak"
  using collect_memory [of catRunc "(newSampler demo_floats 0)\<lparr>sm_pssTotals := (\<lambda>_. [3, 8, 4])\<rparr>" "[3, 8, 4]" demo_floats 0] by simp

subsection \<open>Attribution\<close>

text \<open>What a pass saw, the processor times it read of a process and the memory of a category.\<close>

definition seen :: "'f floats \<Rightarrow> proc \<Rightarrow> (int \<times> category \<times> 'f \<times> u64) list" where
  "seen fl x = (case pr_dir x of None \<Rightarrow> [] | Some ents \<Rightarrow> List.map_filter (look fl x) ents)"

definition cums :: "int \<Rightarrow> (int \<times> category \<times> 'f \<times> u64) list \<Rightarrow> 'f list" where
  "cums pid obs = map (\<lambda>(_, _, cum, _). cum) (filter (\<lambda>(p, _). p = pid) obs)"

definition cats :: "int \<Rightarrow> (int \<times> category \<times> 'f \<times> u64) list \<Rightarrow> category list" where
  "cats pid obs = map (\<lambda>(_, c, _). c) (filter (\<lambda>(p, _). p = pid) obs)"

definition pss_of :: "category \<Rightarrow> (int \<times> category \<times> 'f \<times> u64) list \<Rightarrow> u64" where
  "pss_of c obs = sum_list (map (\<lambda>(_, _, _, v). v) (filter (\<lambda>(_, d, _). d = c) obs))"

definition newest :: "'a option \<Rightarrow> 'a list \<Rightarrow> 'a option" where
  "newest old vs = last (old # map Some vs)"

text \<open>
  The processor time of a process over the window: of one the first pass saw at \<open>b\<close>, the last difference to \<open>b\<close> that is not negative; of any
  other, the last time read.
\<close>

definition attributed :: "'f floats \<Rightarrow> 'f option \<Rightarrow> 'f option \<Rightarrow> 'f list \<Rightarrow> 'f option" where
  "attributed fl base old cs = (case base of
     Some b \<Rightarrow> newest old (filter (fl_le fl (fl_num fl 0)) (map (\<lambda>c. fl_sub fl c b) cs))
   | None \<Rightarrow> newest old cs)"

lemma newest_simps [simp]: "newest old [] = old" "newest old (v # vs) = newest (Some v) vs" "newest old (vs @ ws) = newest (newest old vs) ws"
  by (simp_all add: newest_def last_append)

lemma attributed_append: "attributed fl base old (cs @ ds) = attributed fl base (attributed fl base old cs) ds"
  by (simp add: attributed_def split: option.splits)

lemma cums_simps [simp]:
  "cums pid [] = []" "cums pid ((p, c, v, m) # obs) = (if p = pid then [v] else []) @ cums pid obs" "cums pid (obs @ obs') = cums pid obs @ cums pid obs'"
  by (simp_all add: cums_def)

lemma cats_simps [simp]:
  "cats pid [] = []" "cats pid ((p, c, v, m) # obs) = (if p = pid then [c] else []) @ cats pid obs" "cats pid (obs @ obs') = cats pid obs @ cats pid obs'"
  by (simp_all add: cats_def)

lemma pss_of_simps [simp]: "pss_of c [] = 0" "pss_of c ((p, d, v, m) # obs) = (if d = c then m else 0) + pss_of c obs"
  by (simp_all add: pss_of_def)

lemma sample_entries_eq:
  "sample_entries fl b x ents (s, pss) =
     (fold (charge fl b) (List.map_filter (look fl x) ents) s, \<lambda>c. pss c + pss_of c (List.map_filter (look fl x) ents))"
  by (induction ents arbitrary: s pss) (auto simp: map_filter_simps add.assoc split: option.splits)

lemma charge_step:
  "sm_baseline (charge fl False (p, c, v, m) s) = sm_baseline s"
  "sm_contrib (charge fl False (p, c, v, m) s) pid = attributed fl (sm_baseline s pid) (sm_contrib s pid) (if p = pid then [v] else [])"
  by (auto simp: charge_def attributed_def Let_def split: option.splits)

lemma charge_pass:
  "sm_baseline (fold (charge fl False) obs s) = sm_baseline s"
  "sm_contrib (fold (charge fl False) obs s) pid = attributed fl (sm_baseline s pid) (sm_contrib s pid) (cums pid obs)"
proof (induction obs arbitrary: s)
  case (Cons ob obs)
  obtain p c v m where ob: "ob = (p, c, v, m)" by (cases ob)
  case 1 show ?case using Cons(1) by (simp add: ob charge_step)
  case 2 show ?case using Cons(2) by (simp add: ob charge_step attributed_append [symmetric] del: append.simps)
qed (simp_all add: attributed_def split: option.splits)

lemma charge_baseline:
  "sm_baseline (fold (charge fl True) obs s) pid = newest (sm_baseline s pid) (cums pid obs)"
  "sm_contrib (fold (charge fl True) obs s) pid = (if cums pid obs = [] then sm_contrib s pid else Some (fl_num fl 0))"
  by (induction obs arbitrary: s) (auto simp: charge_def Let_def)

lemma charge_rest:
  "map_of (sm_catOf (fold (charge fl b) obs s)) pid = newest (map_of (sm_catOf s) pid) (cats pid obs)"
  "sm_pssTotals (fold (charge fl b) obs s) = sm_pssTotals s"
  by (induction obs arbitrary: s) (auto simp: charge_def Let_def update_conv split: option.splits)

lemma fold_append_each: "distinct cs \<Longrightarrow> fold (\<lambda>c m. m(c := m c @ [f c])) cs m k = (if k \<in> set cs then m k @ [f k] else m k)"
  by (induction cs arbitrary: m) auto

lemma sampled_distinct [simp]: "distinct sampledCategories"
  by (simp add: sampledCategories_def)

definition readable :: "proc \<Rightarrow> bool" where
  "readable x \<longleftrightarrow> pr_dir x \<noteq> None"

lemma sampleOnce_pass:
  "sm_baseline (sampleOnce fl False x s) = sm_baseline s"
  "sm_contrib (sampleOnce fl False x s) pid = attributed fl (sm_baseline s pid) (sm_contrib s pid) (cums pid (seen fl x))"
  by (auto simp: sampleOnce_def seen_def sample_entries_eq charge_pass emitSeries_def Let_def attributed_def split: option.splits)

lemma sampleOnce_baseline:
  "sm_baseline (sampleOnce fl True x s) pid = newest (sm_baseline s pid) (cums pid (seen fl x))"
  "sm_contrib (sampleOnce fl True x s) pid = (if cums pid (seen fl x) = [] then sm_contrib s pid else Some (fl_num fl 0))"
  by (auto simp: sampleOnce_def seen_def sample_entries_eq charge_baseline Let_def split: option.splits)

lemma sampleOnce_rest:
  "map_of (sm_catOf (sampleOnce fl b x s)) pid = newest (map_of (sm_catOf s) pid) (cats pid (seen fl x))"
  "sm_pssTotals (sampleOnce fl b x s) c = sm_pssTotals s c @ (if readable x \<and> c \<noteq> catOther then [pss_of c (seen fl x)] else [])"
  by (auto simp: sampleOnce_def seen_def readable_def sample_entries_eq charge_rest emitSeries_def fold_append_each Let_def
      split: option.splits)

lemma passes:
  "sm_baseline (fold (sampleOnce fl False) xs s) = sm_baseline s"
  "sm_contrib (fold (sampleOnce fl False) xs s) pid = attributed fl (sm_baseline s pid) (sm_contrib s pid) (cums pid (concat (map (seen fl) xs)))"
  "map_of (sm_catOf (fold (sampleOnce fl False) xs s)) pid = newest (map_of (sm_catOf s) pid) (cats pid (concat (map (seen fl) xs)))"
  "sm_pssTotals (fold (sampleOnce fl False) xs s) c =
     sm_pssTotals s c @ (if c = catOther then [] else map (pss_of c \<circ> seen fl) (filter readable xs))"
  by (induction xs arbitrary: s)
    (simp_all add: sampleOnce_pass sampleOnce_rest attributed_append, simp_all add: attributed_def split: option.splits)

text \<open>
  C35: After a whole window of the sampler, whatever the passes found under \<open>/proc\<close>: the processor time charged to a process that the first pass saw is
  the last difference to its time then that is not negative, zero when there is none; of a process born later it is its last time; its category is the last one seen;
  and every category has one memory total per pass that could list \<open>/proc\<close>, the sum over the processes that pass put in it.
\<close>

theorem sampler_attribution:
  "let s = sampler_run fl ticks stop (sampler_start fl x y (newSampler fl interval)); obs = concat (map (seen fl) (ticks @ [stop]))
   in sm_contrib s pid =
        (case cums pid (seen fl y) of
           [] \<Rightarrow> attributed fl None None (cums pid obs)
         | b # bs \<Rightarrow> attributed fl (Some (last (b # bs))) (Some (fl_num fl 0)) (cums pid obs))
    \<and> map_of (sm_catOf s) pid = newest None (cats pid (seen fl y @ obs))
    \<and> sm_pssTotals s c = (if c = catOther then [] else map (pss_of c \<circ> seen fl) (filter readable (y # ticks @ [stop])))"
proof -
  have run: "sampler_run fl ticks stop s = fold (sampleOnce fl False) (ticks @ [stop]) s" for s :: "'a sampler"
    by (simp add: sampler_run_def)
  show ?thesis unfolding Let_def run passes sampler_start_def sampleOnce_baseline sampleOnce_rest
    by (auto simp: newSampler_def newest_def Let_def last_map split: list.splits)
qed


end
