(* ===== verification/Stats.thy ===== *)
theory Stats
  imports Sampler
begin

text \<open>
  The latency statistics of the benchmark (\<open>contrib/bench/stats.go\<close>, \<open>scrape.go\<close>): sorting, percentiles by interpolation between ranks, and the differences of the
  shim's counters. Indexing is written out: outside the slice Go panics, which is \<open>None\<close> here.
\<close>

subsection \<open>Percentiles\<close>

text \<open>\<open>math.Floor\<close> and \<open>math.Ceil\<close> with the conversion to \<open>int\<close> the code applies at once, and \<open>math.Sqrt\<close>.\<close>

record 'f rounding =
  ro_floor :: "'f \<Rightarrow> int"
  ro_ceil :: "'f \<Rightarrow> int"
  ro_sqrt :: "'f \<Rightarrow> 'f"

definition nth_go :: "'a list \<Rightarrow> int \<Rightarrow> 'a option" where
  "nth_go xs i = (if 0 \<le> i \<and> i < int (length xs) then Some (xs ! nat i) else None)"

definition percentile :: "'f floats \<Rightarrow> 'f rounding \<Rightarrow> 'f list \<Rightarrow> int \<Rightarrow> 'f option" where
  "percentile fl ro srt p =
     (let n = int (length srt)
      in if n = 0 then Some (fl_num fl 0)
         else if n = 1 then nth_go srt 0
         else let rank = fl_mul fl (fl_div fl (fl_num fl p) (fl_num fl 100)) (fl_num fl (n - 1));
                  lo = ro_floor ro rank;
                  hi = ro_ceil ro rank
              in if lo = hi then nth_go srt lo
                 else let frac = fl_sub fl rank (fl_num fl lo)
                      in Option.bind (nth_go srt lo) (\<lambda>a. Option.bind (nth_go srt hi) (\<lambda>b.
                           Some (fl_add fl (fl_mul fl a (fl_sub fl (fl_num fl 1) frac)) (fl_mul fl b frac)))))"

text \<open>\<open>sort.Float64s\<close>, for values that are numbers.\<close>

fun insert_f :: "'f floats \<Rightarrow> 'f \<Rightarrow> 'f list \<Rightarrow> 'f list" where
  "insert_f fl v [] = [v]"
| "insert_f fl v (y # ys) = (if fl_lt fl y v then y # insert_f fl v ys else v # y # ys)"

definition Float64s :: "'f floats \<Rightarrow> 'f list \<Rightarrow> 'f list" where
  "Float64s fl vs = foldr (insert_f fl) vs []"

record 'f OpStats =
  os_Count :: int
  os_Min :: 'f
  os_P50 :: 'f
  os_P90 :: 'f
  os_P99 :: 'f
  os_Max :: 'f
  os_Mean :: 'f
  os_Stddev :: 'f
  os_Raw :: "'f list"

definition summarize :: "'f floats \<Rightarrow> 'f rounding \<Rightarrow> 'f list \<Rightarrow> bool \<Rightarrow> 'f OpStats option" where
  "summarize fl ro msValues keepRaw =
     (let n = int (length msValues); z = fl_num fl 0
      in if n = 0 then Some \<lparr>os_Count = 0, os_Min = z, os_P50 = z, os_P90 = z, os_P99 = z, os_Max = z, os_Mean = z, os_Stddev = z, os_Raw = []\<rparr>
         else let srt = Float64s fl msValues;
                  mean = fl_div fl (fold (\<lambda>v s. fl_add fl s v) srt z) (fl_num fl n);
                  sq = fold (\<lambda>v s. let d = fl_sub fl v mean in fl_add fl s (fl_mul fl d d)) srt z;
                  stddev = (if n > 1 then ro_sqrt ro (fl_div fl sq (fl_num fl (n - 1))) else z)
              in Option.bind (nth_go srt 0) (\<lambda>mn.
                 Option.bind (percentile fl ro srt 50) (\<lambda>p50.
                 Option.bind (percentile fl ro srt 90) (\<lambda>p90.
                 Option.bind (percentile fl ro srt 99) (\<lambda>p99.
                 Option.bind (nth_go srt (n - 1)) (\<lambda>mx.
                   Some \<lparr>os_Count = n, os_Min = mn, os_P50 = p50, os_P90 = p90, os_P99 = p99, os_Max = mx, os_Mean = mean, os_Stddev = stddev,
                         os_Raw = (if keepRaw then msValues else [])\<rparr>))))))"

subsection \<open>Counters of the shim\<close>

record ShimVarsSnapshot =
  sn_ReactorHits :: i64
  sn_GetAllFallbacks :: i64
  sn_OnDiskReads :: i64
  sn_GetUnitCalls :: i64
  sn_GoHeapAlloc :: u64

record 'f ShimVarsDelta =
  dv_ReactorHits :: i64
  dv_GetAllFallbacks :: i64
  dv_OnDiskReads :: i64
  dv_GetUnitCalls :: i64
  dv_ReactorHitRate :: 'f

definition diffShimVars :: "'f floats \<Rightarrow> ShimVarsSnapshot option \<Rightarrow> ShimVarsSnapshot option \<Rightarrow> 'f ShimVarsDelta option" where
  "diffShimVars fl before after =
     (case (before, after) of
        (Some b, Some a) \<Rightarrow>
          (let hits = sn_ReactorHits a - sn_ReactorHits b;
               fallbacks = sn_GetAllFallbacks a - sn_GetAllFallbacks b
           in Some \<lparr>dv_ReactorHits = hits, dv_GetAllFallbacks = fallbacks, dv_OnDiskReads = sn_OnDiskReads a - sn_OnDiskReads b,
                    dv_GetUnitCalls = sn_GetUnitCalls a - sn_GetUnitCalls b,
                    dv_ReactorHitRate = (if 0 < sint (hits + fallbacks) then fl_div fl (fl_num fl (sint hits)) (fl_num fl (sint (hits + fallbacks)))
                                         else fl_num fl 0)\<rparr>)
      | _ \<Rightarrow> None)"

subsection \<open>Laws of the arithmetic\<close>

text \<open>
  What the statistics rely on of IEEE arithmetic, on numbers: a linear order; integers up to \<open>2 ^ 53\<close> are represented exactly; correctly rounded
  quotients and products of operands in the unit interval stay where the exact ones are; rounding to an integer is exact.
\<close>

definition exact_int :: "int \<Rightarrow> bool" where
  "exact_int n \<longleftrightarrow> 0 \<le> n \<and> n \<le> 2 ^ 53"

definition float_laws :: "'f floats \<Rightarrow> 'f rounding \<Rightarrow> bool" where
  "float_laws fl ro \<longleftrightarrow>
     (\<forall>a b. fl_le fl a b \<or> fl_le fl b a) \<and> (\<forall>a b c. fl_le fl a b \<longrightarrow> fl_le fl b c \<longrightarrow> fl_le fl a c) \<and> (\<forall>a b. fl_lt fl a b \<longleftrightarrow> \<not> fl_le fl b a)
     \<and> (\<forall>m n. exact_int m \<longrightarrow> exact_int n \<longrightarrow> (fl_le fl (fl_num fl m) (fl_num fl n) \<longleftrightarrow> m \<le> n))
     \<and> (\<forall>a b. fl_le fl (fl_num fl 0) a \<longrightarrow> fl_le fl a b \<longrightarrow> fl_lt fl (fl_num fl 0) b \<longrightarrow> fl_le fl (fl_num fl 0) (fl_div fl a b) \<and> fl_le fl (fl_div fl a b) (fl_num fl 1))
     \<and> (\<forall>a b. fl_le fl (fl_num fl 0) a \<longrightarrow> fl_le fl a (fl_num fl 1) \<longrightarrow> fl_le fl (fl_num fl 0) b \<longrightarrow> fl_le fl (fl_num fl 0) (fl_mul fl a b) \<and> fl_le fl (fl_mul fl a b) b)
     \<and> (\<forall>a n. exact_int n \<longrightarrow> fl_le fl (fl_num fl n) a \<longrightarrow> n \<le> ro_floor ro a) \<and> (\<forall>a n. exact_int n \<longrightarrow> fl_le fl a (fl_num fl n) \<longrightarrow> ro_ceil ro a \<le> n)
     \<and> (\<forall>a. ro_floor ro a \<le> ro_ceil ro a)"

lemma float_order:
  assumes "float_laws fl ro"
  shows "fl_le fl a b \<or> fl_le fl b a" "fl_le fl a b \<Longrightarrow> fl_le fl b c \<Longrightarrow> fl_le fl a c" "fl_lt fl a b \<longleftrightarrow> \<not> fl_le fl b a"
proof -
  note laws = assms [unfolded float_laws_def]
  show "fl_le fl a b \<or> fl_le fl b a" by (rule laws [THEN conjunct1, rule_format])
  show "fl_le fl a b \<Longrightarrow> fl_le fl b c \<Longrightarrow> fl_le fl a c" by (rule laws [THEN conjunct2, THEN conjunct1, rule_format])
  show "fl_lt fl a b \<longleftrightarrow> \<not> fl_le fl b a" by (rule laws [THEN conjunct2, THEN conjunct2, THEN conjunct1, rule_format])
qed

lemma float_rank:
  assumes laws: "float_laws fl ro" and p: "0 \<le> p" "p \<le> 100" and n: "exact_int n"
  defines "rank \<equiv> fl_mul fl (fl_div fl (fl_num fl p) (fl_num fl 100)) (fl_num fl n)"
  shows "0 \<le> ro_floor ro rank \<and> ro_floor ro rank \<le> n \<and> 0 \<le> ro_ceil ro rank \<and> ro_ceil ro rank \<le> n"
proof -
  have e: "exact_int 0" "exact_int p" "exact_int 100" "exact_int 1" using p by (auto simp: exact_int_def)
  note [simp] = laws [unfolded float_laws_def, THEN conjunct2, THEN conjunct2, THEN conjunct2, THEN conjunct1, rule_format]
  have lt: "fl_lt fl (fl_num fl 0) (fl_num fl 100)" using e float_order(3) [OF laws] by simp
  have q: "fl_le fl (fl_num fl 0) (fl_div fl (fl_num fl p) (fl_num fl 100)) \<and> fl_le fl (fl_div fl (fl_num fl p) (fl_num fl 100)) (fl_num fl 1)"
    using laws lt p e unfolding float_laws_def by simp
  have "fl_le fl (fl_num fl 0) (fl_num fl n)" using n e by (simp add: exact_int_def [of n])
  with q have r: "fl_le fl (fl_num fl 0) rank \<and> fl_le fl rank (fl_num fl n)"
    using laws unfolding float_laws_def rank_def by blast
  then have "0 \<le> ro_floor ro rank" "ro_ceil ro rank \<le> n" "ro_floor ro rank \<le> ro_ceil ro rank"
    using laws n e(1) unfolding float_laws_def by blast+
  then show ?thesis by linarith
qed

lemma percentile_in_range:
  assumes "float_laws fl ro" "0 \<le> p" "p \<le> 100" "int (length vs) \<le> 2 ^ 53"
  shows "percentile fl ro vs p \<noteq> None"
proof (cases "length vs \<le> 1")
  case True
  then show ?thesis by (cases vs) (auto simp: percentile_def nth_go_def)
next
  case False
  then have "exact_int (int (length vs) - 1)" using assms(4) by (auto simp: exact_int_def)
  from float_rank [OF assms(1-3) this] False show ?thesis by (auto simp: percentile_def nth_go_def Let_def)
qed

text \<open>Sorting keeps the values and puts a least one first and a greatest one last.\<close>

definition below :: "'f floats \<Rightarrow> 'f \<Rightarrow> 'f list \<Rightarrow> bool" where
  "below fl v vs \<longleftrightarrow> list_all (fl_le fl v) vs"

fun ascending :: "'f floats \<Rightarrow> 'f list \<Rightarrow> bool" where
  "ascending fl [] = True"
| "ascending fl (v # vs) = (below fl v vs \<and> ascending fl vs)"

lemma set_insert_f [simp]: "set (insert_f fl v vs) = insert v (set vs)" "length (insert_f fl v vs) = Suc (length vs)"
  by (induction vs) auto

lemma ascending_insert_f:
  assumes "float_laws fl ro"
  shows "ascending fl vs \<Longrightarrow> ascending fl (insert_f fl v vs)"
  by (induction vs) (auto simp: below_def list_all_iff float_order(3) [OF assms] dest: float_order(2) [OF assms] intro: float_order(1) [OF assms, THEN disjE])

lemma Float64s_facts:
  shows "set (Float64s fl vs) = set vs" "length (Float64s fl vs) = length vs"
    and "float_laws fl ro \<Longrightarrow> ascending fl (Float64s fl vs)"
  by (induction vs) (simp_all add: Float64s_def ascending_insert_f)

lemma ascending_ends:
  assumes "float_laws fl ro" "ascending fl vs" "v \<in> set vs"
  shows "fl_le fl (hd vs) v \<and> fl_le fl v (last vs)"
  using assms(2,3) float_order(1) [OF assms(1), of v v]
  by (induction vs) (auto simp: below_def list_all_iff)

text \<open>No index of \<open>summarize\<close> is out of range; its minimum and maximum are the ends of the sorted values.\<close>

lemma summarize_value:
  assumes "float_laws fl ro" "int (length vs) \<le> 2 ^ 53"
  shows "\<exists>st. summarize fl ro vs keepRaw = Some st \<and> os_Count st = int (length vs) \<and> os_Raw st = (if keepRaw then vs else [])
    \<and> (vs = [] \<or> os_Min st = hd (Float64s fl vs) \<and> os_Max st = last (Float64s fl vs))"
proof (cases "vs = []")
  case True
  then show ?thesis by (simp add: summarize_def Let_def)
next
  case False
  let ?s = "Float64s fl vs"
  have s: "?s \<noteq> []" "length ?s = length vs" using False Float64s_facts(1,2) [of fl vs] by auto
  have n: "nth_go ?s 0 = Some (hd ?s)" "nth_go ?s (int (length vs) - 1) = Some (last ?s)"
    using s by (auto simp: nth_go_def hd_conv_nth last_conv_nth nat_minus_as_int)
  have "int (length ?s) \<le> 2 ^ 53" using s(2) assms(2) by simp
  note in_range = percentile_in_range [OF assms(1) _ _ this]
  obtain a b c where p: "percentile fl ro ?s 50 = Some a" "percentile fl ro ?s 90 = Some b" "percentile fl ro ?s 99 = Some c"
    using in_range [of 50] in_range [of 90] in_range [of 99] by auto
  show ?thesis using False n p by (simp add: summarize_def Let_def)
qed

text \<open>
  With IEEE arithmetic, \<open>summarize\<close> of up to \<open>2 ^ 53\<close> latencies never indexes outside its slice, whatever the latencies are: it counts them all, keeps them if asked to,
  and its minimum and maximum are measured values with all others between them.
\<close>

theorem summarize_in_range:
  assumes "float_laws fl ro" "int (length vs) \<le> 2 ^ 53"
  shows "\<exists>st. summarize fl ro vs keepRaw = Some st \<and> os_Count st = int (length vs) \<and> os_Raw st = (if keepRaw then vs else [])
    \<and> (vs = [] \<or> os_Min st \<in> set vs \<and> os_Max st \<in> set vs \<and> list_all (\<lambda>v. fl_le fl (os_Min st) v \<and> fl_le fl v (os_Max st)) vs)"
proof -
  let ?s = "Float64s fl vs"
  have s: "set ?s = set vs" "ascending fl ?s"
    using Float64s_facts(1) [of fl vs] Float64s_facts(3) [OF assms(1), of vs] by auto
  have "hd ?s \<in> set vs \<and> last ?s \<in> set vs \<and> list_all (\<lambda>v. fl_le fl (hd ?s) v \<and> fl_le fl v (last ?s)) vs" if "vs \<noteq> []"
  proof -
    have "?s \<noteq> []" using that s(1) by auto
    then show ?thesis using s ascending_ends [OF assms(1) s(2)] hd_in_set [of ?s] last_in_set [of ?s] by (auto simp: list_all_iff)
  qed
  with summarize_value [OF assms, of keepRaw] show ?thesis by auto
qed

definition demo_rounding :: "int rounding" where
  "demo_rounding = \<lparr>ro_floor = (\<lambda>i. i), ro_ceil = (\<lambda>i. i), ro_sqrt = (\<lambda>i. i)\<rparr>"

lemma demo_float_laws: "float_laws demo_floats demo_rounding"
proof -
  have "a * b \<le> b" if "0 \<le> a" "a \<le> 1" "0 \<le> b" for a b :: int using mult_right_mono [of a 1 b] that by simp
  moreover have "a div b \<le> 1" if "0 \<le> a" "a \<le> b" "0 < b" for a b :: int using zdiv_mono1 [OF that(2,3)] that(3) by simp
  ultimately show ?thesis
    by (auto simp: float_laws_def demo_floats_def demo_rounding_def pos_imp_zdiv_nonneg_iff)
qed

theorem summarize_in_range_witness:
  "\<exists>st. summarize demo_floats demo_rounding [7, 3, 9] True = Some st \<and> os_Count st = 3 \<and> os_Min st = 3 \<and> os_Max st = 9 \<and> os_Raw st = [7, 3, 9]"
proof -
  obtain st where st: "summarize demo_floats demo_rounding [7, 3, 9] True = Some st" "os_Count st = 3" "os_Raw st = [7, 3, 9]"
    using summarize_in_range [OF demo_float_laws, of "[7, 3, 9]" True] by auto
  moreover have "map_option os_Min (summarize demo_floats demo_rounding [7, 3, 9] True) = Some 3"
    "map_option os_Max (summarize demo_floats demo_rounding [7, 3, 9] True) = Some 9" by code_simp+
  ultimately show ?thesis by simp
qed

text \<open>Counters read before and after give their difference, modulo the width of the counters, and a rate of zero when nothing was counted.\<close>

lemma diffShimVars_add:
  assumes "diffShimVars fl (Some b) (Some a) = Some d"
  shows "sn_ReactorHits b + dv_ReactorHits d = sn_ReactorHits a" "sn_GetAllFallbacks b + dv_GetAllFallbacks d = sn_GetAllFallbacks a"
    "sn_OnDiskReads b + dv_OnDiskReads d = sn_OnDiskReads a" "sn_GetUnitCalls b + dv_GetUnitCalls d = sn_GetUnitCalls a"
  using assms by (auto simp: diffShimVars_def Let_def)

end
