(* ===== verification/Scenarios.thy ===== *)
theory Scenarios
  imports Bench Batch Stats
begin

text \<open>
  The scenarios of the benchmark (\<open>contrib/bench/scenarios.go\<close>, \<open>main.go\<close>): its configuration, the measurement of a batch of operations with sampler and counters
  around it, and the scenarios that put driver, worker pool, sampler and statistics together.
\<close>

subsection \<open>Configuration\<close>

definition runtimeSystemd :: string where "runtimeSystemd = ''io.containerd.systemd.v1''"
definition runtimeRunc :: string where "runtimeRunc = ''io.containerd.runc.v2''"

definition splitCSV :: "string \<Rightarrow> string list" where
  "splitCSV s = filter (\<lambda>p. p \<noteq> '''') (map TrimSpace (Split s (CHR '','')))"

definition parseIntList :: "string \<Rightarrow> int list" where
  "parseIntList s = List.map_filter (\<lambda>p. case Atoi p of Some n \<Rightarrow> if n > 0 then Some n else None | None \<Rightarrow> None) (splitCSV s)"

record bench_config =
  bc_Address :: string
  bc_Runtimes :: "string list"
  bc_Image :: string
  bc_Namespace :: string
  bc_Iterations :: int
  bc_Warmup :: int
  bc_Parallel :: "int list"
  bc_ScaleCounts :: "int list"
  bc_Scenarios :: "string list"
  bc_Out :: string
  bc_ShimVarsURL :: string
  bc_SampleInterval :: time
  bc_StatusLoops :: int
  bc_ScaleHold :: time

text \<open>The flags, with their defaults, and the configuration made of them; \<open>stamp\<close> is the time as the name of a directory.\<close>

record bench_flags =
  fg_address :: string
  fg_runtimes :: string
  fg_image :: string
  fg_namespace :: string
  fg_iterations :: int
  fg_warmup :: int
  fg_parallel :: string
  fg_scaleCounts :: string
  fg_scenarios :: string
  fg_out :: string
  fg_shimVarsURL :: string
  fg_sampleIval :: time
  fg_statusLoops :: int
  fg_scaleHold :: time

definition default_flags :: bench_flags where
  "default_flags = \<lparr>fg_address = ''/run/containerd/containerd.sock'', fg_runtimes = runtimeRunc @ '','' @ runtimeSystemd,
     fg_image = ''docker.io/library/busybox:latest'', fg_namespace = ''bench'', fg_iterations = 50, fg_warmup = 5, fg_parallel = ''1,4,8,16'',
     fg_scaleCounts = ''1,5,10,25,50'', fg_scenarios = ''container,exec,status,container-tty,exec-tty,scale'', fg_out = '''',
     fg_shimVarsURL = ''http://127.0.0.1:8089/debug/vars'', fg_sampleIval = 25000000, fg_statusLoops = 500, fg_scaleHold = 3000000000\<rparr>"

definition configure :: "string \<Rightarrow> bench_flags \<Rightarrow> bench_config" where
  "configure stamp fg =
     (let cfg = \<lparr>bc_Address = fg_address fg, bc_Runtimes = splitCSV (fg_runtimes fg), bc_Image = fg_image fg, bc_Namespace = fg_namespace fg,
            bc_Iterations = fg_iterations fg, bc_Warmup = fg_warmup fg, bc_Parallel = parseIntList (fg_parallel fg),
            bc_ScaleCounts = parseIntList (fg_scaleCounts fg), bc_Scenarios = splitCSV (fg_scenarios fg),
            bc_Out = (if fg_out fg = '''' then ''bench-results/'' @ stamp else fg_out fg), bc_ShimVarsURL = fg_shimVarsURL fg,
            bc_SampleInterval = fg_sampleIval fg, bc_StatusLoops = fg_statusLoops fg, bc_ScaleHold = fg_scaleHold fg\<rparr>
      in if bc_Parallel cfg = [] then cfg\<lparr>bc_Parallel := [1]\<rparr> else cfg)"

subsection \<open>The outside\<close>

text \<open>What the sampler of a window sees: the totals and the first pass, the passes of its ticker, the last pass, the totals and the time at the end.\<close>

record window =
  wi_start :: proc
  wi_first :: proc
  wi_ticks :: "proc list"
  wi_stop :: proc
  wi_end :: proc
  wi_now :: time

record ('w, 'f) scenv =
  sc_bench :: "('w, 'f) benv"
  sc_fl :: "'f floats"
  sc_ro :: "'f rounding"
  sc_window :: "'w \<Rightarrow> window \<times> 'w"
  sc_scrape :: "string \<Rightarrow> 'w \<Rightarrow> ShimVarsSnapshot result \<times> 'w"
  sc_Status :: "string \<Rightarrow> 'w \<Rightarrow> err option \<times> 'w"
  sc_Metrics :: "string \<Rightarrow> 'w \<Rightarrow> err option \<times> 'w"
  sc_rr :: "'w \<Rightarrow> nat \<times> 'w"

subsection \<open>Measuring\<close>

text \<open>
  A batch of operations, in the order they took the mutex of the worker pool (theory \<open>Batch\<close>): the log of the driver lists the calls operation by operation. What
  the others do meanwhile is part of the outside of each. \<open>None\<close> is a panic, which ends the process.
\<close>

type_synonym ('w, 'f) bench_op = "('w, ('f ops \<times> err option) option) bgo"

fun invocations :: "nat \<Rightarrow> ('w, 'f) bench_op \<Rightarrow> ('w, ('f ops \<times> err option) list option) bgo" where
  "invocations 0 opFn = return_go (Some [])"
| "invocations (Suc n) opFn = do {
     r \<leftarrow> opFn;
     case r of
       None \<Rightarrow> return_go None
     | Some r \<Rightarrow> do { rs \<leftarrow> invocations n opFn; return_go (map_option ((#) r) rs) } }"

record 'f measuredOut =
  mo_raw :: "(string \<times> 'f list) list"
  mo_errs :: nat
  mo_wall :: time
  mo_count :: int
  mo_sample :: "'f sampleResult"
  mo_vars :: "'f ShimVarsDelta option"
  mo_goHeap :: u64

text \<open>The samples per operation and the number of errors the worker pool returns for these results.\<close>

definition raw_of :: "('f ops \<times> err option) list \<Rightarrow> (string \<times> 'f list) list" where
  "raw_of rs = map (\<lambda>k. (k, samples k (map (\<lambda>(ops, e). (ops, e \<noteq> None)) rs))) (remdups (concat (map (map fst \<circ> fst) rs)))"

definition errs_of :: "('f ops \<times> err option) list \<Rightarrow> nat" where
  "errs_of rs = length (filter (\<lambda>(ops, e). e \<noteq> None) rs)"

definition sample_window :: "('w, 'f) scenv \<Rightarrow> bench_config \<Rightarrow> ('w, 'f sampleResult) bgo" where
  "sample_window x cfg = do {
     v \<leftarrow> ask (sc_window x);
     return_go (stopAndCollect (sc_fl x) (wi_end v) (wi_now v)
       (sampler_run (sc_fl x) (wi_ticks v) (wi_stop v)
         (sampler_start (sc_fl x) (wi_start v) (wi_first v) (newSampler (sc_fl x) (bc_SampleInterval cfg))))) }"

definition scrapeShimVars :: "('w, 'f) scenv \<Rightarrow> string \<Rightarrow> ('w, ShimVarsSnapshot option) bgo" where
  "scrapeShimVars x url =
     (if url = '''' then return_go None
      else do { r \<leftarrow> ask (sc_scrape x url); return_go (case r of Inl _ \<Rightarrow> None | Inr v \<Rightarrow> Some v) })"

definition scrapes :: "bench_config \<Rightarrow> string \<Rightarrow> bool" where
  "scrapes cfg rt \<longleftrightarrow> rt = runtimeSystemd \<and> bc_ShimVarsURL cfg \<noteq> ''''"

definition heap_of :: "ShimVarsSnapshot option \<Rightarrow> u64" where
  "heap_of after = (case after of None \<Rightarrow> 0 | Some v \<Rightarrow> sn_GoHeapAlloc v)"

definition measure_bench :: "('w, 'f) scenv \<Rightarrow> bench_config \<Rightarrow> string \<Rightarrow> int \<Rightarrow> ('w, 'f) bench_op \<Rightarrow> ('w, 'f measuredOut option) bgo" where
  "measure_bench x cfg rt tot opFn = do {
     w \<leftarrow> (if 0 < bc_Warmup cfg then invocations (nat (bc_Warmup cfg)) opFn else return_go (Some []));
     if w = None then return_go None
     else do {
       before \<leftarrow> (if scrapes cfg rt then scrapeShimVars x (bc_ShimVarsURL cfg) else return_go None);
       t0 \<leftarrow> ask (be_now (sc_bench x));
       rs \<leftarrow> invocations (nat tot) opFn;
       t1 \<leftarrow> ask (be_now (sc_bench x));
       sres \<leftarrow> sample_window x cfg;
       case rs of
         None \<Rightarrow> return_go None
       | Some rs \<Rightarrow> do {
           after \<leftarrow> (if scrapes cfg rt then scrapeShimVars x (bc_ShimVarsURL cfg) else return_go None);
           return_go (Some \<lparr>mo_raw = raw_of rs, mo_errs = errs_of rs, mo_wall = t1 - t0, mo_count = tot, mo_sample = sres,
             mo_vars = (if scrapes cfg rt then diffShimVars (sc_fl x) before after else None), mo_goHeap = heap_of after\<rparr>) } } }"

record 'f ScenarioResult =
  sr_Scenario :: string
  sr_Runtime :: string
  sr_Variant :: string
  sr_Parallel :: int
  sr_ScaleCount :: int
  sr_Iterations :: int
  sr_Errors :: int
  sr_WallSeconds :: 'f
  sr_ThroughputOpsPerSec :: 'f
  sr_Ops :: "(string \<times> 'f OpStats) list"
  sr_CPUSeconds :: "category \<rightharpoonup> 'f"
  sr_SystemCPUSeconds :: 'f
  sr_HarnessCPUSeconds :: 'f
  sr_AttribCPUSeconds :: 'f
  sr_SystemUtilPct :: 'f
  sr_ShimCgroupCPUSecond :: 'f
  sr_MemPeakPss :: "category \<rightharpoonup> u64"
  sr_MemMeanPss :: "category \<rightharpoonup> u64"
  sr_ShimVars :: "'f ShimVarsDelta option"
  sr_ShimGoHeapBytes :: u64
  sr_Series :: "'f point list"

fun summarize_all :: "'f floats \<Rightarrow> 'f rounding \<Rightarrow> (string \<times> 'f list) list \<Rightarrow> (string \<times> 'f OpStats) list option" where
  "summarize_all fl ro [] = Some []"
| "summarize_all fl ro ((k, vs) # raw) =
     Option.bind (summarize fl ro vs True) (\<lambda>st. map_option ((#) (k, st)) (summarize_all fl ro raw))"

definition throughput :: "'f floats \<Rightarrow> int \<Rightarrow> nat \<Rightarrow> time \<Rightarrow> 'f" where
  "throughput fl cnt errs wall =
     (if wall > 0 then fl_div fl (fl_num fl (cnt - int errs)) (fl_seconds fl wall) else fl_num fl 0)"

definition buildResult :: "'f floats \<Rightarrow> 'f rounding \<Rightarrow> string \<Rightarrow> string \<Rightarrow> string \<Rightarrow> int \<Rightarrow> 'f measuredOut \<Rightarrow> 'f ScenarioResult option" where
  "buildResult fl ro scenario rt variant parallel m =
     (let sm = mo_sample m; attrib = fl_sub fl (sr_sysBusySeconds sm) (sr_harnessSeconds sm)
      in map_option (\<lambda>ops.
           \<lparr>sr_Scenario = scenario, sr_Runtime = rt, sr_Variant = variant, sr_Parallel = parallel, sr_ScaleCount = 0,
            sr_Iterations = mo_count m, sr_Errors = int (mo_errs m), sr_WallSeconds = fl_seconds fl (mo_wall m),
            sr_ThroughputOpsPerSec = throughput fl (mo_count m) (mo_errs m) (mo_wall m), sr_Ops = ops,
            sr_CPUSeconds = sr_cpuSeconds sm, sr_SystemCPUSeconds = sr_sysBusySeconds sm, sr_HarnessCPUSeconds = sr_harnessSeconds sm,
            sr_AttribCPUSeconds = (if fl_lt fl attrib (fl_num fl 0) then fl_num fl 0 else attrib),
            sr_SystemUtilPct = (if fl_lt fl (fl_num fl 0) (sr_sysTotalSeconds sm)
                                then fl_mul fl (fl_div fl (sr_sysBusySeconds sm) (sr_sysTotalSeconds sm)) (fl_num fl 100) else fl_num fl 0),
            sr_ShimCgroupCPUSecond = sr_shimCgroupSeconds sm, sr_MemPeakPss = sr_peakPss sm, sr_MemMeanPss = sr_meanPss sm,
            sr_ShimVars = mo_vars m, sr_ShimGoHeapBytes = mo_goHeap m, sr_Series = sr_series sm\<rparr>)
         (summarize_all fl ro (mo_raw m)))"

subsection \<open>The scenarios\<close>

definition lifted :: "('w, 'a) bgo \<Rightarrow> ('w, 'a option) bgo" where
  "lifted m = do { r \<leftarrow> m; return_go (Some r) }"

definition result_of :: "('w, 'f) scenv \<Rightarrow> string \<Rightarrow> string \<Rightarrow> string \<Rightarrow> int \<Rightarrow> 'f measuredOut option \<Rightarrow> 'f ScenarioResult option" where
  "result_of x scenario rt variant parallel m = Option.bind m (buildResult (sc_fl x) (sc_ro x) scenario rt variant parallel)"

definition scenarioContainer :: "('w, 'f) scenv \<Rightarrow> bench_config \<Rightarrow> string \<Rightarrow> bool \<Rightarrow> int \<Rightarrow> ('w, 'f ScenarioResult option) bgo" where
  "scenarioContainer x cfg rt tty parallel = do {
     m \<leftarrow> measure_bench x cfg rt (bc_Iterations cfg) (lifted (containerLifecycle (sc_bench x) rt tty));
     return_go (result_of x (if tty then ''container-tty'' else ''container'') rt '''' parallel m) }"

text \<open>The task of an invocation: \<open>tasks[int(rr.Add(1)) % len(tasks)]\<close>, where other invocations move the counter too. With no tasks this divides by zero.\<close>

definition pick :: "('w, 'f) scenv \<Rightarrow> string list \<Rightarrow> ('w, string option) bgo" where
  "pick x tasks = do {
     rr \<leftarrow> ask (sc_rr x);
     return_go (if tasks = [] then None else Some (tasks ! (rr mod length tasks))) }"

definition exec_op :: "('w, 'f) scenv \<Rightarrow> string list \<Rightarrow> bool \<Rightarrow> ('w, 'f) bench_op" where
  "exec_op x tasks tty = do {
     t \<leftarrow> pick x tasks;
     case t of None \<Rightarrow> return_go None | Some t \<Rightarrow> lifted (execOnce (sc_bench x) t tty) }"

text \<open>
  A pool of containers around a measurement. The outer option of its result is a panic, the sum an error. A panic of an operation is one of a worker's goroutine,
  which ends the process at once; one in the statistics unwinds the scenario, so that the deferred clean-up still runs.
\<close>

definition pool_scenario ::
  "('w, 'f) scenv \<Rightarrow> string \<Rightarrow> string \<Rightarrow> int \<Rightarrow> (string list \<Rightarrow> ('w, 'f measuredOut option) bgo) \<Rightarrow> ('f measuredOut option \<Rightarrow> 'f ScenarioResult option)
     \<Rightarrow> ('w, 'f ScenarioResult result option) bgo" where
  "pool_scenario x rt prefix n body build = do {
     tp \<leftarrow> taskPool (sc_bench x) rt prefix n;
     case tp of
       Inl e \<Rightarrow> return_go (Some (Inl e))
     | Inr tasks \<Rightarrow> do {
         m \<leftarrow> body tasks;
         case m of
           None \<Rightarrow> return_go None
         | Some m \<Rightarrow> do { teardowns (sc_bench x) tasks; return_go (map_option Inr (build (Some m))) } } }"

definition scenarioExec :: "('w, 'f) scenv \<Rightarrow> bench_config \<Rightarrow> string \<Rightarrow> bool \<Rightarrow> int \<Rightarrow> bool \<Rightarrow> ('w, 'f ScenarioResult result option) bgo" where
  "scenarioExec x cfg rt tty parallel single =
     (let nContainers = (if single then 1 else parallel);
          variant = (if single then ''single-container'' else ''spread'')
      in pool_scenario x rt ''execbase'' (if nContainers < 1 then 1 else nContainers)
           (\<lambda>tasks. measure_bench x cfg rt (bc_Iterations cfg) (exec_op x tasks tty))
           (result_of x (if tty then ''exec-tty'' else ''exec'') rt variant parallel))"

definition statusPoolSize :: int where "statusPoolSize = 10"

definition status_op :: "('w, 'f) scenv \<Rightarrow> string list \<Rightarrow> ('w, 'f) bench_op" where
  "status_op x tasks = do {
     t \<leftarrow> pick x tasks;
     case t of
       None \<Rightarrow> return_go None
     | Some t \<Rightarrow> do {
         t0 \<leftarrow> ask (be_now (sc_bench x));
         e \<leftarrow> ask (sc_Status x t);
         d \<leftarrow> msSince (sc_bench x) t0;
         if e \<noteq> None then return_go (Some ([(''state'', d)], e))
         else do {
           t1 \<leftarrow> ask (be_now (sc_bench x));
           e \<leftarrow> ask (sc_Metrics x t);
           d' \<leftarrow> msSince (sc_bench x) t1;
           return_go (Some ([(''state'', d), (''stats'', d')], e)) } } }"

definition scenarioStatus :: "('w, 'f) scenv \<Rightarrow> bench_config \<Rightarrow> string \<Rightarrow> int \<Rightarrow> ('w, 'f ScenarioResult result option) bgo" where
  "scenarioStatus x cfg rt parallel = pool_scenario x rt ''statusbase'' statusPoolSize
     (\<lambda>tasks. measure_bench x cfg rt (bc_StatusLoops cfg) (status_op x tasks)) (result_of x ''status'' rt '''' parallel)"

text \<open>Launching the containers of the scale scenario: the results, and the containers to tear down.\<close>

fun launch_all :: "('w, 'f) scenv \<Rightarrow> string \<Rightarrow> nat \<Rightarrow> string list \<Rightarrow> ('w, ('f ops \<times> err option) list \<times> string list) bgo" where
  "launch_all x rt 0 tds = return_go ([], tds)"
| "launch_all x rt (Suc n) tds = do {
     t0 \<leftarrow> ask (be_now (sc_bench x));
     i \<leftarrow> uid (sc_bench x) ''scale'';
     e \<leftarrow> longContainer (sc_bench x) rt i;
     d \<leftarrow> msSince (sc_bench x) t0;
     (rs, tds) \<leftarrow> launch_all x rt n (if e = None then tds @ [i] else tds);
     return_go (([(''launch'', d)], e) # rs, tds) }"

definition scenarioScale :: "('w, 'f) scenv \<Rightarrow> bench_config \<Rightarrow> string \<Rightarrow> int \<Rightarrow> ('w, 'f ScenarioResult result option) bgo" where
  "scenarioScale x cfg rt cnt =
     (if bc_Parallel cfg = [] then return_go None
      else do {
        before \<leftarrow> (if scrapes cfg rt then scrapeShimVars x (bc_ShimVarsURL cfg) else return_go None);
        t0 \<leftarrow> ask (be_now (sc_bench x));
        (rs, tds) \<leftarrow> launch_all x rt (nat cnt) [];
        t1 \<leftarrow> ask (be_now (sc_bench x));
        sres \<leftarrow> sample_window x cfg;
        after \<leftarrow> (if scrapes cfg rt then scrapeShimVars x (bc_ShimVarsURL cfg) else return_go None);
        teardowns (sc_bench x) tds;
        let m = \<lparr>mo_raw = raw_of rs, mo_errs = errs_of rs, mo_wall = t1 - t0, mo_count = cnt, mo_sample = sres,
          mo_vars = (if scrapes cfg rt then diffShimVars (sc_fl x) before after else None), mo_goHeap = heap_of after\<rparr>;
        return_go (map_option (\<lambda>r. Inr (r\<lparr>sr_ScaleCount := cnt,
            sr_ThroughputOpsPerSec := (if t1 - t0 > 0 then throughput (sc_fl x) cnt (errs_of rs) (t1 - t0) else sr_ThroughputOpsPerSec r)\<rparr>))
          (result_of x ''scale'' rt '''' 0 (Some m))) })"

subsection \<open>Runs\<close>

text \<open>The cells of a scenario, one after the other; a cell that fails is left out, a panic ends all.\<close>

fun cells :: "('w, 'f ScenarioResult result option) bgo list \<Rightarrow> ('w, 'f ScenarioResult list option) bgo" where
  "cells [] = return_go (Some [])"
| "cells (c # cs) = do {
     r \<leftarrow> c;
     case r of
       None \<Rightarrow> return_go None
     | Some r \<Rightarrow> do {
         rs \<leftarrow> cells cs;
         return_go (map_option (\<lambda>rs. case r of Inl _ \<Rightarrow> rs | Inr v \<Rightarrow> v # rs) rs) } }"

definition container_cell :: "('w, 'f) scenv \<Rightarrow> bench_config \<Rightarrow> string \<Rightarrow> bool \<Rightarrow> int \<Rightarrow> ('w, 'f ScenarioResult result option) bgo" where
  "container_cell x cfg rt tty p = do { r \<leftarrow> scenarioContainer x cfg rt tty p; return_go (map_option Inr r) }"

definition scenario_cells :: "('w, 'f) scenv \<Rightarrow> bench_config \<Rightarrow> string \<Rightarrow> string \<Rightarrow> ('w, 'f ScenarioResult result option) bgo list" where
  "scenario_cells x cfg rt sc =
     (if sc = ''container'' then map (container_cell x cfg rt False) (bc_Parallel cfg)
      else if sc = ''container-tty'' then map (container_cell x cfg rt True) (bc_Parallel cfg)
      else if sc = ''exec'' \<or> sc = ''exec-tty'' then
        concat (map (\<lambda>p. scenarioExec x cfg rt (sc = ''exec-tty'') p False
                        # (if p > 1 then [scenarioExec x cfg rt (sc = ''exec-tty'') p True] else [])) (bc_Parallel cfg))
      else if sc = ''status'' then map (scenarioStatus x cfg rt) (bc_Parallel cfg)
      else if sc = ''scale'' then map (scenarioScale x cfg rt) (bc_ScaleCounts cfg)
      else [])"

definition runScenario :: "('w, 'f) scenv \<Rightarrow> bench_config \<Rightarrow> string \<Rightarrow> string \<Rightarrow> ('w, 'f ScenarioResult list option) bgo" where
  "runScenario x cfg rt sc = cells (scenario_cells x cfg rt sc)"

subsection \<open>Programs that give back what they took\<close>

text \<open>
  \<open>restores R S m P\<close>: from every driver that holds \<open>S\<close> and whose ids to come are fresh, \<open>m\<close> ends holding \<open>S\<close> again, with a result that satisfies \<open>P\<close>.
\<close>

definition restores :: "(bop \<times> err option) list \<times> res set \<Rightarrow> res set \<Rightarrow> ('w, 'a) bgo \<Rightarrow> ('a \<Rightarrow> bool) \<Rightarrow> bool" where
  "restores R S m P \<longleftrightarrow> (\<forall>n. fresh n S \<longrightarrow> via (view R) (Some S, n) m (\<lambda>r b. \<exists>k\<ge>n. b = (Some S, k) \<and> P r))"

named_theorems restores_rules \<open>programs that give back what they took\<close>

lemma fresh_mono: "fresh n S \<Longrightarrow> n \<le> k \<Longrightarrow> fresh k S"
  by (auto simp: fresh_def)

lemma restores_return [restores_rules]: "P r \<Longrightarrow> restores R S (return_go r) P"
  unfolding restores_def by (auto intro!: via_return)

lemma restores_bind:
  assumes "restores R S m P" "\<And>r. P r \<Longrightarrow> restores R S (f r) Q"
  shows "restores R S (State_Monad.bind m f) Q"
  unfolding restores_def
proof (intro allI impI)
  fix n assume n: "fresh n S"
  show "via (view R) (Some S, n) (State_Monad.bind m f) (\<lambda>r b. \<exists>k\<ge>n. b = (Some S, k) \<and> Q r)"
  proof (intro via_bind via_mono [OF assms(1) [unfolded restores_def, rule_format, OF n]], elim exE conjE)
    fix r b k assume k: "n \<le> k" "b = (Some S, k)" and P: "P r"
    from assms(2) [OF P] fresh_mono [OF n k(1)] have "via (view R) (Some S, k) (f r) (\<lambda>r b. \<exists>k'\<ge>k. b = (Some S, k') \<and> Q r)"
      by (simp add: restores_def)
    then show "via (view R) b (f r) (\<lambda>r b. \<exists>k\<ge>n. b = (Some S, k) \<and> Q r)"
      unfolding k(2) by (rule via_mono) (use k(1) in \<open>auto intro: order_trans\<close>)
  qed
qed

lemma restores_any [restores_rules]: "restores R S m (\<lambda>_. True) \<Longrightarrow> (\<And>r. restores R S (f r) Q) \<Longrightarrow> restores R S (State_Monad.bind m f) Q"
  by (rule restores_bind)

lemma restores_mono: "restores R S m P \<Longrightarrow> (\<And>r. P r \<Longrightarrow> Q r) \<Longrightarrow> restores R S m Q"
  unfolding restores_def by (blast intro: via_mono)

lemma restores_if [restores_rules]: "(b \<Longrightarrow> restores R S m P) \<Longrightarrow> (\<not> b \<Longrightarrow> restores R S k P) \<Longrightarrow> restores R S (if b then m else k) P"
  by simp

lemma restores_option [restores_rules]:
  "(v = None \<Longrightarrow> restores R S m P) \<Longrightarrow> (\<And>y. v = Some y \<Longrightarrow> restores R S (f y) P) \<Longrightarrow> restores R S (case v of None \<Rightarrow> m | Some y \<Rightarrow> f y) P"
  by (cases v) simp_all

lemma restores_Let [restores_rules]: "restores R S (f v) P \<Longrightarrow> restores R S (Let v f) P"
  by simp

lemma restores_ask [restores_rules]: "(\<And>r. P r) \<Longrightarrow> restores R S (ask f) P"
  unfolding restores_def by (auto intro!: via_ask)

lemma restores_msSince [restores_rules]: "(\<And>r. P r) \<Longrightarrow> restores R S (msSince x t) P"
  unfolding restores_def by (auto intro!: via_msSince)

lemma restores_containerLifecycle:
  "RMaster \<notin> S \<Longrightarrow> RSlave \<notin> S \<Longrightarrow> restores R S (containerLifecycle x rt tty) (\<lambda>_. True)"
  unfolding restores_def fresh_def by (auto intro!: via_containerLifecycle intro: less_imp_le)

lemma restores_execOnce:
  "RMaster \<notin> S \<Longrightarrow> RSlave \<notin> S \<Longrightarrow> RProc (TaskOf t) \<in> S \<Longrightarrow> restores R S (execOnce x t tty) (\<lambda>_. True)"
  unfolding restores_def fresh_def by (auto intro!: via_execOnce)

lemma restores_lifted: "restores R S m (\<lambda>_. True) \<Longrightarrow> restores R S (lifted m) (\<lambda>r. r \<noteq> None)"
  unfolding lifted_def by (intro restores_rules) auto

lemma restores_invocations:
  assumes "restores R S opFn (\<lambda>r. r \<noteq> None)"
  shows "restores R S (invocations n opFn) (\<lambda>rs. \<exists>l. rs = Some l \<and> length l = n)"
proof (induction n)
  case (Suc n)
  show ?case unfolding invocations.simps
    by (rule restores_bind [OF assms], rule restores_option) (auto intro!: restores_bind [OF Suc] restores_return)
qed (simp add: restores_return)

lemma samples_length: "length (samples k rs) \<le> length rs"
  unfolding samples_def by (induction rs) (auto split: option.splits)

text \<open>What a measurement of \<open>tot\<close> invocations returns: no panic, and no more values per operation than invocations.\<close>

definition measured :: "int \<Rightarrow> 'f measuredOut option \<Rightarrow> bool" where
  "measured tot m \<longleftrightarrow> (case m of None \<Rightarrow> False | Some m \<Rightarrow> list_all (\<lambda>(k, vs). length vs \<le> nat tot) (mo_raw m))"

lemma raw_of_length: "length rs = n \<Longrightarrow> list_all (\<lambda>(k, vs). length vs \<le> n) (raw_of rs)"
  by (auto simp: raw_of_def list_all_iff intro: order_trans [OF samples_length])

lemma via_sampling [via_rules]:
  "(\<And>r. Q r a) \<Longrightarrow> via (view R) a (sample_window x cfg) Q" "(\<And>r. Q' r a) \<Longrightarrow> via (view R) a (scrapeShimVars x url) Q'"
  unfolding sample_window_def scrapeShimVars_def by (intro via_rules; simp)+

lemma restores_sampling [restores_rules]:
  "(\<And>r. P r) \<Longrightarrow> restores R S (sample_window x cfg) P" "(\<And>r. P' r) \<Longrightarrow> restores R S (scrapeShimVars x url) P'"
  unfolding restores_def by (auto intro!: via_sampling)

lemma restores_measure_bench:
  assumes "restores R S opFn (\<lambda>r. r \<noteq> None)"
  shows "restores R S (measure_bench x cfg rt tot opFn) (measured tot)"
proof -
  note inv = restores_invocations [OF assms]
  have w: "restores R S (if 0 < bc_Warmup cfg then invocations (nat (bc_Warmup cfg)) opFn else return_go (Some [])) (\<lambda>r. r \<noteq> None)"
    by (intro restores_rules restores_mono [OF inv]) auto
  have rest: "restores R S (do { rs \<leftarrow> invocations (nat tot) opFn; f rs }) (measured tot)"
    if "\<And>l. length l = nat tot \<Longrightarrow> restores R S (f (Some l)) (measured tot)" for f
    by (rule restores_bind [OF inv]) (use that in auto)
  show ?thesis unfolding measure_bench_def
    by (rule restores_bind [OF w]) (rule rest restores_rules TrueI | simp add: measured_def raw_of_length)+
qed

lemma summarize_all_some:
  assumes "float_laws fl ro"
  shows "list_all (\<lambda>(k, vs). int (length vs) \<le> 2 ^ 53) raw \<Longrightarrow> summarize_all fl ro raw \<noteq> None"
proof (induction raw)
  case (Cons c raw)
  then show ?case using summarize_value [OF assms, of "snd c" True] by (cases c) auto
qed simp

lemma result_of_some:
  assumes "float_laws (sc_fl x) (sc_ro x)" "tot \<le> 2 ^ 53" "measured tot m"
  shows "result_of x scenario rt variant parallel m \<noteq> None"
proof -
  obtain d where d: "m = Some d" "list_all (\<lambda>(k, vs). length vs \<le> nat tot) (mo_raw d)"
    using assms(3) by (auto simp: measured_def split: option.splits)
  have "list_all (\<lambda>(k, vs). int (length vs) \<le> 2 ^ 53) (mo_raw d)"
    by (rule list.pred_mono_strong [OF d(2)]) (use assms(2) in auto)
  from summarize_all_some [OF assms(1) this] show ?thesis by (simp add: result_of_def d(1) buildResult_def Let_def)
qed

text \<open>The operations of the pools, on the tasks of a pool that is held.\<close>

lemma restores_pick:
  "tasks \<noteq> [] \<Longrightarrow> restores R S (pick x tasks) (\<lambda>t. \<exists>i. t = Some i \<and> i \<in> set tasks)"
  unfolding pick_def by (rule restores_any, rule restores_rules) (auto intro!: restores_return)

lemma restores_exec_op:
  assumes "tasks \<noteq> []" "RMaster \<notin> S" "RSlave \<notin> S" "pool tasks \<subseteq> S"
  shows "restores R S (exec_op x tasks tty) (\<lambda>r. r \<noteq> None)"
  unfolding exec_op_def
proof (rule restores_bind [OF restores_pick [OF assms(1)]], elim exE conjE)
  fix t i assume t: "t = Some i" "i \<in> set tasks"
  then have "RProc (TaskOf i) \<in> S" using assms(4) by (meson imageI pool_mem(2) subsetD)
  with t(1) show "restores R S (case t of None \<Rightarrow> return_go None | Some t \<Rightarrow> lifted (execOnce (sc_bench x) t tty)) (\<lambda>r. r \<noteq> None)"
    by (simp only: option.case) (intro restores_lifted restores_execOnce assms(2,3))
qed

lemma restores_status_op:
  assumes "tasks \<noteq> []"
  shows "restores R S (status_op x tasks) (\<lambda>r. r \<noteq> None)"
  unfolding status_op_def
  by (rule restores_bind [OF restores_pick [OF assms]], elim exE conjE, simp) (rule restores_rules TrueI | simp)+

text \<open>Ids to come stay fresh when a pool of ids made before is added.\<close>

lemma fresh_pool:
  assumes "fresh n S" "n \<le> m" "\<And>i. i \<in> set is \<Longrightarrow> \<exists>k\<le>m. i = bench_id p k"
  shows "fresh m (S \<union> pool is)"
proof -
  have "bench_id q k \<notin> set is" if "m < k" for q k
    using assms(3) [of "bench_id q k"] bench_id_number [of q k p] that by (metis leD)
  then show ?thesis using assms(1,2) by (auto simp: fresh_def)
qed

lemma restores_pool_scenario:
  fixes x :: "('w, 'f) scenv" and body :: "string list \<Rightarrow> ('w, 'f measuredOut option) bgo"
  assumes "RMaster \<notin> S" "RSlave \<notin> S" "0 < n"
    and body: "\<And>tasks. tasks \<noteq> [] \<Longrightarrow> restores R (S \<union> pool tasks) (body tasks) (measured tot)"
    and build: "\<And>m. measured tot m \<Longrightarrow> build m \<noteq> None"
  shows "restores R S (pool_scenario x rt prefix n body build) (\<lambda>r. r \<noteq> None)"
  unfolding restores_def
proof (intro allI impI)
  fix k assume k: "fresh k S"
  let ?Q = "\<lambda>r b. \<exists>k'\<ge>k. b = (Some S, k') \<and> r \<noteq> None"
  have tasks: "via (view R) (Some (S \<union> pool is), m) (do { c \<leftarrow> body is; case c of None \<Rightarrow> return_go None
      | Some c \<Rightarrow> do { teardowns (sc_bench x) is; return_go (map_option Inr (build (Some c))) } }) ?Q"
    if m: "k \<le> m" and l: "length is = nat n" "distinct is" "\<And>i. i \<in> set is \<Longrightarrow> RContainer i \<notin> S \<and> \<not> occupied S i"
      and ids: "\<And>i. i \<in> set is \<Longrightarrow> \<exists>j\<le>m. i = bench_id prefix j" for "is" m
  proof -
    have "is \<noteq> []" using l(1) assms(3) by auto
    from body [OF this] fresh_pool [OF k m ids]
    have "via (view R) (Some (S \<union> pool is), m) (body is) (\<lambda>r b. \<exists>k'\<ge>m. b = (Some (S \<union> pool is), k') \<and> measured tot r)"
      by (simp add: restores_def)
    then show ?thesis
    proof (intro via_bind, elim via_mono exE conjE)
      fix c :: "'f measuredOut option" and b k' assume c: "m \<le> k'" "b = (Some (S \<union> pool is), k')" "measured tot c"
      obtain d where d: "c = Some d" using c(3) by (cases c) (auto simp: measured_def)
      show "via (view R) b (case c of None \<Rightarrow> return_go None
        | Some c \<Rightarrow> do { teardowns (sc_bench x) is; return_go (map_option Inr (build (Some c))) }) ?Q"
        using build [OF c(3)] c(1) m unfolding d c(2) option.case
        by (intro via_bind via_teardowns l(2,3) via_return) (auto intro: order_trans)
    qed
  qed
  have "via (view R) (Some (S \<union> pool []), k) (pool_scenario x rt prefix n body build) ?Q"
    unfolding pool_scenario_def taskPool_def
    by (rule via_bind, rule via_taskPool_from)
      (use k in \<open>auto simp: fresh_def simp del: not_None_eq intro!: via_return tasks\<close>)
  then show "via (view R) (Some S, k) (pool_scenario x rt prefix n body build) ?Q" by simp
qed

lemma via_launch_all:
  assumes "\<And>i. i \<in> set is \<Longrightarrow> \<exists>k\<le>n. i = bench_id ''scale'' k"
    and "distinct is" "\<And>i. i \<in> set is \<Longrightarrow> RContainer i \<notin> S \<and> \<not> occupied S i"
    and "\<And>m. n < m \<Longrightarrow> RContainer (bench_id ''scale'' m) \<notin> S \<and> \<not> occupied S (bench_id ''scale'' m)"
    and "\<And>rs js m. n \<le> m \<Longrightarrow> length rs = k \<Longrightarrow> distinct js \<Longrightarrow> (\<And>i. i \<in> set js \<Longrightarrow> RContainer i \<notin> S \<and> \<not> occupied S i)
         \<Longrightarrow> (\<And>i. i \<in> set js \<Longrightarrow> \<exists>k\<le>m. i = bench_id ''scale'' k) \<Longrightarrow> Q (rs, js) (Some (S \<union> pool js), m)"
  shows "via (view R) (Some (S \<union> pool is), n) (launch_all x rt k is) Q"
  using assms
proof (induction k arbitrary: "is" n Q)
  case 0
  then show ?case by (simp add: via_return)
next
  case (Suc k)
  have new: "bench_id ''scale'' m \<notin> set is" if "n < m" for m
    using Suc.prems(1) [of "bench_id ''scale'' m"] that by auto
  have IH: "via (view R) (Some (S \<union> pool js), m) (launch_all x rt k js) (\<lambda>r b. via (view R) b (case r of (rs, tds) \<Rightarrow> return_go (c # rs, tds)) Q)"
    if m: "n < m" and js: "js = is \<or> js = is @ [bench_id ''scale'' m]" for m js c
  proof (rule Suc.IH)
    show "\<exists>k\<le>m. i = bench_id ''scale'' k" if "i \<in> set js" for i
      using that js Suc.prems(1) [of i] m by (auto intro: order_trans less_imp_le)
  qed (use m js Suc.prems(2-5) new in \<open>auto intro!: via_return\<close>)
  have ok: "via (view R) (Some (insert (RProc (TaskOf (bench_id ''scale'' m))) (insert (RContainer (bench_id ''scale'' m)) (S \<union> pool is))), m)
      (launch_all x rt k (is @ [bench_id ''scale'' m])) (\<lambda>r b. via (view R) b (case r of (rs, tds) \<Rightarrow> return_go (c # rs, tds)) Q)" if "n < m" for m c
    using IH [OF that, of "is @ [bench_id ''scale'' m]" c] by simp
  show ?case unfolding launch_all.simps
    by (intro via_ask via_bind via_uid via_longContainer via_msSince) (use Suc.prems(4) new IH [OF _ disjI1 [OF refl]] ok in auto)
qed

lemma restores_scenarioScale:
  assumes "RMaster \<notin> S" "RSlave \<notin> S" "bc_Parallel cfg \<noteq> []" "float_laws (sc_fl x) (sc_ro x)" "cnt \<le> 2 ^ 53"
  shows "restores R S (scenarioScale x cfg rt cnt) (\<lambda>r. r \<noteq> None)"
  unfolding restores_def
proof (intro allI impI)
  fix k assume k: "fresh k S"
  let ?Q = "\<lambda>r b. \<exists>k'\<ge>k. b = (Some S, k') \<and> r \<noteq> None"
  have res: "result_of x ''scale'' rt '''' 0 (Some \<lparr>mo_raw = raw_of rs, mo_errs = e, mo_wall = w, mo_count = cnt, mo_sample = sm, mo_vars = v, mo_goHeap = h\<rparr>) \<noteq> None"
    if "length rs = nat cnt" for rs e w sm v h
    by (rule result_of_some [OF assms(4,5)]) (simp add: measured_def raw_of_length that)
  note res' = res [unfolded not_None_eq]
  have "via (view R) (Some (S \<union> pool []), k) (scenarioScale x cfg rt cnt) ?Q"
    unfolding scenarioScale_def if_not_P [OF assms(3)]
    by (intro via_rules via_launch_all) (use k res' in \<open>auto simp: fresh_def intro!: via_teardowns via_return\<close>)
  then show "via (view R) (Some S, k) (scenarioScale x cfg rt cnt) ?Q" by simp
qed

lemma restores_cells:
  "list_all (\<lambda>c. restores R S c (\<lambda>r. r \<noteq> None)) cs \<Longrightarrow> restores R S (cells cs) (\<lambda>r. r \<noteq> None)"
proof (induction cs)
  case (Cons c cs)
  then have c: "restores R S c (\<lambda>r. r \<noteq> None)" and IH: "restores R S (cells cs) (\<lambda>r. r \<noteq> None)" by simp_all
  show ?case unfolding cells.simps
    by (rule restores_bind [OF c], rule restores_option) (simp, rule restores_bind [OF IH], auto intro!: restores_return)
qed (simp add: restores_return)

text \<open>No index of the statistics leaves its slice: IEEE arithmetic, and counts that floating point numbers represent.\<close>

definition measurable :: "('w, 'f) scenv \<Rightarrow> bench_config \<Rightarrow> bool" where
  "measurable x cfg \<longleftrightarrow> float_laws (sc_fl x) (sc_ro x) \<and> bc_Iterations cfg \<le> 2 ^ 53 \<and> bc_StatusLoops cfg \<le> 2 ^ 53
     \<and> list_all (\<lambda>n. n \<le> 2 ^ 53) (bc_ScaleCounts cfg)"

lemma restores_scenarioExec:
  assumes "RMaster \<notin> S" "RSlave \<notin> S" "measurable x cfg"
  shows "restores R S (scenarioExec x cfg rt tty p single) (\<lambda>r. r \<noteq> None)"
  unfolding scenarioExec_def Let_def
  by (rule restores_pool_scenario [where tot = "bc_Iterations cfg"]; (intro restores_measure_bench restores_exec_op result_of_some)?)
    (use assms in \<open>auto simp: measurable_def\<close>)

lemma restores_scenarioStatus:
  assumes "RMaster \<notin> S" "RSlave \<notin> S" "measurable x cfg"
  shows "restores R S (scenarioStatus x cfg rt p) (\<lambda>r. r \<noteq> None)"
  unfolding scenarioStatus_def
  by (rule restores_pool_scenario [where tot = "bc_StatusLoops cfg"]; (intro restores_measure_bench restores_status_op result_of_some)?)
    (use assms in \<open>auto simp: measurable_def statusPoolSize_def\<close>)

lemma restores_container_cell:
  assumes "RMaster \<notin> S" "RSlave \<notin> S" "measurable x cfg"
  shows "restores R S (container_cell x cfg rt tty p) (\<lambda>r. r \<noteq> None)"
proof -
  have "restores R S (scenarioContainer x cfg rt tty p) (\<lambda>r. r \<noteq> None)"
    unfolding scenarioContainer_def
    by (rule restores_bind [OF restores_measure_bench [OF restores_lifted [OF restores_containerLifecycle [OF assms(1,2)]]]], rule restores_return, rule result_of_some)
      (use assms(3) in \<open>auto simp: measurable_def\<close>)
  then show ?thesis unfolding container_cell_def by (rule restores_bind) (auto intro!: restores_return)
qed

lemma list_all_if: "list_all P xs \<Longrightarrow> list_all P ys \<Longrightarrow> list_all P (if b then xs else ys)"
  by simp

lemma restores_runScenario:
  assumes "RMaster \<notin> S" "RSlave \<notin> S" "measurable x cfg" "bc_Parallel cfg \<noteq> []"
  shows "restores R S (runScenario x cfg rt sc) (\<lambda>r. r \<noteq> None)"
proof -
  have "restores R S (scenarioScale x cfg rt n) (\<lambda>r. r \<noteq> None)" if "n \<in> set (bc_ScaleCounts cfg)" for n
    by (rule restores_scenarioScale) (use assms that in \<open>auto simp: measurable_def list_all_iff\<close>)
  then have "list_all (\<lambda>c. restores R S c (\<lambda>r. r \<noteq> None)) (scenario_cells x cfg rt sc)"
    using restores_container_cell [OF assms(1-3)] restores_scenarioExec [OF assms(1-3)] restores_scenarioStatus [OF assms(1-3)]
    unfolding scenario_cells_def by (intro list_all_if) (auto simp: list_all_iff simp del: not_None_eq)
  then show ?thesis unfolding runScenario_def by (rule restores_cells)
qed

lemma configure_parallel:
  "bc_Parallel (configure stamp fg) \<noteq> [] \<and> list_all (\<lambda>p. 0 < p) (bc_Parallel (configure stamp fg))"
  by (auto simp: configure_def parseIntList_def Let_def map_filter_def list_all_iff split: option.splits if_splits)

text \<open>
  Whatever containerd, the pty layer, the clock, the counters of the shim and the processes do, a run of any scenario on any runtime, with a
  configuration made of any flags, ends holding what it began with: every cell gives back each pty, container, task and exec it made, also one that
  fails half-way through its pool. And it never panics: no pool is empty when an operation picks a task of it, the scale scenario has a largest parallelism, no percentile is
  taken outside its slice.
\<close>

theorem scenarios_clean_up:
  assumes "held R s = Some S" "fresh (bd_seq s) S" "RMaster \<notin> S" "RSlave \<notin> S"
    and "measurable x (configure stamp fg)"
  shows "case run_state (runScenario x (configure stamp fg) rt scenario) s of
           (r, s') \<Rightarrow> r \<noteq> None \<and> held R s' = Some S"
proof -
  let ?m = "runScenario x (configure stamp fg) rt scenario"
  have v: "view ([], R) s = (Some S, bd_seq s)" using assms(1) by (simp add: view_def held_def)
  have "via (view ([], R)) (view ([], R) s) ?m (\<lambda>r b. \<exists>k\<ge>bd_seq s. b = (Some S, k) \<and> r \<noteq> None)"
    unfolding v using restores_runScenario [OF assms(3-5) configure_parallel [THEN conjunct1]] assms(2) by (simp only: restores_def)
  from viaD [OF this] show ?thesis by (cases "run_state ?m s") (auto simp: view_def held_def)
qed

text \<open>The outside of an example: the driver's example, a sampler that sees two processes' worth of ticks, and a shim whose counters cannot be read.\<close>

definition demo_window :: window where
  "demo_window = \<lparr>wi_start = demo_proc 0 ''1'' ''2'', wi_first = demo_proc 1 ''1'' ''2'', wi_ticks = [demo_proc 2 ''2'' ''3''], wi_stop = demo_proc 3 ''2'' ''3'',
     wi_end = demo_proc 3 ''2'' ''3'', wi_now = 4\<rparr>"

definition demo_scenv :: "(nat, int) scenv" where
  "demo_scenv = \<lparr>sc_bench = demo_bench, sc_fl = demo_floats, sc_ro = demo_rounding, sc_window = (\<lambda>w. (demo_window, w)),
     sc_scrape = (\<lambda>url w. (Inl ErrCanceled, w)), sc_Status = (\<lambda>t w. (None, w)), sc_Metrics = (\<lambda>t w. (Some ErrCanceled, w)), sc_rr = (\<lambda>w. (w + 1, w))\<rparr>"

abbreviation demo_config :: bench_config where
  "demo_config \<equiv> configure ''20260101-000000'' default_flags"

lemma demo_config_value: "bc_Iterations demo_config = 50" "bc_StatusLoops demo_config = 500" "bc_ScaleCounts demo_config = [1, 5, 10, 25, 50]" "bc_Parallel demo_config = [1, 4, 8, 16]"
  by code_simp+

theorem scenarios_clean_up_witness:
  "let s = \<lparr>bd_world = 0, bd_seq = 4, bd_log = []\<rparr>; S = pool [''c0'']
   in held S s = Some S \<and> fresh (bd_seq s) S \<and> measurable demo_scenv demo_config
     \<and> (case run_state (runScenario demo_scenv demo_config runtimeSystemd ''exec-tty'') s of (r, s') \<Rightarrow> r \<noteq> None \<and> held S s' = Some S)"
proof -
  let ?s = "\<lparr>bd_world = 0, bd_seq = 4, bd_log = []\<rparr>" and ?S = "pool [''c0'']"
  have 1: "held ?S ?s = Some ?S" by (simp add: held_def)
  have 2: "fresh (bd_seq ?s) ?S" by (simp add: fresh_def bench_id_def benchIDPrefix_def occupied_def)
  have 3: "measurable demo_scenv demo_config" using demo_float_laws by (simp add: measurable_def demo_config_value demo_scenv_def)
  show ?thesis unfolding Let_def
    using scenarios_clean_up [OF 1 2 pool_mem(3,4) 3, where rt = runtimeSystemd and scenario = "''exec-tty''"] 1 2 3 by (simp del: pool.simps)
qed

end
