(* ===== verification/Markup.thy ===== *)
theory Markup
  imports Sampler
begin

text \<open>
  Formatted output and markup: what the report of the benchmark uses of \<open>fmt\<close>, \<open>html\<close> and \<open>strings\<close>, and a scanner that says when a text is balanced
  markup, element by element, with every attribute value closed.
\<close>

subsection \<open>Formatting\<close>

text \<open>
  \<open>fmt.Sprintf\<close> with the verbs the report uses. The number of decimals of a floating point verb is one digit; how a number is written is a parameter.
\<close>

datatype 'f arg = Str string | Dec int | Flt 'f

fun Sprintf :: "(nat \<Rightarrow> 'f \<Rightarrow> string) \<Rightarrow> string \<Rightarrow> 'f arg list \<Rightarrow> string" where
  "Sprintf ff [] args = []"
| "Sprintf ff (c # t) args =
     (if c \<noteq> CHR ''%'' then c # Sprintf ff t args
      else (case t of
              [] \<Rightarrow> ''%!(NOVERB)''
            | v # t' \<Rightarrow>
                if v = CHR ''%'' then v # Sprintf ff t' args
                else (case args of
                        [] \<Rightarrow> ''%!'' @ v # ''(MISSING)'' @ Sprintf ff t' []
                      | Str s # args' \<Rightarrow> (if v = CHR ''s'' then s else ''%!'' @ v # ''(string='' @ s @ '')'') @ Sprintf ff t' args'
                      | Dec i # args' \<Rightarrow> (if v = CHR ''d'' then show_int i else ''%!'' @ v # ''(int='' @ show_int i @ '')'') @ Sprintf ff t' args'
                      | Flt r # args' \<Rightarrow>
                          (case t' of
                             d # f # t'' \<Rightarrow> ff (digit_val d) r @ Sprintf ff t'' args'
                           | _ \<Rightarrow> ''%!(NOVERB)''))))"

lemma Sprintf_simps [simp]:
  "c \<noteq> CHR ''%'' \<Longrightarrow> Sprintf ff (c # t) args = c # Sprintf ff t args"
  "Sprintf ff (CHR ''%'' # CHR ''%'' # t) args = CHR ''%'' # Sprintf ff t args"
  "Sprintf ff (CHR ''%'' # CHR ''s'' # t) (Str s # args) = s @ Sprintf ff t args"
  "Sprintf ff (CHR ''%'' # CHR ''d'' # t) (Dec i # args) = show_int i @ Sprintf ff t args"
  "Sprintf ff (CHR ''%'' # CHR ''.'' # d # CHR ''f'' # t) (Flt v # args) = ff (digit_val d) v @ Sprintf ff t args"
  by simp_all

declare Sprintf.simps(2) [simp del]

fun Join :: "string list \<Rightarrow> string \<Rightarrow> string" where
  "Join [] sep = ''''"
| "Join [s] sep = s"
| "Join (s # t # ss) sep = s @ sep @ Join (t # ss) sep"

definition escape_char :: "char \<Rightarrow> string" where
  "escape_char c =
     (if c = CHR ''&'' then ''&amp;'' else if c = CHR 0x27 then ''&#39;'' else if c = CHR ''<'' then ''&lt;''
      else if c = CHR ''>'' then ''&gt;'' else if c = CHR 0x22 then ''&#34;'' else [c])"

definition EscapeString :: "string \<Rightarrow> string" where
  "EscapeString s = concat (map escape_char s)"

subsection \<open>Balanced markup\<close>

text \<open>
  The scanner: where in the markup it stands, and the elements that are open, the innermost first. It fails on an end tag that does not match, on an
  angle bracket in text or in an attribute, and on an attribute value that is not closed before the tag is.
\<close>

datatype mode = InText | Name string | Attrs string | Quoted string | Slash string | EndName string | Decl

type_synonym scanner = "mode \<times> string list"

definition void_elements :: "string list" where
  "void_elements = [''meta'']"

definition opened :: "string \<Rightarrow> string list \<Rightarrow> scanner" where
  "opened n stk = (InText, if rev n \<in> set void_elements then stk else rev n # stk)"

fun step_char :: "char \<Rightarrow> scanner \<Rightarrow> scanner option" where
  "step_char c (InText, stk) = (if c = CHR ''<'' then Some (Name [], stk) else if c = CHR ''>'' then None else Some (InText, stk))"
| "step_char c (Name n, stk) =
     (if c = CHR ''>'' then (if n = [] then None else Some (opened n stk))
      else if c = CHR '' '' then (if n = [] then None else Some (Attrs n, stk))
      else if c = CHR ''/'' then (if n = [] then Some (EndName [], stk) else Some (Slash n, stk))
      else if c = CHR ''!'' \<and> n = [] then Some (Decl, stk)
      else if c = CHR ''<'' \<or> c = CHR 0x22 then None else Some (Name (c # n), stk))"
| "step_char c (Attrs n, stk) =
     (if c = CHR ''>'' then Some (opened n stk) else if c = CHR ''/'' then Some (Slash n, stk)
      else if c = CHR 0x22 then Some (Quoted n, stk) else if c = CHR ''<'' then None else Some (Attrs n, stk))"
| "step_char c (Quoted n, stk) =
     (if c = CHR 0x22 then Some (Attrs n, stk) else if c = CHR ''<'' \<or> c = CHR ''>'' then None else Some (Quoted n, stk))"
| "step_char c (Slash n, stk) = (if c = CHR ''>'' then Some (InText, stk) else None)"
| "step_char c (EndName n, stk) =
     (if c = CHR ''>'' then (case stk of [] \<Rightarrow> None | m # stk' \<Rightarrow> if rev n = m then Some (InText, stk') else None)
      else if c = CHR ''<'' \<or> c = CHR 0x22 \<or> c = CHR ''/'' then None else Some (EndName (c # n), stk))"
| "step_char c (Decl, stk) = (if c = CHR ''>'' then Some (InText, stk) else if c = CHR ''<'' then None else Some (Decl, stk))"

fun scan :: "string \<Rightarrow> scanner \<Rightarrow> scanner option" where
  "scan [] st = Some st"
| "scan (c # s) st = Option.bind (step_char c st) (scan s)"

definition well_formed :: "string \<Rightarrow> bool" where
  "well_formed s \<longleftrightarrow> scan s (InText, []) = Some (InText, [])"

lemma scan_append [simp]: "scan (a @ b) st = Option.bind (scan a st) (scan b)"
  by (induction a arbitrary: st) (auto split: Option.bind_split)

text \<open>Text that cannot open or close anything, in the content of an element or in an attribute value.\<close>

definition safe :: "string \<Rightarrow> bool" where
  "safe s \<longleftrightarrow> list_all (\<lambda>c. c \<noteq> CHR ''<'' \<and> c \<noteq> CHR ''>'' \<and> c \<noteq> CHR 0x22) s"

lemma safe_simps [simp]: "safe []" "safe (c # s) \<longleftrightarrow> c \<noteq> CHR ''<'' \<and> c \<noteq> CHR ''>'' \<and> c \<noteq> CHR 0x22 \<and> safe s" "safe (s @ t) \<longleftrightarrow> safe s \<and> safe t"
  by (auto simp: safe_def)

lemma scan_safe [simp]:
  assumes "safe s"
  shows "scan s (InText, stk) = Some (InText, stk)" "scan s (Quoted n, stk) = Some (Quoted n, stk)"
  using assms by (induction s) (simp_all add: safe_def)

lemma safe_EscapeString [simp]: "safe (EscapeString s)"
proof (induction s)
  case (Cons c s)
  have "safe (escape_char c)" by (simp add: escape_char_def)
  with Cons show ?case by (simp add: EscapeString_def)
qed (simp add: EscapeString_def)

lemma safe_show_nat: "safe (show_nat n)"
  using show_nat_digits [of n] by (auto simp: safe_def list_all_iff is_digit_def)

lemma safe_show_int [simp]: "safe (show_int i)"
  by (simp add: show_int_def safe_show_nat)

text \<open>\<open>EscapeString\<close> loses nothing: the five character references, read back, give the text.\<close>

fun unescape :: "string \<Rightarrow> string" where
  "unescape [] = []"
| "unescape (c # s) =
     (if c = CHR ''&'' then
        (if take 4 s = ''amp;'' then CHR ''&'' # unescape (drop 4 s) else if take 4 s = ''#39;'' then CHR 0x27 # unescape (drop 4 s)
         else if take 3 s = ''lt;'' then CHR ''<'' # unescape (drop 3 s) else if take 3 s = ''gt;'' then CHR ''>'' # unescape (drop 3 s)
         else if take 4 s = ''#34;'' then CHR 0x22 # unescape (drop 4 s) else c # unescape s)
      else c # unescape s)"

lemma unescape_EscapeString: "unescape (EscapeString s) = s"
proof (induction s)
  case (Cons c s)
  have "unescape (escape_char c @ t) = c # unescape t" for t by (simp add: escape_char_def)
  with Cons show ?case by (simp add: EscapeString_def)
qed (simp add: EscapeString_def)

text \<open>Markup that leaves the open elements as they are.\<close>

definition balanced :: "string \<Rightarrow> bool" where
  "balanced s \<longleftrightarrow> (\<forall>stk. scan s (InText, stk) = Some (InText, stk))"

lemma balanced_scan [simp]: "balanced s \<Longrightarrow> scan s (InText, stk) = Some (InText, stk)"
  by (simp add: balanced_def)

lemma balanced_append [simp]: "balanced s \<Longrightarrow> balanced t \<Longrightarrow> balanced (s @ t)"
  by (simp add: balanced_def)

lemma balanced_safe [simp]: "safe s \<Longrightarrow> balanced s"
  by (simp add: balanced_def)

lemma balanced_concat: "(\<And>s. s \<in> set ss \<Longrightarrow> balanced s) \<Longrightarrow> balanced (concat ss)"
  by (induction ss) (simp_all add: balanced_def)

end
