(* ===== verification/Charts.thy ===== *)
theory Charts
  imports Markup Stats
begin

text \<open>
  The charts of the benchmark's report (\<open>contrib/bench/charts.go\<close>): bars, lines and stacks written as SVG, and that each is balanced markup whatever the
  names and labels in it.
\<close>

subsection \<open>Numbers\<close>

text \<open>What the charts use of floating point beyond theory \<open>Sampler\<close>. Decimal constants are the quotients of the integers they abbreviate, which round to the same number.\<close>

record 'f plotting =
  pl_fl :: "'f floats"
  pl_fmt :: "nat \<Rightarrow> 'f \<Rightarrow> string"
  pl_max :: "'f \<Rightarrow> 'f \<Rightarrow> 'f"
  pl_min :: "'f \<Rightarrow> 'f \<Rightarrow> 'f"
  pl_Floor :: "'f \<Rightarrow> 'f"
  pl_Log10 :: "'f \<Rightarrow> 'f"
  pl_Pow :: "'f \<Rightarrow> 'f \<Rightarrow> 'f"

abbreviation num :: "'f plotting \<Rightarrow> int \<Rightarrow> 'f" where "num p \<equiv> fl_num (pl_fl p)"
abbreviation add :: "'f plotting \<Rightarrow> 'f \<Rightarrow> 'f \<Rightarrow> 'f" where "add p \<equiv> fl_add (pl_fl p)"
abbreviation sub :: "'f plotting \<Rightarrow> 'f \<Rightarrow> 'f \<Rightarrow> 'f" where "sub p \<equiv> fl_sub (pl_fl p)"
abbreviation mul :: "'f plotting \<Rightarrow> 'f \<Rightarrow> 'f \<Rightarrow> 'f" where "mul p \<equiv> fl_mul (pl_fl p)"
abbreviation quo :: "'f plotting \<Rightarrow> 'f \<Rightarrow> 'f \<Rightarrow> 'f" where "quo p \<equiv> fl_div (pl_fl p)"
abbreviation le :: "'f plotting \<Rightarrow> 'f \<Rightarrow> 'f \<Rightarrow> bool" where "le p \<equiv> fl_le (pl_fl p)"
abbreviation lt :: "'f plotting \<Rightarrow> 'f \<Rightarrow> 'f \<Rightarrow> bool" where "lt p \<equiv> fl_lt (pl_fl p)"
abbreviation dec :: "'f plotting \<Rightarrow> int \<Rightarrow> int \<Rightarrow> 'f" where "dec p m n \<equiv> quo p (num p m) (num p n)"
abbreviation printf :: "'f plotting \<Rightarrow> string \<Rightarrow> 'f arg list \<Rightarrow> string" where "printf p \<equiv> Sprintf (pl_fmt p)"

definition chartW :: int where "chartW = 760"
definition chartH :: int where "chartH = 380"
definition marL :: int where "marL = 64"
definition marR :: int where "marR = 24"
definition marT :: int where "marT = 28"
definition marB :: int where "marB = 74"

definition plotW :: "'f plotting \<Rightarrow> 'f" where "plotW p = num p (chartW - marL - marR)"
definition plotH :: "'f plotting \<Rightarrow> 'f" where "plotH p = num p (chartH - marT - marB)"

definition catColors :: "string list" where
  "catColors = [''var(--cat-1)'', ''var(--cat-2)'', ''var(--cat-3)'', ''var(--cat-4)'', ''var(--cat-5)'', ''var(--cat-6)'']"

text \<open>\<open>slices.Max\<close>, which panics on an empty slice.\<close>

definition slices_Max :: "('a \<Rightarrow> 'a \<Rightarrow> 'a) \<Rightarrow> 'a list \<Rightarrow> 'a option" where
  "slices_Max mx vs = (case vs of [] \<Rightarrow> None | v # vs \<Rightarrow> Some (fold (\<lambda>x m. mx m x) vs v))"

definition niceMax :: "'f plotting \<Rightarrow> 'f \<Rightarrow> 'f" where
  "niceMax p v =
     (if le p v (num p 0) then num p 1
      else let exp = pl_Floor p (pl_Log10 p v);
               base = pl_Pow p (num p 10) exp;
               frac = quo p v base;
               nice = (if le p frac (num p 1) then num p 1 else if le p frac (num p 2) then num p 2
                       else if le p frac (num p 5) then num p 5 else num p 10)
           in mul p nice base)"

definition fmtNum :: "'f plotting \<Rightarrow> 'f \<Rightarrow> string" where
  "fmtNum p v =
     (if le p v (num p 0) \<and> le p (num p 0) v then ''0''
      else if le p (num p 1000) v then printf p ''%.0f'' [Flt v]
      else if le p (num p 100) v then printf p ''%.0f'' [Flt v]
      else if le p (num p 10) v then printf p ''%.1f'' [Flt v]
      else printf p ''%.2f'' [Flt v])"

subsection \<open>Pieces of a chart\<close>

definition emdash :: string where "emdash = [CHR 0xE2, CHR 0x80, CHR 0x94]"

definition svgOpen :: "'f plotting \<Rightarrow> string \<Rightarrow> string" where
  "svgOpen p title = printf p ''<svg viewBox=\"0 0 %d %d\" role=\"img\" aria-label=\"%s\" class=\"chart\">'' [Dec chartW, Dec chartH, Str (EscapeString title)]"

definition grid_line :: "'f plotting \<Rightarrow> 'f \<Rightarrow> int \<Rightarrow> int \<Rightarrow> string" where
  "grid_line p maxVal ticks i =
     (let v = quo p (mul p maxVal (num p i)) (num p ticks);
          y = sub p (add p (num p marT) (plotH p)) (mul p (quo p (num p i) (num p ticks)) (plotH p))
      in printf p ''<line x1=\"%d\" y1=\"%.1f\" x2=\"%.1f\" y2=\"%.1f\" class=\"grid\"/>'' [Dec marL, Flt y, Flt (add p (num p marL) (plotW p)), Flt y]
         @ printf p ''<text x=\"%d\" y=\"%.1f\" text-anchor=\"end\" class=\"ytick\">%s</text>'' [Dec (marL - 8), Flt (add p y (num p 3)), Str (fmtNum p v)])"

definition drawAxes :: "'f plotting \<Rightarrow> string \<Rightarrow> 'f \<Rightarrow> int \<Rightarrow> string" where
  "drawAxes p yLabel maxVal ticks =
     (let base = add p (num p marT) (plotH p)
      in concat (map (grid_line p maxVal ticks) [0..ticks])
         @ printf p ''<line x1=\"%d\" y1=\"%.1f\" x2=\"%.1f\" y2=\"%.1f\" class=\"axis\"/>'' [Dec marL, Flt base, Flt (add p (num p marL) (plotW p)), Flt base]
         @ (if yLabel \<noteq> '''' then printf p ''<text x=\"%d\" y=\"%d\" class=\"axislabel\">%s</text>'' [Dec 6, Dec (marT - 12), Str (EscapeString yLabel)] else ''''))"

record legendItem =
  li_name :: string
  li_color :: string

fun legend_from :: "'f plotting \<Rightarrow> 'f \<Rightarrow> legendItem list \<Rightarrow> string" where
  "legend_from p x [] = ''''"
| "legend_from p x (it # items) =
     (let y = num p (chartH - 28)
      in printf p ''<rect x=\"%.1f\" y=\"%.1f\" width=\"11\" height=\"11\" rx=\"2\" fill=\"%s\"/>'' [Flt x, Flt y, Str (li_color it)]
         @ printf p ''<text x=\"%.1f\" y=\"%.1f\" class=\"legend\">%s</text>'' [Flt (add p x (num p 16)), Flt (add p y (num p 10)), Str (EscapeString (li_name it))]
         @ legend_from p (add p x (add p (add p (num p 20) (mul p (num p (int (length (li_name it)))) (dec p 72 10))) (num p 16))) items)"

definition legend :: "'f plotting \<Rightarrow> legendItem list \<Rightarrow> string" where
  "legend p items = legend_from p (num p marL) items"

definition roundedTopRect :: "'f plotting \<Rightarrow> 'f \<Rightarrow> 'f \<Rightarrow> 'f \<Rightarrow> 'f \<Rightarrow> 'f \<Rightarrow> string" where
  "roundedTopRect p x y w h r =
     (let h = (if le p h (num p 0) then dec p 1 2 else h);
          r = (if lt p (quo p w (num p 2)) r then quo p w (num p 2) else r);
          r = (if lt p h r then h else r)
      in printf p ''M%.1f %.1f V%.1f Q%.1f %.1f %.1f %.1f H%.1f Q%.1f %.1f %.1f %.1f V%.1f Z''
           [Flt x, Flt (add p y h), Flt (add p y r), Flt x, Flt y, Flt (add p x r), Flt y, Flt (sub p (add p x w) r),
            Flt (add p x w), Flt y, Flt (add p x w), Flt (add p y r), Flt (add p y h)])"

definition x_label :: "'f plotting \<Rightarrow> 'f \<Rightarrow> string \<Rightarrow> string" where
  "x_label p x lbl =
     printf p ''<text x=\"%.1f\" y=\"%.1f\" text-anchor=\"middle\" class=\"xlabel\">%s</text>''
       [Flt x, Flt (add p (add p (num p marT) (plotH p)) (num p 16)), Str (EscapeString lbl)]"

subsection \<open>Grouped bars\<close>

record 'f barGroup =
  bg_name :: string
  bg_color :: string
  bg_values :: "'f list"

definition groupLegend :: "'f barGroup list \<Rightarrow> legendItem list" where
  "groupLegend groups = map (\<lambda>g. \<lparr>li_name = bg_name g, li_color = bg_color g\<rparr>) groups"

fun groups_max :: "'f plotting \<Rightarrow> 'f barGroup list \<Rightarrow> 'f \<Rightarrow> 'f option" where
  "groups_max p [] m = Some m"
| "groups_max p (g # gs) m =
     (if length (bg_values g) > 0 then Option.bind (slices_Max (pl_max p) (bg_values g)) (\<lambda>v. groups_max p gs (pl_max p m v)) else groups_max p gs m)"

text \<open>One bar, if its group has a value there; \<open>showLabels\<close> says whether there is room for its number.\<close>

definition bar :: "'f plotting \<Rightarrow> 'f \<Rightarrow> 'f \<Rightarrow> 'f \<Rightarrow> bool \<Rightarrow> nat \<Rightarrow> string \<Rightarrow> nat \<times> 'f barGroup \<Rightarrow> string" where
  "bar p maxVal clusterX barW showLabels ci cat gi_g =
     (case gi_g of (gi, g) \<Rightarrow>
        if ci \<ge> length (bg_values g) then ''''
        else let v = bg_values g ! ci;
                 bh = mul p (quo p v maxVal) (plotH p);
                 x = add p clusterX (mul p (num p (int gi)) (add p barW (num p 2)));
                 y = sub p (add p (num p marT) (plotH p)) bh;
                 tip = printf p (''%s '' @ emdash @ '' %s: %s'') [Str cat, Str (bg_name g), Str (fmtNum p v)]
             in printf p ''<path d=\"%s\" fill=\"%s\"><title>%s</title></path>'' [Str (roundedTopRect p x y barW bh (num p 3)), Str (bg_color g), Str (EscapeString tip)]
                @ (if showLabels \<and> lt p (num p 12) bh
                   then printf p ''<text x=\"%.1f\" y=\"%.1f\" text-anchor=\"middle\" class=\"vlabel\">%s</text>''
                          [Flt (add p x (quo p barW (num p 2))), Flt (sub p y (num p 4)), Str (fmtNum p v)]
                   else ''''))"

definition groupedBars :: "'f plotting \<Rightarrow> string \<Rightarrow> string \<Rightarrow> string list \<Rightarrow> 'f barGroup list \<Rightarrow> string option" where
  "groupedBars p title yLabel catNames groups =
     map_option (\<lambda>m.
       let maxVal = niceMax p m;
           n = (if length catNames = 0 then 1 else length catNames);
           slotW = quo p (plotW p) (num p (int n));
           gw = (if length groups = 0 then 1 else length groups);
           clusterW = mul p slotW (dec p 78 100);
           barW = quo p (sub p clusterW (mul p (num p (int gw - 1)) (num p 2))) (num p (int gw));
           barW = (if lt p barW (num p 1) then num p 1 else barW);
           showLabels = n * gw \<le> 20
       in svgOpen p title @ drawAxes p yLabel maxVal 5
          @ concat (map (\<lambda>(ci, cat).
              let slotX = add p (num p marL) (mul p (num p (int ci)) slotW);
                  clusterX = add p slotX (quo p (sub p slotW clusterW) (num p 2))
              in concat (map (bar p maxVal clusterX barW showLabels ci cat) (enumerate 0 groups))
                 @ x_label p (add p slotX (quo p slotW (num p 2))) cat) (enumerate 0 catNames))
          @ legend p (groupLegend groups) @ ''</svg>'')
     (groups_max p groups (num p 0))"

subsection \<open>Lines\<close>

record 'f linePoint =
  lp_label :: string
  lp_y :: 'f
  lp_missing :: bool

record 'f lineSeries =
  ls_name :: string
  ls_color :: string
  ls_points :: "'f linePoint list"

definition seriesLegend :: "'f lineSeries list \<Rightarrow> legendItem list" where
  "seriesLegend series = map (\<lambda>s. \<lparr>li_name = ls_name s, li_color = ls_color s\<rparr>) series"

text \<open>The closure \<open>flush\<close>: the segment gathered so far as a polyline, if it has two points.\<close>

definition flush_line :: "'f plotting \<Rightarrow> string \<Rightarrow> string list \<Rightarrow> string" where
  "flush_line p color seg =
     (if length seg \<ge> 2
      then printf p ''<polyline points=\"%s\" fill=\"none\" stroke=\"%s\" stroke-width=\"2\" stroke-linecap=\"round\" stroke-linejoin=\"round\"/>'' [Str (Join seg '' ''), Str color]
      else '''')"

fun segments :: "'f plotting \<Rightarrow> (nat \<Rightarrow> 'f) \<Rightarrow> ('f \<Rightarrow> 'f) \<Rightarrow> string \<Rightarrow> string list \<Rightarrow> (nat \<times> 'f linePoint) list \<Rightarrow> string" where
  "segments p xAt yAt color seg [] = flush_line p color seg"
| "segments p xAt yAt color seg ((i, pt) # pts) =
     (if lp_missing pt then flush_line p color seg @ segments p xAt yAt color [] pts
      else segments p xAt yAt color (seg @ [printf p ''%.1f,%.1f'' [Flt (xAt i), Flt (yAt (lp_y pt))]]) pts)"

definition marker :: "'f plotting \<Rightarrow> (nat \<Rightarrow> 'f) \<Rightarrow> ('f \<Rightarrow> 'f) \<Rightarrow> 'f lineSeries \<Rightarrow> nat \<times> 'f linePoint \<Rightarrow> string" where
  "marker p xAt yAt s i_pt =
     (case i_pt of (i, pt) \<Rightarrow>
        if lp_missing pt then ''''
        else printf p ''<circle cx=\"%.1f\" cy=\"%.1f\" r=\"4\" fill=\"%s\" stroke=\"var(--surface-1)\" stroke-width=\"1.5\"><title>%s</title></circle>''
               [Flt (xAt i), Flt (yAt (lp_y pt)), Str (ls_color s),
                Str (EscapeString (printf p ''%s @ %s: %s'' [Str (ls_name s), Str (lp_label pt), Str (fmtNum p (lp_y pt))]))])"

definition lineChart :: "'f plotting \<Rightarrow> string \<Rightarrow> string \<Rightarrow> string list \<Rightarrow> 'f lineSeries list \<Rightarrow> string" where
  "lineChart p title yLabel xLabels series =
     (let maxVal = niceMax p (fold (\<lambda>s m. fold (\<lambda>pt m. pl_max p m (lp_y pt)) (ls_points s) m) series (num p 0));
          n = length xLabels;
          step = (if n > 1 then quo p (plotW p) (num p (int n - 1)) else plotW p);
          xAt = (\<lambda>i. add p (num p marL) (mul p (num p (int i)) step));
          yAt = (\<lambda>v. sub p (add p (num p marT) (plotH p)) (mul p (quo p v maxVal) (plotH p)))
      in svgOpen p title @ drawAxes p yLabel maxVal 5
         @ concat (map (\<lambda>(i, lbl). x_label p (xAt i) lbl) (enumerate 0 xLabels))
         @ concat (map (\<lambda>s. segments p xAt yAt (ls_color s) [] (enumerate 0 (ls_points s)) @ concat (map (marker p xAt yAt s) (enumerate 0 (ls_points s)))) series)
         @ legend p (seriesLegend series) @ ''</svg>'')"

subsection \<open>Stacks\<close>

record 'f stackSeg =
  ss_name :: string
  ss_color :: string
  ss_values :: "'f list"

definition stackLegend :: "'f stackSeg list \<Rightarrow> legendItem list" where
  "stackLegend segs = map (\<lambda>s. \<lparr>li_name = ss_name s, li_color = ss_color s\<rparr>) segs"

definition add_values :: "'f plotting \<Rightarrow> 'f list \<Rightarrow> 'f list \<Rightarrow> 'f list" where
  "add_values p vs totals = map (\<lambda>(i, t). if i < length vs then add p t (vs ! i) else t) (enumerate 0 totals)"

fun stack :: "'f plotting \<Rightarrow> 'f \<Rightarrow> 'f \<Rightarrow> 'f \<Rightarrow> nat \<Rightarrow> string \<Rightarrow> 'f \<Rightarrow> 'f stackSeg list \<Rightarrow> string" where
  "stack p maxVal x barW ci cat acc [] = ''''"
| "stack p maxVal x barW ci cat acc (s # segs) =
     (if ci \<ge> length (ss_values s) then stack p maxVal x barW ci cat acc segs
      else let v = ss_values s ! ci
           in if le p v (num p 0) then stack p maxVal x barW ci cat acc segs
              else let segH = mul p (quo p v maxVal) (plotH p);
                       y = sub p (add p (num p marT) (plotH p)) (mul p (quo p (add p acc v) maxVal) (plotH p));
                       gap = num p 1;
                       tip = printf p (''%s '' @ emdash @ '' %s: %s'') [Str cat, Str (ss_name s), Str (fmtNum p v)]
                   in printf p ''<rect x=\"%.1f\" y=\"%.1f\" width=\"%.1f\" height=\"%.1f\" rx=\"2\" fill=\"%s\"><title>%s</title></rect>''
                        [Flt x, Flt (add p y gap), Flt barW, Flt (pl_max p (sub p segH (mul p (num p 2) gap)) (dec p 1 2)), Str (ss_color s), Str (EscapeString tip)]
                      @ stack p maxVal x barW ci cat (add p acc v) segs)"

definition stackedBars :: "'f plotting \<Rightarrow> string \<Rightarrow> string \<Rightarrow> string list \<Rightarrow> 'f stackSeg list \<Rightarrow> string option" where
  "stackedBars p title yLabel catNames segs =
     (let totals = fold (\<lambda>s. add_values p (ss_values s)) segs (replicate (length catNames) (num p 0))
      in map_option (\<lambda>m.
           let maxVal = niceMax p m;
               n = (if length catNames = 0 then 1 else length catNames);
               slotW = quo p (plotW p) (num p (int n));
               barW = pl_min p (mul p slotW (dec p 1 2)) (num p 90)
           in svgOpen p title @ drawAxes p yLabel maxVal 5
              @ concat (map (\<lambda>(ci, cat).
                  let x = add p (add p (num p marL) (mul p (num p (int ci)) slotW)) (quo p (sub p slotW barW) (num p 2))
                  in stack p maxVal x barW ci cat (num p 0) segs @ x_label p (add p x (quo p barW (num p 2))) cat) (enumerate 0 catNames))
              @ legend p (stackLegend segs) @ ''</svg>'')
         (if length totals > 0 then slices_Max (pl_max p) totals else Some (num p 0)))"

subsection \<open>Charts are balanced\<close>

text \<open>Numbers are written without markup; colours are names of style variables.\<close>

definition plain_numbers :: "'f plotting \<Rightarrow> bool" where
  "plain_numbers p \<longleftrightarrow> (\<forall>d v. safe (pl_fmt p d v))"

lemma plain_fmt [simp]: "plain_numbers p \<Longrightarrow> safe (pl_fmt p d v)"
  by (simp add: plain_numbers_def)

lemmas scan_defs = balanced_def opened_def void_elements_def

lemma fmtNum_safe [simp]: "plain_numbers p \<Longrightarrow> safe (fmtNum p v)"
  by (simp add: fmtNum_def)

lemma roundedTopRect_safe [simp]: "plain_numbers p \<Longrightarrow> safe (roundedTopRect p x y w h r)"
  by (simp add: roundedTopRect_def Let_def)

lemma svg_balanced: "balanced a \<Longrightarrow> balanced b \<Longrightarrow> balanced c \<Longrightarrow> balanced (svgOpen p title @ a @ b @ c @ ''</svg>'')"
  by (simp add: svgOpen_def scan_defs)

lemma balanced_if: "balanced s \<Longrightarrow> balanced (if b then s else '''')"
  by simp

lemma balanced_map: "(\<And>x. x \<in> set xs \<Longrightarrow> balanced (f x)) \<Longrightarrow> balanced (concat (map f xs))"
  by (rule balanced_concat) auto

lemma grid_line_balanced: "plain_numbers p \<Longrightarrow> balanced (grid_line p m t i)"
  by (simp add: grid_line_def Let_def scan_defs)

lemma drawAxes_balanced: "plain_numbers p \<Longrightarrow> balanced (drawAxes p l m t)"
  unfolding drawAxes_def Let_def
  by (intro balanced_append balanced_map balanced_if grid_line_balanced) (simp_all add: scan_defs)

lemma legend_from_balanced: "plain_numbers p \<Longrightarrow> list_all (\<lambda>it. safe (li_color it)) items \<Longrightarrow> balanced (legend_from p x items)"
proof (induction items arbitrary: x)
  case (Cons it items)
  show ?case unfolding legend_from.simps Let_def
    by (intro balanced_append Cons.IH) (use Cons.prems in \<open>simp_all add: scan_defs\<close>)
qed simp

lemma legend_balanced: "plain_numbers p \<Longrightarrow> list_all (\<lambda>it. safe (li_color it)) items \<Longrightarrow> balanced (legend p items)"
  unfolding legend_def by (rule legend_from_balanced)

lemma x_label_balanced: "plain_numbers p \<Longrightarrow> balanced (x_label p x l)"
  by (simp add: x_label_def scan_defs)

lemma bar_balanced: "plain_numbers p \<Longrightarrow> safe (bg_color (snd gi_g)) \<Longrightarrow> balanced (bar p m cx w sl ci cat gi_g)"
  by (cases gi_g) (simp add: bar_def Let_def scan_defs)

lemma enumerate_mem: "x \<in> set (enumerate n xs) \<Longrightarrow> snd x \<in> set xs"
  by (cases x) (simp add: enumerate_eq_zip set_zip_rightD)

lemma groupedBars_balanced:
  assumes p: "plain_numbers p" and c: "list_all (\<lambda>g. safe (bg_color g)) groups" and s: "groupedBars p title yl catNames groups = Some s"
  shows "balanced s"
proof -
  have l: "list_all (\<lambda>it. safe (li_color it)) (groupLegend groups)" using c by (simp add: groupLegend_def list.pred_map comp_def)
  have g: "safe (bg_color (snd x))" if "x \<in> set (enumerate 0 groups)" for x
    using enumerate_mem [OF that] c by (auto simp: list_all_iff)
  obtain m where "groups_max p groups (num p 0) = Some m" using s by (auto simp: groupedBars_def)
  then show ?thesis using s unfolding groupedBars_def Let_def split_def
    by (simp only: option.map option.inject, elim subst)
      (rule svg_balanced, intro drawAxes_balanced p, intro balanced_map balanced_append x_label_balanced bar_balanced p g, assumption, intro legend_balanced p l)
qed

lemma safe_Join: "list_all safe ss \<Longrightarrow> safe sep \<Longrightarrow> safe (Join ss sep)"
  by (induction ss sep rule: Join.induct) simp_all

lemma flush_balanced: "plain_numbers p \<Longrightarrow> safe color \<Longrightarrow> list_all safe seg \<Longrightarrow> balanced (flush_line p color seg)"
  by (simp add: flush_line_def scan_defs safe_Join)

lemma segments_balanced:
  "plain_numbers p \<Longrightarrow> safe color \<Longrightarrow> list_all safe seg \<Longrightarrow> balanced (segments p xAt yAt color seg pts)"
  by (induction p xAt yAt color seg pts rule: segments.induct) (simp_all add: flush_balanced)

lemma marker_balanced: "plain_numbers p \<Longrightarrow> safe (ls_color s) \<Longrightarrow> balanced (marker p xAt yAt s i_pt)"
  by (cases i_pt) (simp add: marker_def scan_defs)

lemma lineChart_balanced:
  assumes p: "plain_numbers p" and c: "list_all (\<lambda>s. safe (ls_color s)) series"
  shows "balanced (lineChart p title yl xls series)"
proof -
  have l: "list_all (\<lambda>it. safe (li_color it)) (seriesLegend series)" using c by (simp add: seriesLegend_def list.pred_map comp_def)
  have g: "safe (ls_color s)" if "s \<in> set series" for s using that c by (auto simp: list_all_iff)
  have 4: "balanced (svgOpen p title @ a @ b @ d @ e @ ''</svg>'')" if "balanced a" "balanced b" "balanced d" "balanced e" for a b d e
    using svg_balanced [OF that(1) balanced_append [OF that(2,3)] that(4)] by simp
  show ?thesis unfolding lineChart_def Let_def split_def
    by (rule 4, intro drawAxes_balanced p, intro balanced_map x_label_balanced p,
        intro balanced_map balanced_append segments_balanced marker_balanced p g list.pred_inject(1), assumption+, intro legend_balanced p l)
qed

lemma stack_balanced:
  "plain_numbers p \<Longrightarrow> list_all (\<lambda>s. safe (ss_color s)) segs \<Longrightarrow> balanced (stack p m x w ci cat acc segs)"
proof (induction segs arbitrary: acc)
  case (Cons s segs)
  have "balanced (stack p m x w ci cat acc segs)" for acc using Cons by simp
  then show ?case using Cons.prems by (simp add: Let_def scan_defs)
qed simp

lemma stackedBars_balanced:
  assumes p: "plain_numbers p" and c: "list_all (\<lambda>g. safe (ss_color g)) segs" and s: "stackedBars p title yl catNames segs = Some s"
  shows "balanced s"
proof -
  have l: "list_all (\<lambda>it. safe (li_color it)) (stackLegend segs)" using c by (simp add: stackLegend_def list.pred_map comp_def)
  let ?t = "fold (\<lambda>s. add_values p (ss_values s)) segs (replicate (length catNames) (num p 0))"
  obtain m where "(if length ?t > 0 then slices_Max (pl_max p) ?t else Some (num p 0)) = Some m"
    using s by (auto simp: stackedBars_def Let_def split: if_splits)
  then show ?thesis using s unfolding stackedBars_def Let_def split_def
    by (simp only: option.map option.inject, elim subst)
      (rule svg_balanced, intro drawAxes_balanced p, intro balanced_map balanced_append x_label_balanced stack_balanced p c, intro legend_balanced p l)
qed

text \<open>No chart panics: what is passed to \<open>slices.Max\<close> is not empty.\<close>

lemma groups_max_some: "\<exists>m. groups_max p gs v = Some m"
  by (induction gs arbitrary: v) (auto simp: slices_Max_def split: list.splits)

lemma charts_total: "\<exists>s. groupedBars p title yl catNames groups = Some s" "\<exists>s. stackedBars p title yl catNames segs = Some s"
  using groups_max_some by (auto simp: groupedBars_def stackedBars_def Let_def slices_Max_def split: list.splits)

end
