(* ===== verification/Report.thy ===== *)
theory Report
  imports Scenarios Charts
begin

text \<open>
  What the benchmark writes (\<open>contrib/bench/report.go\<close>, \<open>html.go\<close>, the provenance part of \<open>main.go\<close>): the tables as CSV, the lookups over the results, the page
  with its charts and table, and the order in which the files are made.
\<close>

subsection \<open>Provenance\<close>

record Env =
  ev_Hostname :: string
  ev_Kernel :: string
  ev_Arch :: string
  ev_NumCPU :: int
  ev_MemTotalBytes :: u64
  ev_CgroupVersion :: string
  ev_GoVersion :: string
  ev_ContainerdVer :: string
  ev_RuncVersion :: string
  ev_HarnessGitCommit :: string
  ev_ClockTicksHz :: int
  ev_InsideVM :: bool

text \<open>The host as \<open>gatherEnv\<close> sees it. The output of a command comes with whether the command failed.\<close>

record machine =
  mc_proc :: proc
  mc_GOARCH :: string
  mc_NumCPU :: int
  mc_GoVersion :: string
  mc_Stat :: "string \<Rightarrow> bool"
  mc_LookPath :: "string \<Rightarrow> string option"
  mc_Output :: "string \<Rightarrow> string list \<Rightarrow> string \<times> bool"
  mc_Hostname :: string
  mc_Version :: "string option"
  mc_BuildSettings :: "(string \<times> string) list option"

definition readFile :: "machine \<Rightarrow> string \<Rightarrow> string" where
  "readFile h path = (case pr_file (mc_proc h) path of None \<Rightarrow> '''' | Some d \<Rightarrow> d)"

definition cgroupVersion :: "machine \<Rightarrow> string" where
  "cgroupVersion h = (if mc_Stat h ''/sys/fs/cgroup/cgroup.controllers'' then ''v2'' else ''v1'')"

definition commandFirstLine :: "machine \<Rightarrow> string \<Rightarrow> string list \<Rightarrow> string" where
  "commandFirstLine h name args =
     (case mc_LookPath h name of
        None \<Rightarrow> ''''
      | Some path \<Rightarrow> (case mc_Output h path args of (out, failed) \<Rightarrow>
          if failed then '''' else TrimSpace (takeWhile (\<lambda>c. c \<noteq> CHR ''\<newline>'') out)))"

definition detectVM :: "machine \<Rightarrow> bool" where
  "detectVM h =
     (case mc_LookPath h ''systemd-detect-virt'' of
        None \<Rightarrow> False
      | Some path \<Rightarrow> (let v = TrimSpace (fst (mc_Output h path [''--vm''])) in v \<noteq> '''' \<and> v \<noteq> ''none''))"

definition gatherEnv :: "machine \<Rightarrow> Env" where
  "gatherEnv h = \<lparr>ev_Hostname = mc_Hostname h, ev_Kernel = TrimSpace (readFile h ''/proc/sys/kernel/osrelease''), ev_Arch = mc_GOARCH h, ev_NumCPU = mc_NumCPU h,
     ev_MemTotalBytes = readMemTotal (mc_proc h), ev_CgroupVersion = cgroupVersion h, ev_GoVersion = mc_GoVersion h,
     ev_ContainerdVer = (case mc_Version h of None \<Rightarrow> '''' | Some v \<Rightarrow> v), ev_RuncVersion = commandFirstLine h ''runc'' [''--version''],
     ev_HarnessGitCommit = (case mc_BuildSettings h of None \<Rightarrow> ''''
       | Some st \<Rightarrow> fold (\<lambda>(k, v) c. if k = ''vcs.revision'' then v else c) st ''''),
     ev_ClockTicksHz = userHZ, ev_InsideVM = detectVM h\<rparr>"

subsection \<open>Lookups\<close>

record 'f Report =
  rp_Env :: Env
  rp_StartedAt :: string
  rp_Config :: bench_config
  rp_Scenarios :: "'f ScenarioResult list"

definition find_result :: "'f Report \<Rightarrow> string \<Rightarrow> string \<Rightarrow> string \<Rightarrow> int \<Rightarrow> int \<Rightarrow> 'f ScenarioResult option" where
  "find_result r scenario rt variant parallel scale =
     List.find (\<lambda>s. sr_Scenario s = scenario \<and> sr_Runtime s = rt \<and> sr_Variant s = variant \<and> sr_Parallel s = parallel \<and> sr_ScaleCount s = scale) (rp_Scenarios r)"

fun present_from :: "'f ScenarioResult list \<Rightarrow> string list \<Rightarrow> string list \<Rightarrow> string list" where
  "present_from ss [] out = out"
| "present_from ss (rt # rts) out =
     present_from ss rts (if rt \<notin> set out \<and> list_ex (\<lambda>s. sr_Runtime s = rt) ss then out @ [rt] else out)"

definition runtimesPresent :: "'f Report \<Rightarrow> string list" where
  "runtimesPresent r = present_from (rp_Scenarios r) (bc_Runtimes (rp_Config r)) []"

definition rtColor :: "string \<Rightarrow> string" where
  "rtColor rt = (if rt = runtimeSystemd then ''var(--rt-systemd)'' else if rt = runtimeRunc then ''var(--rt-runc)'' else ''var(--cat-3)'')"

definition rtShort :: "string \<Rightarrow> string" where
  "rtShort rt = (if rt = runtimeSystemd then ''systemd'' else if rt = runtimeRunc then ''runc.v2'' else rt)"

definition stat_of :: "'f plotting \<Rightarrow> ('f OpStats \<Rightarrow> 'f) \<Rightarrow> 'f ScenarioResult option \<Rightarrow> string \<Rightarrow> 'f" where
  "stat_of p f s op = (case s of None \<Rightarrow> num p 0 | Some s \<Rightarrow> (case map_of (sr_Ops s) op of None \<Rightarrow> num p 0 | Some st \<Rightarrow> f st))"

definition p50Op :: "'f plotting \<Rightarrow> 'f ScenarioResult option \<Rightarrow> string \<Rightarrow> 'f" where
  "p50Op p s op = stat_of p os_P50 s op"

definition p99Op :: "'f plotting \<Rightarrow> 'f ScenarioResult option \<Rightarrow> string \<Rightarrow> 'f" where
  "p99Op p s op = stat_of p os_P99 s op"

subsection \<open>Tables\<close>

text \<open>
  \<open>encoding/csv\<close>'s writer: fields are quoted when they hold a comma, a quote or the end of a line, begin with a space, or are the two characters \<open>\.\<close>.
\<close>

definition fieldNeedsQuotes :: "string \<Rightarrow> bool" where
  "fieldNeedsQuotes f \<longleftrightarrow> f \<noteq> '''' \<and>
     (f = [CHR 0x5C, CHR ''.''] \<or> list_ex (\<lambda>c. c = CHR '','' \<or> c = CHR 0x22 \<or> c = CHR 0x0D \<or> c = CHR 0x0A) f \<or> is_space (hd f))"

definition csv_field :: "string \<Rightarrow> string" where
  "csv_field f =
     (if fieldNeedsQuotes f then CHR 0x22 # concat (map (\<lambda>c. if c = CHR 0x22 then [c, c] else [c]) f) @ [CHR 0x22] else f)"

definition csv_Write :: "string list \<Rightarrow> string" where
  "csv_Write row = Join (map csv_field row) '','' @ [CHR 0x0A]"

definition f2 :: "'f plotting \<Rightarrow> 'f \<Rightarrow> string" where
  "f2 p v = pl_fmt p 3 v"

definition cat_name :: "category \<Rightarrow> string" where
  "cat_name c = (case c of catShimSystemd \<Rightarrow> ''shim-systemd'' | catTTYHelper \<Rightarrow> ''tty-helper'' | catShimRunc \<Rightarrow> ''shim-runc'' | catRunc \<Rightarrow> ''runc''
     | catSystemd \<Rightarrow> ''systemd'' | catContainerd \<Rightarrow> ''containerd'' | catOther \<Rightarrow> '''')"

definition latency_header :: "string list" where
  "latency_header = [''scenario'', ''runtime'', ''variant'', ''parallel'', ''scale_count'', ''op'',
     ''count'', ''min_ms'', ''p50_ms'', ''p90_ms'', ''p99_ms'', ''max_ms'', ''mean_ms'', ''stddev_ms'']"

definition latency_row :: "'f plotting \<Rightarrow> 'f ScenarioResult \<Rightarrow> string \<times> 'f OpStats \<Rightarrow> string list" where
  "latency_row p s op_st = (case op_st of (op, st) \<Rightarrow>
     [sr_Scenario s, sr_Runtime s, sr_Variant s, show_int (sr_Parallel s), show_int (sr_ScaleCount s), op,
      show_int (os_Count st), f2 p (os_Min st), f2 p (os_P50 st), f2 p (os_P90 st), f2 p (os_P99 st), f2 p (os_Max st), f2 p (os_Mean st), f2 p (os_Stddev st)])"

text \<open>The rows of \<open>writeLatencyCSV\<close>, the operations of a result in the order the map yields them.\<close>

definition latency_rows :: "'f plotting \<Rightarrow> 'f Report \<Rightarrow> string list list" where
  "latency_rows p r = latency_header # concat (map (\<lambda>s. map (latency_row p s) (sr_Ops s)) (rp_Scenarios r))"

definition resource_header :: "string list" where
  "resource_header = [''scenario'', ''runtime'', ''variant'', ''parallel'', ''scale_count'',
     ''iterations'', ''errors'', ''wall_s'', ''throughput_ops_s'',
     ''system_cpu_s'', ''harness_cpu_s'', ''attrib_cpu_s'', ''system_util_pct'', ''shim_cgroup_cpu_s'']
     @ map (\<lambda>c. ''cpu_s_'' @ cat_name c) sampledCategories @ map (\<lambda>c. ''peak_pss_'' @ cat_name c) sampledCategories
     @ [''reactor_hits'', ''getall_fallbacks'', ''ondisk_reads'', ''reactor_hit_rate'', ''shim_go_heap_bytes'']"

definition FormatUint :: "u64 \<Rightarrow> string" where
  "FormatUint v = show_nat (unat v)"

definition FormatInt :: "i64 \<Rightarrow> string" where
  "FormatInt v = show_int (sint v)"

definition resource_row :: "'f plotting \<Rightarrow> 'f ScenarioResult \<Rightarrow> string list" where
  "resource_row p s =
     [sr_Scenario s, sr_Runtime s, sr_Variant s, show_int (sr_Parallel s), show_int (sr_ScaleCount s),
      show_int (sr_Iterations s), show_int (sr_Errors s), f2 p (sr_WallSeconds s), f2 p (sr_ThroughputOpsPerSec s),
      f2 p (sr_SystemCPUSeconds s), f2 p (sr_HarnessCPUSeconds s), f2 p (sr_AttribCPUSeconds s), f2 p (sr_SystemUtilPct s), f2 p (sr_ShimCgroupCPUSecond s)]
     @ map (\<lambda>c. f2 p (case sr_CPUSeconds s c of None \<Rightarrow> num p 0 | Some v \<Rightarrow> v)) sampledCategories
     @ map (\<lambda>c. FormatUint (case sr_MemPeakPss s c of None \<Rightarrow> 0 | Some v \<Rightarrow> v)) sampledCategories
     @ (case sr_ShimVars s of
          Some v \<Rightarrow> [FormatInt (dv_ReactorHits v), FormatInt (dv_GetAllFallbacks v), FormatInt (dv_OnDiskReads v), f2 p (dv_ReactorHitRate v)]
        | None \<Rightarrow> ['''', '''', '''', ''''])
     @ [FormatUint (sr_ShimGoHeapBytes s)]"

definition resource_rows :: "'f plotting \<Rightarrow> 'f Report \<Rightarrow> string list list" where
  "resource_rows p r = resource_header # map (resource_row p) (rp_Scenarios r)"

definition csv_file :: "string list list \<Rightarrow> string" where
  "csv_file rows = concat (map csv_Write rows)"

definition writeLatencyCSV :: "'f plotting \<Rightarrow> 'f Report \<Rightarrow> string" where
  "writeLatencyCSV p r = csv_file (latency_rows p r)"

definition writeResourceCSV :: "'f plotting \<Rightarrow> 'f Report \<Rightarrow> string" where
  "writeResourceCSV p r = csv_file (resource_rows p r)"

subsection \<open>Reading the tables back\<close>

text \<open>
  A reader as RFC 4180 describes the format: \<open>fld\<close> is the field read so far and \<open>row\<close> the fields before it, both reversed.
\<close>

datatype csv_state = FieldStart | Plain | InQuotes | AfterQuote

fun csv_read :: "csv_state \<Rightarrow> string \<Rightarrow> string list \<Rightarrow> string \<Rightarrow> string list list option" where
  "csv_read st fld row [] = (if st = FieldStart \<and> row = [] then Some [] else None)"
| "csv_read st fld row (c # s) =
     (if st = InQuotes then (if c = CHR 0x22 then csv_read AfterQuote fld row s else csv_read InQuotes (c # fld) row s)
      else if c = CHR '','' then csv_read FieldStart [] (rev fld # row) s
      else if c = CHR 0x0A then map_option ((#) (rev (rev fld # row))) (csv_read FieldStart [] [] s)
      else if c = CHR 0x22 then (if st = FieldStart then csv_read InQuotes [] row s else if st = AfterQuote then csv_read InQuotes (c # fld) row s else None)
      else if st = AfterQuote then None else csv_read Plain (c # fld) row s)"

lemma csv_read_quoted:
  "csv_read InQuotes fld row (concat (map (\<lambda>c. if c = CHR 0x22 then [c, c] else [c]) f) @ CHR 0x22 # s) = csv_read AfterQuote (rev f @ fld) row s"
  by (induction f arbitrary: fld) auto

lemma csv_read_plain:
  "list_all (\<lambda>c. c \<noteq> CHR '','' \<and> c \<noteq> CHR 0x22 \<and> c \<noteq> CHR 0x0A) f \<Longrightarrow> csv_read Plain fld row (f @ s) = csv_read Plain (rev f @ fld) row s"
  by (induction f arbitrary: fld) auto

lemma csv_read_unquoted:
  assumes "list_all (\<lambda>c. c \<noteq> CHR '','' \<and> c \<noteq> CHR 0x22 \<and> c \<noteq> CHR 0x0A) f"
  shows "csv_read FieldStart [] row (f @ s) = csv_read (if f = [] then FieldStart else Plain) (rev f) row s"
  using assms by (cases f) (simp_all add: csv_read_plain)

text \<open>A field that was written, before a comma or the end of the line.\<close>

lemma csv_read_field:
  "csv_read FieldStart [] row (csv_field f @ CHR '','' # s) = csv_read FieldStart [] (f # row) s"
  "csv_read FieldStart [] row (csv_field f @ CHR 0x0A # s) = map_option ((#) (rev (f # row))) (csv_read FieldStart [] [] s)"
proof -
  have "\<exists>st. (\<forall>t. csv_read FieldStart [] row (csv_field f @ t) = csv_read st (rev f) row t) \<and> st \<noteq> InQuotes"
  proof (cases "fieldNeedsQuotes f")
    case True
    then show ?thesis using csv_read_quoted [of "[]" row f] by (intro exI [of _ AfterQuote]) (simp add: csv_field_def)
  next
    case False
    then have "list_all (\<lambda>c. c \<noteq> CHR '','' \<and> c \<noteq> CHR 0x22 \<and> c \<noteq> CHR 0x0A) f" by (cases f) (auto simp: fieldNeedsQuotes_def list_all_iff list_ex_iff)
    from csv_read_unquoted [OF this] False show ?thesis by (intro exI [of _ "if f = [] then FieldStart else Plain"]) (simp add: csv_field_def)
  qed
  then obtain st where st: "\<And>t. csv_read FieldStart [] row (csv_field f @ t) = csv_read st (rev f) row t" "st \<noteq> InQuotes" by blast
  then show "csv_read FieldStart [] row (csv_field f @ CHR '','' # s) = csv_read FieldStart [] (f # row) s"
    "csv_read FieldStart [] row (csv_field f @ CHR 0x0A # s) = map_option ((#) (rev (f # row))) (csv_read FieldStart [] [] s)" by simp_all
qed

lemma csv_read_Write:
  "fs \<noteq> [] \<Longrightarrow> csv_read FieldStart [] row (Join (map csv_field fs) '','' @ CHR 0x0A # s) = map_option ((#) (rev row @ fs)) (csv_read FieldStart [] [] s)"
proof (induction fs arbitrary: row)
  case (Cons f fs)
  then show ?case by (cases fs) (simp_all add: csv_read_field)
qed simp

lemma csv_read_file: "list_all (\<lambda>row. row \<noteq> []) rows \<Longrightarrow> csv_read FieldStart [] [] (csv_file rows) = Some rows"
  by (induction rows) (simp_all add: csv_file_def csv_Write_def csv_read_Write)

lemma row_lengths:
  "length latency_header = 14" "length (latency_row p s op_st) = 14" "length resource_header = 31" "length (resource_row p s) = 31"
  by (simp_all add: latency_header_def latency_row_def resource_header_def resource_row_def sampledCategories_def split: prod.split option.split)

text \<open>A table as its user sees it: every row below the header as the values of the named columns.\<close>

definition csv_table :: "string \<Rightarrow> (string \<rightharpoonup> string) list option" where
  "csv_table file = (case csv_read FieldStart [] [] file of
     Some (header # rows) \<Rightarrow> if list_all (\<lambda>row. length row = length header) rows then Some (map (\<lambda>row. map_of (zip header row)) rows) else None
   | _ \<Rightarrow> None)"

text \<open>What the columns of the two tables are to hold, by name.\<close>

definition latency_columns :: "'f plotting \<Rightarrow> 'f ScenarioResult \<Rightarrow> string \<Rightarrow> 'f OpStats \<Rightarrow> (string \<rightharpoonup> string) \<Rightarrow> bool" where
  "latency_columns p s op st m \<longleftrightarrow>
     m ''scenario'' = Some (sr_Scenario s) \<and> m ''runtime'' = Some (sr_Runtime s) \<and> m ''variant'' = Some (sr_Variant s)
   \<and> m ''parallel'' = Some (show_int (sr_Parallel s)) \<and> m ''scale_count'' = Some (show_int (sr_ScaleCount s)) \<and> m ''op'' = Some op
   \<and> m ''count'' = Some (show_int (os_Count st)) \<and> m ''min_ms'' = Some (f2 p (os_Min st)) \<and> m ''p50_ms'' = Some (f2 p (os_P50 st))
   \<and> m ''p90_ms'' = Some (f2 p (os_P90 st)) \<and> m ''p99_ms'' = Some (f2 p (os_P99 st)) \<and> m ''max_ms'' = Some (f2 p (os_Max st))
   \<and> m ''mean_ms'' = Some (f2 p (os_Mean st)) \<and> m ''stddev_ms'' = Some (f2 p (os_Stddev st))"

definition result_columns :: "'f plotting \<Rightarrow> 'f ScenarioResult \<Rightarrow> (string \<rightharpoonup> string) \<Rightarrow> bool" where
  "result_columns p s m \<longleftrightarrow>
     m ''scenario'' = Some (sr_Scenario s) \<and> m ''runtime'' = Some (sr_Runtime s) \<and> m ''variant'' = Some (sr_Variant s)
   \<and> m ''parallel'' = Some (show_int (sr_Parallel s)) \<and> m ''scale_count'' = Some (show_int (sr_ScaleCount s))
   \<and> m ''iterations'' = Some (show_int (sr_Iterations s)) \<and> m ''errors'' = Some (show_int (sr_Errors s))
   \<and> m ''wall_s'' = Some (f2 p (sr_WallSeconds s)) \<and> m ''throughput_ops_s'' = Some (f2 p (sr_ThroughputOpsPerSec s))
   \<and> m ''system_cpu_s'' = Some (f2 p (sr_SystemCPUSeconds s)) \<and> m ''harness_cpu_s'' = Some (f2 p (sr_HarnessCPUSeconds s))
   \<and> m ''attrib_cpu_s'' = Some (f2 p (sr_AttribCPUSeconds s)) \<and> m ''system_util_pct'' = Some (f2 p (sr_SystemUtilPct s))
   \<and> m ''shim_cgroup_cpu_s'' = Some (f2 p (sr_ShimCgroupCPUSecond s))"

definition shim_columns :: "'f plotting \<Rightarrow> 'f ScenarioResult \<Rightarrow> (string \<rightharpoonup> string) \<Rightarrow> bool" where
  "shim_columns p s m \<longleftrightarrow>
     list_all (\<lambda>c. m (''cpu_s_'' @ cat_name c) = Some (f2 p (case sr_CPUSeconds s c of None \<Rightarrow> num p 0 | Some v \<Rightarrow> v))
                 \<and> m (''peak_pss_'' @ cat_name c) = Some (FormatUint (case sr_MemPeakPss s c of None \<Rightarrow> 0 | Some v \<Rightarrow> v))) sampledCategories
   \<and> m ''reactor_hits'' = Some (case sr_ShimVars s of None \<Rightarrow> '''' | Some v \<Rightarrow> FormatInt (dv_ReactorHits v))
   \<and> m ''getall_fallbacks'' = Some (case sr_ShimVars s of None \<Rightarrow> '''' | Some v \<Rightarrow> FormatInt (dv_GetAllFallbacks v))
   \<and> m ''ondisk_reads'' = Some (case sr_ShimVars s of None \<Rightarrow> '''' | Some v \<Rightarrow> FormatInt (dv_OnDiskReads v))
   \<and> m ''reactor_hit_rate'' = Some (case sr_ShimVars s of None \<Rightarrow> '''' | Some v \<Rightarrow> f2 p (dv_ReactorHitRate v))
   \<and> m ''shim_go_heap_bytes'' = Some (FormatUint (sr_ShimGoHeapBytes s))"

lemma latency_row_columns: "latency_columns p s op st (map_of (zip latency_header (latency_row p s (op, st))))"
  unfolding latency_columns_def latency_header_def latency_row_def prod.case by (intro conjI; simp)

lemma resource_row_columns:
  "result_columns p s (map_of (zip resource_header (resource_row p s)))"
  "shim_columns p s (map_of (zip resource_header (resource_row p s)))"
  unfolding result_columns_def shim_columns_def resource_header_def resource_row_def sampledCategories_def list.map append.simps list.pred_inject
  by (intro conjI TrueI; simp add: cat_name_def split: option.split)+

lemma csv_table_file:
  "length h > 0 \<Longrightarrow> list_all (\<lambda>row. length row = length h) rows \<Longrightarrow> csv_table (csv_file (h # rows)) = Some (map (\<lambda>row. map_of (zip h row)) rows)"
  using csv_read_file [of "h # rows"] by (force simp: csv_table_def list_all_iff)

text \<open>
  C38: Whatever strings and numbers a report holds, both tables read back, with a reader of RFC 4180's format, as tables whose named columns hold what their names say.
  The latency table has one row for each operation of each result, in order, with the operation's count, minimum, 50th, 90th and 99th percentile, maximum, mean and deviation
  under their names, and the resource table one row for each result with its counts, rates, processor times and memory per category and the shim's own counters:
  names with commas, quotes or line ends break nothing, and no value stands in another one's column.
\<close>

theorem csv_reads_back:
  "(\<exists>rows. csv_table (writeLatencyCSV p r) = Some rows
      \<and> list_all2 (\<lambda>(s, op, st) m. latency_columns p s op st m) (concat (map (\<lambda>s. map (\<lambda>(op, st). (s, op, st)) (sr_Ops s)) (rp_Scenarios r))) rows)
   \<and> (\<exists>rows. csv_table (writeResourceCSV p r) = Some rows
      \<and> list_all2 (\<lambda>s m. result_columns p s m \<and> shim_columns p s m) (rp_Scenarios r) rows)"
proof (intro conjI)
  let ?cells = "concat (map (\<lambda>s. map (\<lambda>(op, st). (s, op, st)) (sr_Ops s)) (rp_Scenarios r))"
  have "latency_rows p r = latency_header # map (\<lambda>(s, op, st). latency_row p s (op, st)) ?cells"
    by (simp add: latency_rows_def map_concat comp_def case_prod_beta)
  then have "csv_table (writeLatencyCSV p r) = Some (map (\<lambda>row. map_of (zip latency_header row)) (map (\<lambda>(s, op, st). latency_row p s (op, st)) ?cells))"
    unfolding writeLatencyCSV_def using csv_table_file [of latency_header] by (auto simp: row_lengths list_all_iff)
  then show "\<exists>rows. csv_table (writeLatencyCSV p r) = Some rows \<and> list_all2 (\<lambda>(s, op, st) m. latency_columns p s op st m) ?cells rows"
    by (simp add: list.rel_map) (auto simp: latency_row_columns intro!: list.rel_refl_strong)
  have "csv_table (writeResourceCSV p r) = Some (map (\<lambda>row. map_of (zip resource_header row)) (map (resource_row p) (rp_Scenarios r)))"
    unfolding writeResourceCSV_def resource_rows_def by (rule csv_table_file) (simp_all add: row_lengths list_all_iff)
  then show "\<exists>rows. csv_table (writeResourceCSV p r) = Some rows \<and> list_all2 (\<lambda>s m. result_columns p s m \<and> shim_columns p s m) (rp_Scenarios r) rows"
    by (simp add: list.rel_map) (auto simp: resource_row_columns intro!: list.rel_refl_strong)
qed

end
