(* ===== verification/Page.thy ===== *)
theory Page
  imports Report
begin

text \<open>
  The page of the benchmark (\<open>contrib/bench/html.go\<close>): provenance, charts, table and caveats, that it is balanced markup whatever the report holds, and how
  \<open>writeOutputs\<close> of \<open>report.go\<close> puts page and tables on disk.
\<close>

subsection \<open>Small helpers\<close>

definition headlineOp :: "string \<Rightarrow> string" where
  "headlineOp scenario = (if scenario = ''status'' then ''state'' else if scenario = ''scale'' then ''launch'' else ''total'')"

definition peak :: "'f ScenarioResult \<Rightarrow> category \<Rightarrow> u64" where
  "peak s c = (case sr_MemPeakPss s c of None \<Rightarrow> 0 | Some v \<Rightarrow> v)"

definition shimPeakPss :: "'f ScenarioResult \<Rightarrow> u64" where
  "shimPeakPss s = (if sr_Runtime s = runtimeSystemd then peak s catShimSystemd + peak s catTTYHelper else peak s catShimRunc)"

definition prettyOps :: "string list \<Rightarrow> string list" where
  "prettyOps ops = map (\<lambda>k. case map_of [(''exec_create'', ''exec''), (''container_new'', ''new''), (''container_delete'', ''cdelete'')] k of Some v \<Rightarrow> v | None \<Rightarrow> k) ops"

definition itoaz :: "int \<Rightarrow> string" where
  "itoaz v = (if v = 0 then ''-'' else show_int v)"

definition joinInts :: "int list \<Rightarrow> string" where
  "joinInts v = Join (map show_int v) '', ''"

definition short :: "string \<Rightarrow> nat \<Rightarrow> string" where
  "short s n = (if length s > n then take n s else s)"

definition fmtBytes :: "'f plotting \<Rightarrow> u64 \<Rightarrow> string" where
  "fmtBytes p b =
     (let v = num p (uint b)
      in if b = 0 then ''0''
         else if b \<ge> push_bit 30 1 then printf p ''%.1f GiB'' [Flt (quo p v (num p (2 ^ 30)))]
         else if b \<ge> push_bit 20 1 then printf p ''%.1f MiB'' [Flt (quo p v (num p (2 ^ 20)))]
         else if b \<ge> push_bit 10 1 then printf p ''%.0f KiB'' [Flt (quo p v (num p (2 ^ 10)))]
         else printf p ''%d B'' [Dec (uint b)])"

subsection \<open>Provenance\<close>

definition provenance :: "'f plotting \<Rightarrow> 'f Report \<Rightarrow> (string \<times> string) list" where
  "provenance p r = (let e = rp_Env r; c = rp_Config r in
     [(''started'', rp_StartedAt r), (''host'', ev_Hostname e), (''kernel'', ev_Kernel e), (''arch'', ev_Arch e), (''cpus'', show_int (ev_NumCPU e)),
      (''memory'', fmtBytes p (ev_MemTotalBytes e)), (''cgroup'', ev_CgroupVersion e), (''containerd'', ev_ContainerdVer e), (''runc'', ev_RuncVersion e),
      (''go'', ev_GoVersion e), (''harness commit'', short (ev_HarnessGitCommit e) 12), (''inside VM'', FormatBool (ev_InsideVM e)),
      (''iterations'', show_int (bc_Iterations c)), (''warmup'', show_int (bc_Warmup c)), (''parallel'', joinInts (bc_Parallel c)),
      (''scale counts'', joinInts (bc_ScaleCounts c)), (''image'', bc_Image c)])"

definition writeProvenance :: "'f plotting \<Rightarrow> 'f Report \<Rightarrow> string" where
  "writeProvenance p r =
     ''<section class=\"prov\"><h2>environment</h2><dl>''
     @ concat (map (\<lambda>(k, v). if v = '''' then '''' else printf p ''<div><dt>%s</dt><dd>%s</dd></div>'' [Str (EscapeString k), Str (EscapeString v)]) (provenance p r))
     @ ''</dl></section>''"

subsection \<open>Charts\<close>

definition group_of :: "string \<Rightarrow> 'f list \<Rightarrow> 'f barGroup" where
  "group_of rt vals = \<lparr>bg_name = rtShort rt, bg_color = rtColor rt, bg_values = vals\<rparr>"

definition p_label :: "int \<Rightarrow> string" where
  "p_label n = ''p='' @ show_int n"

text \<open>The builders return the empty string when no result matches; the outer option is a panic.\<close>

definition chartPerOp :: "'f plotting \<Rightarrow> 'f Report \<Rightarrow> string \<Rightarrow> string \<Rightarrow> int \<Rightarrow> string list \<Rightarrow> string \<Rightarrow> string option" where
  "chartPerOp p r scenario variant parallel ops yl =
     (let groups = List.map_filter (\<lambda>rt. case find_result r scenario rt variant parallel 0 of
            None \<Rightarrow> None | Some s \<Rightarrow> Some (group_of rt (map (p50Op p (Some s)) ops))) (runtimesPresent r)
      in if groups = [] then Some '''' else groupedBars p scenario yl (prettyOps ops) groups)"

definition chartTTY :: "'f plotting \<Rightarrow> 'f Report \<Rightarrow> string option" where
  "chartTTY p r =
     (let sel = [(''container'', ''''), (''container-tty'', ''''), (''exec'', ''spread''), (''exec-tty'', ''spread'')];
          groups = map (\<lambda>rt. group_of rt (map (\<lambda>(sc, v). p50Op p (find_result r sc rt v 1 0) ''total'') sel)) (runtimesPresent r);
          found = list_ex (\<lambda>rt. list_ex (\<lambda>(sc, v). find_result r sc rt v 1 0 \<noteq> None) sel) (runtimesPresent r)
      in if \<not> found then Some '''' else groupedBars p ''tty'' ''ms'' (map fst sel) groups)"

definition line_of :: "string \<Rightarrow> 'f linePoint list \<Rightarrow> 'f lineSeries" where
  "line_of rt pts = \<lparr>ls_name = rtShort rt, ls_color = rtColor rt, ls_points = pts\<rparr>"

definition chartVsParallel :: "'f plotting \<Rightarrow> 'f Report \<Rightarrow> string \<Rightarrow> string \<Rightarrow> string \<Rightarrow> string \<Rightarrow> string option" where
  "chartVsParallel p r scenario variant metric yl =
     (let xs = bc_Parallel (rp_Config r);
          look = (\<lambda>rt n. find_result r scenario rt variant n 0);
          y = (\<lambda>s. if metric = ''throughput'' then (case s of None \<Rightarrow> num p 0 | Some s \<Rightarrow> sr_ThroughputOpsPerSec s)
                   else if metric = ''p99'' then p99Op p s ''total'' else num p 0);
          series = map (\<lambda>rt. line_of rt (map (\<lambda>n. \<lparr>lp_label = p_label n, lp_y = y (look rt n), lp_missing = (look rt n = None)\<rparr>) xs)) (runtimesPresent r);
          found = (metric = ''throughput'' \<or> metric = ''p99'') \<and> list_ex (\<lambda>rt. list_ex (\<lambda>n. look rt n \<noteq> None) xs) (runtimesPresent r)
      in if \<not> found then Some '''' else Some (lineChart p scenario yl (map p_label xs) series))"

definition chartScaleMem :: "'f plotting \<Rightarrow> 'f Report \<Rightarrow> string option" where
  "chartScaleMem p r =
     (let xs = bc_ScaleCounts (rp_Config r);
          look = (\<lambda>rt n. find_result r ''scale'' rt '''' 0 n);
          peak_of = (\<lambda>rt s. if rt = runtimeSystemd then peak s catShimSystemd else if rt = runtimeRunc then peak s catShimRunc else peak s catOther);
          y = (\<lambda>rt s. case s of None \<Rightarrow> num p 0 | Some s \<Rightarrow> quo p (num p (uint (peak_of rt s))) (num p (1024 * 1024)));
          series = map (\<lambda>rt. line_of rt (map (\<lambda>n. \<lparr>lp_label = show_int n, lp_y = y rt (look rt n), lp_missing = (look rt n = None)\<rparr>) xs)) (runtimesPresent r);
          found = list_ex (\<lambda>rt. list_ex (\<lambda>n. look rt n \<noteq> None) xs) (runtimesPresent r)
      in if length xs = 0 \<or> \<not> found then Some '''' else Some (lineChart p ''scale'' ''MB'' (map show_int xs) series))"

definition chartCPUByCategory :: "'f plotting \<Rightarrow> 'f Report \<Rightarrow> int \<Rightarrow> string option" where
  "chartCPUByCategory p r parallel =
     (let rts = runtimesPresent r;
          vals = (\<lambda>c. map (\<lambda>rt. case find_result r ''container'' rt '''' parallel 0 of
                    None \<Rightarrow> num p 0 | Some s \<Rightarrow> (case sr_CPUSeconds s c of None \<Rightarrow> num p 0 | Some v \<Rightarrow> v)) rts);
          segs = List.map_filter (\<lambda>(ci, c).
                   if list_ex (\<lambda>v. lt p (num p 0) v) (vals c) then Some \<lparr>ss_name = cat_name c, ss_color = catColors ! (ci mod length catColors), ss_values = vals c\<rparr> else None)
                 (enumerate 0 sampledCategories)
      in if segs = [] then Some '''' else stackedBars p ''cpu'' ''CPU-seconds'' (map rtShort rts) segs)"

definition chartAttribCPU :: "'f plotting \<Rightarrow> 'f Report \<Rightarrow> string \<Rightarrow> string option" where
  "chartAttribCPU p r scenario =
     (let xs = bc_Parallel (rp_Config r);
          hit = (\<lambda>rt n. case find_result r scenario rt '''' n 0 of None \<Rightarrow> None | Some s \<Rightarrow> if sr_Iterations s > 0 then Some s else None);
          val = (\<lambda>s. case s of None \<Rightarrow> num p 0 | Some s \<Rightarrow> mul p (quo p (sr_AttribCPUSeconds s) (num p (sr_Iterations s))) (num p 1000));
          groups = map (\<lambda>rt. group_of rt (map (\<lambda>n. val (hit rt n)) xs)) (runtimesPresent r);
          found = list_ex (\<lambda>rt. list_ex (\<lambda>n. hit rt n \<noteq> None) xs) (runtimesPresent r)
      in if \<not> found then Some '''' else groupedBars p ''cpu/op'' ''ms/op'' (map p_label xs) groups)"

text \<open>The counters of the results of one scenario on the systemd shim, summed as the machine does; none when no such result has counters.\<close>

definition counted :: "'f Report \<Rightarrow> string \<Rightarrow> 'f ShimVarsDelta list" where
  "counted r name = List.map_filter (\<lambda>s. if sr_Runtime s = runtimeSystemd \<and> sr_Scenario s = name then sr_ShimVars s else None) (rp_Scenarios r)"

definition chartFallback :: "'f plotting \<Rightarrow> 'f Report \<Rightarrow> string option" where
  "chartFallback p r =
     (let names = filter (\<lambda>name. counted r name \<noteq> []) [''container'', ''exec'', ''exec-tty'', ''container-tty'', ''status'', ''scale''];
          total_by = (\<lambda>f. map (\<lambda>name. num p (sint (fold (\<lambda>v a. a + f v) (counted r name) (0 :: i64)))) names)
      in if length names = 0 then Some ''''
         else stackedBars p ''state-source'' ''events'' names
           [\<lparr>ss_name = ''reactor hit'', ss_color = ''var(--cat-1)'', ss_values = total_by dv_ReactorHits\<rparr>,
            \<lparr>ss_name = ''GetAll fallback'', ss_color = ''var(--cat-6)'', ss_values = total_by dv_GetAllFallbacks\<rparr>,
            \<lparr>ss_name = ''on-disk read'', ss_color = ''var(--cat-4)'', ss_values = total_by dv_OnDiskReads\<rparr>])"

definition figure_card :: "'f plotting \<Rightarrow> string \<times> string \<times> string option \<Rightarrow> string option" where
  "figure_card p t = (case t of (title, desc, svg) \<Rightarrow> map_option (\<lambda>svg.
     if svg = '''' then ''''
     else printf p ''<figure class=\"card\"><figcaption><h3>%s</h3><p>%s</p></figcaption>%s</figure>'' [Str (EscapeString title), Str (EscapeString desc), Str svg]) svg)"

fun all_cards :: "'f plotting \<Rightarrow> (string \<times> string \<times> string option) list \<Rightarrow> string option" where
  "all_cards p [] = Some ''''"
| "all_cards p (t # ts) = Option.bind (figure_card p t) (\<lambda>a. map_option ((@) a) (all_cards p ts))"

definition minus_sign :: string where "minus_sign = [CHR 0xE2, CHR 0x88, CHR 0x92]"
definition division_sign :: string where "division_sign = [CHR 0xC3, CHR 0xB7]"

definition chart_sections :: "'f plotting \<Rightarrow> 'f Report \<Rightarrow> int \<Rightarrow> (string \<times> string \<times> string option) list" where
  "chart_sections p r maxP =
     [(''Container run latency (p50, sequential)'',
       ''Time for each task op across a full container lifecycle. Lower is better.'',
       chartPerOp p r ''container'' '''' 1 [''create'', ''start'', ''run'', ''delete'', ''total''] ''ms''),
      (''Exec latency (p50, sequential)'',
       ''Time to run a short exec inside a running container.'',
       chartPerOp p r ''exec'' ''spread'' 1 [''exec_create'', ''start'', ''run'', ''delete'', ''total''] ''ms''),
      (''Status collection latency (p50, sequential)'',
       ''State (task status) and Stats (cgroup metrics) call latency.'',
       chartPerOp p r ''status'' '''' 1 [''state'', ''stats''] ''ms''),
      (''TTY vs non-TTY total latency (p50, sequential)'',
       ''The TTY path adds a transient tty unit + PTY-copy helper for the systemd shim.'',
       chartTTY p r),
      (''Throughput vs parallelism '' @ emdash @ '' container'',
       ''Container lifecycles completed per second as in-flight concurrency rises.'',
       chartVsParallel p r ''container'' '''' ''throughput'' ''ops/sec''),
      (''Tail latency (p99) vs parallelism '' @ emdash @ '' container'',
       ''p99 of end-to-end container latency under concurrency. Watch the shared-daemon tail.'',
       chartVsParallel p r ''container'' '''' ''p99'' ''ms''),
      (''Tail latency (p99) vs parallelism '' @ emdash @ '' exec on one container'',
       ''Concurrent execs against a single container '' @ emdash @ '' worst case for the shared per-container lock.'',
       chartVsParallel p r ''exec'' ''single-container'' ''p99'' ''ms''),
      (''Shim memory vs container count (peak Pss)'',
       ''Resident shim memory as containers scale: one shared daemon vs one shim per container.'',
       chartScaleMem p r),
      (''Server CPU per container (system '' @ minus_sign @ '' harness)'',
       ''System-wide CPU-seconds over the run minus the harness'' @ [CHR 0x27] @ ''s own, per container. Lifetime-independent, so short-lived runc is counted ''
         @ emdash @ '' this is the fair CPU comparison.'',
       chartAttribCPU p r ''container''),
      (printf p (''CPU by process category '' @ emdash @ '' container @ p=%d (breakdown)'') [Dec maxP],
       ''Per-process attribution. Long-lived (shim daemon, PID1, containerd) is exact; short-lived runc / per-container shims are undercounted by sampling ''
         @ emdash @ '' use the fair total above.'',
       chartCPUByCategory p r maxP),
      (''Exit-state source: reactor vs GetAll (systemd shim)'',
       ''Exit-state loads served by the in-memory D-Bus reactor vs the systemd GetAll fallback (hit rate = reactor '' @ division_sign
         @ '' (reactor+GetAll)). On-disk reads are a separate LoadState path, shown for volume '' @ emdash @ '' not part of the hit rate.'',
       chartFallback p r)]"

definition writeCharts :: "'f plotting \<Rightarrow> 'f Report \<Rightarrow> string option" where
  "writeCharts p r =
     Option.bind (slices_Max max (bc_Parallel (rp_Config r))) (\<lambda>maxP.
       map_option (\<lambda>cards. ''<section class=\"charts\">'' @ cards @ ''</section>'') (all_cards p (chart_sections p r maxP)))"

subsection \<open>Table and page\<close>

definition table_cells :: "'f plotting \<Rightarrow> 'f ScenarioResult \<Rightarrow> string list" where
  "table_cells p s =
     (let op = headlineOp (sr_Scenario s);
          hitRate = (case sr_ShimVars s of None \<Rightarrow> '''' | Some v \<Rightarrow> printf p ''%.0f%%'' [Flt (mul p (dv_ReactorHitRate v) (num p 100))]);
          cpuPerOp = (if sr_Iterations s > 0 then printf p ''%.1f'' [Flt (mul p (quo p (sr_AttribCPUSeconds s) (num p (sr_Iterations s))) (num p 1000))] else '''')
      in [sr_Scenario s, rtShort (sr_Runtime s), sr_Variant s, itoaz (sr_Parallel s), itoaz (sr_ScaleCount s),
          show_int (sr_Iterations s), show_int (sr_Errors s), printf p ''%.1f'' [Flt (sr_ThroughputOpsPerSec s)],
          printf p ''%.2f'' [Flt (p50Op p (Some s) op)], printf p ''%.2f'' [Flt (p99Op p (Some s) op)], cpuPerOp, fmtBytes p (shimPeakPss s), hitRate])"

definition table_header :: "string list" where
  "table_header = [''scenario'', ''runtime'', ''variant'', ''P'', ''N'', ''iters'', ''err'', ''thrpt/s'', ''hdln p50'', ''hdln p99'', ''cpu/op ms'', ''shim peak'', ''hit rate'']"

definition writeDataTable :: "'f plotting \<Rightarrow> 'f Report \<Rightarrow> string" where
  "writeDataTable p r =
     ''<section class=\"tablewrap\"><h2>all measurements</h2>''
     @ ''<p class=\"sub\">Full raw data in <code>results.json</code>, <code>latency.csv</code>, <code>resources.csv</code>.</p>''
     @ ''<table><thead><tr>''
     @ concat (map (\<lambda>h. printf p ''<th>%s</th>'' [Str h]) table_header)
     @ ''</tr></thead><tbody>''
     @ concat (map (\<lambda>s. ''<tr>'' @ concat (map (\<lambda>c. printf p ''<td>%s</td>'' [Str (EscapeString c)]) (table_cells p s)) @ ''</tr>'') (rp_Scenarios r))
     @ ''</tbody></table></section>''"

definition caveats :: "string list" where
  "caveats =
     [''systemd shim = one node-wide daemon (+ systemd supervision, + a PTY helper per TTY workload); runc.v2 = one shim process per container. \"shim cpu\"/\"shim peak\" sum the shim-attributable categories for each design.'',
      ''systemd'' @ [CHR 0x27] @ ''s own CPU is shared with the rest of the system, so its share is approximate over the measurement window.'',
      ''Short-lived runc invocations may be undercounted by the sampling interval; both runtimes invoke runc, so this largely cancels in the comparison.'',
      ''Inside a VM, absolute latency includes virtualization overhead '' @ emdash @ '' treat numbers as relative shim-vs-shim, not absolute host performance.'',
      ''State-source counters are a systemd-shim internal diagnostic (runc.v2 has no equivalent), not a head-to-head metric.'']"

definition writeCaveats :: "'f plotting \<Rightarrow> string" where
  "writeCaveats p =
     ''<section class=\"caveats\"><h2>reading these numbers</h2><ul>''
     @ concat (map (\<lambda>c. printf p ''<li>%s</li>'' [Str (EscapeString c)]) caveats)
     @ ''</ul></section>''"

text \<open>The page that \<open>writeHTML\<close> writes; the style sheet and the script are constants of the program, here arguments. The frame around its parts first.\<close>

definition page_frame :: "string \<Rightarrow> string \<Rightarrow> string \<Rightarrow> string \<Rightarrow> string \<Rightarrow> string \<Rightarrow> string" where
  "page_frame reportCSS themeJS provenance_part charts table remarks =
     ''<!doctype html><html lang=\"en\"><head><meta charset=\"utf-8\">''
     @ ''<meta name=\"viewport\" content=\"width=device-width, initial-scale=1\">''
     @ ''<title>Shim benchmark '' @ emdash @ '' systemd vs runc.v2</title>''
     @ ''<style>'' @ reportCSS @ ''</style></head><body class=\"viz\">''
     @ ''<header class=\"top\"><div><h1>containerd shim benchmark</h1>''
     @ ''<p class=\"sub\">io.containerd.systemd.v1 vs io.containerd.runc.v2</p></div>''
     @ ''<button id=\"themeToggle\" class=\"toggle\" type=\"button\">'' @ [CHR 0xE2, CHR 0x97, CHR 0x90] @ '' theme</button></header>''
     @ provenance_part @ charts @ table @ remarks
     @ ''<script>'' @ themeJS @ ''</script>'' @ ''</body></html>''"

definition writeHTML :: "'f plotting \<Rightarrow> string \<Rightarrow> string \<Rightarrow> 'f Report \<Rightarrow> string option" where
  "writeHTML p reportCSS themeJS r =
     map_option (\<lambda>charts. page_frame reportCSS themeJS (writeProvenance p r) charts (writeDataTable p r) (writeCaveats p)) (writeCharts p r)"

subsection \<open>The page is balanced\<close>

text \<open>A chart that does not panic and writes balanced markup.\<close>

definition drawn :: "string option \<Rightarrow> bool" where
  "drawn c \<longleftrightarrow> (\<exists>s. c = Some s \<and> balanced s)"

lemma rtColor_safe [simp]: "safe (rtColor rt)"
  by (simp add: rtColor_def)

lemma group_of_color [simp]: "bg_color (group_of rt vals) = rtColor rt" "ls_color (line_of rt pts) = rtColor rt"
  by (simp_all add: group_of_def line_of_def)

lemma catColors_safe: "safe (catColors ! (i mod length catColors))"
proof -
  have "catColors ! (i mod length catColors) \<in> set catColors" by (rule nth_mem) (simp add: catColors_def)
  moreover have "list_all safe catColors" by (simp add: catColors_def)
  ultimately show ?thesis by (simp add: list_all_iff)
qed

lemma drawn_empty [simp]: "drawn (Some '''')"
  by (simp add: drawn_def)

lemma drawn_if: "drawn c \<Longrightarrow> drawn d \<Longrightarrow> drawn (if b then c else d)"
  by simp

lemma drawn_charts:
  "plain_numbers p \<Longrightarrow> list_all (\<lambda>g. safe (bg_color g)) groups \<Longrightarrow> drawn (groupedBars p title yl ns groups)"
  "plain_numbers p \<Longrightarrow> list_all (\<lambda>g. safe (ss_color g)) segs \<Longrightarrow> drawn (stackedBars p title yl ns segs)"
  "plain_numbers p \<Longrightarrow> list_all (\<lambda>g. safe (ls_color g)) series \<Longrightarrow> drawn (Some (lineChart p title yl ns series))"
  using charts_total(1) [of p title yl ns groups] charts_total(2) [of p title yl ns segs]
  by (auto simp: drawn_def groupedBars_balanced stackedBars_balanced lineChart_balanced)

lemma drawn_sections:
  assumes p: "plain_numbers p"
  shows "list_all (\<lambda>(t, d, c). drawn c) (chart_sections p r maxP)"
proof -
  note [simp] = drawn_if drawn_charts [OF p]
  have "drawn (chartPerOp p r sc v n ops yl)" for sc v n ops yl
    unfolding chartPerOp_def Let_def by (auto simp: map_filter_def list_all_iff split: option.splits)
  moreover have "drawn (chartTTY p r)" unfolding chartTTY_def Let_def by (simp add: list_all_iff)
  moreover have "drawn (chartVsParallel p r sc v m yl)" for sc v m yl unfolding chartVsParallel_def Let_def by (simp add: list_all_iff)
  moreover have "drawn (chartScaleMem p r)" unfolding chartScaleMem_def Let_def by (simp add: list_all_iff)
  moreover have "drawn (chartAttribCPU p r sc)" for sc unfolding chartAttribCPU_def Let_def by (simp add: list_all_iff)
  moreover have "drawn (chartCPUByCategory p r maxP)"
    unfolding chartCPUByCategory_def Let_def
    by (intro drawn_if drawn_empty drawn_charts p) (auto simp: map_filter_def list_all_iff catColors_safe)
  moreover have "drawn (chartFallback p r)" unfolding chartFallback_def Let_def by simp
  ultimately show ?thesis unfolding chart_sections_def by simp
qed

lemma all_cards_drawn: "list_all (\<lambda>(t, d, c). drawn c) ts \<Longrightarrow> drawn (all_cards p ts)"
proof (induction ts)
  case (Cons t ts)
  obtain title desc svg where t: "t = (title, desc, Some svg)" "balanced svg" using Cons.prems by (cases t) (auto simp: drawn_def)
  then have "\<exists>s. figure_card p t = Some s \<and> balanced s" by (simp add: figure_card_def scan_defs)
  with Cons show ?case by (auto simp: drawn_def)
qed simp

lemma slices_Max_some: "vs \<noteq> [] \<Longrightarrow> \<exists>m. slices_Max mx vs = Some m"
  by (cases vs) (simp_all add: slices_Max_def)

lemma writeCharts_drawn:
  assumes "plain_numbers p" "bc_Parallel (rp_Config r) \<noteq> []"
  shows "drawn (writeCharts p r)"
proof -
  obtain m where m: "slices_Max max (bc_Parallel (rp_Config r)) = Some m" using slices_Max_some [OF assms(2)] by blast
  from all_cards_drawn [OF drawn_sections [OF assms(1), of r m], of p] m show ?thesis
    by (auto simp: drawn_def writeCharts_def scan_defs)
qed

lemma writeProvenance_balanced: "balanced (writeProvenance p r)"
proof -
  have "balanced (concat (map (\<lambda>(k, v). if v = '''' then '''' else printf p ''<div><dt>%s</dt><dd>%s</dd></div>'' [Str (EscapeString k), Str (EscapeString v)]) (provenance p r)))"
    by (rule balanced_map) (auto simp: scan_defs split: prod.split)
  then show ?thesis by (simp add: writeProvenance_def scan_defs)
qed

lemma writeDataTable_balanced: "balanced (writeDataTable p r)"
proof -
  have "balanced (concat (map (\<lambda>h. printf p ''<th>%s</th>'' [Str h]) table_header))"
    by (simp add: table_header_def scan_defs)
  moreover have "balanced (concat (map (\<lambda>c. printf p ''<td>%s</td>'' [Str (EscapeString c)]) cs))" for cs
    by (rule balanced_map) (simp add: scan_defs)
  then have "balanced (''<tr>'' @ concat (map (\<lambda>c. printf p ''<td>%s</td>'' [Str (EscapeString c)]) cs) @ ''</tr>'')" for cs
    by (simp add: scan_defs)
  then have "balanced (concat (map (\<lambda>s. ''<tr>'' @ concat (map (\<lambda>c. printf p ''<td>%s</td>'' [Str (EscapeString c)]) (table_cells p s)) @ ''</tr>'') (rp_Scenarios r)))"
    by (intro balanced_map)
  ultimately show ?thesis by (simp add: writeDataTable_def scan_defs)
qed

lemma writeCaveats_balanced: "balanced (writeCaveats p)"
proof -
  have "balanced (concat (map (\<lambda>c. printf p ''<li>%s</li>'' [Str (EscapeString c)]) caveats))"
    by (rule balanced_map) (simp add: scan_defs)
  then show ?thesis by (simp add: writeCaveats_def scan_defs)
qed

definition textual :: "string \<Rightarrow> bool" where
  "textual s \<longleftrightarrow> list_all (\<lambda>c. c \<noteq> CHR ''<'' \<and> c \<noteq> CHR ''>'') s"

lemma balanced_textual: "textual s \<Longrightarrow> balanced s"
  unfolding balanced_def textual_def by (induction s) auto

lemma page_balanced:
  "balanced css \<Longrightarrow> balanced js \<Longrightarrow> balanced a \<Longrightarrow> balanced b \<Longrightarrow> balanced c \<Longrightarrow> balanced d \<Longrightarrow> well_formed (page_frame css js a b c d)"
  by (simp add: page_frame_def well_formed_def emdash_def opened_def void_elements_def)

lemma writeHTML_page:
  assumes "plain_numbers p" "bc_Parallel (rp_Config r) \<noteq> []"
  shows "\<exists>page. writeHTML p css js r = Some page \<and> (textual css \<longrightarrow> textual js \<longrightarrow> well_formed page)"
proof -
  from writeCharts_drawn [OF assms] obtain charts where c: "writeCharts p r = Some charts" "balanced charts" by (auto simp: drawn_def)
  then show ?thesis
    by (simp add: writeHTML_def page_balanced balanced_textual writeProvenance_balanced writeDataTable_balanced writeCaveats_balanced)
qed

text \<open>
  C37: Whatever results, names, host and configuration a report holds, building its page does not panic, and the page is balanced markup: every element it opens is closed in
  order, every attribute value ends, and no string of the report opens or closes anything. It takes numbers written without markup, a style sheet and a script without
  angle brackets, and a degree of parallelism, which every configuration has.
\<close>

theorem page_well_formed:
  assumes "plain_numbers p" "textual css" "textual js" "rp_Config r = configure stamp fg"
  shows "\<exists>page. writeHTML p css js r = Some page \<and> well_formed page"
proof -
  have "bc_Parallel (rp_Config r) \<noteq> []" using assms(4) configure_parallel [of stamp fg] by simp
  from writeHTML_page [OF assms(1) this, of css js] assms(2,3) show ?thesis by blast
qed

text \<open>An example: a result on a runtime whose name is markup, on a host whose name is too.\<close>

definition demo_plotting :: "int plotting" where
  "demo_plotting = \<lparr>pl_fl = demo_floats, pl_fmt = (\<lambda>d v. show_int v), pl_max = max, pl_min = min, pl_Floor = id, pl_Log10 = id, pl_Pow = (\<lambda>a b. 10)\<rparr>"

definition demo_report :: "int Report" where
  "demo_report = \<lparr>rp_Env = \<lparr>ev_Hostname = ''<script>'', ev_Kernel = ''6.1'', ev_Arch = ''amd64'', ev_NumCPU = 8, ev_MemTotalBytes = 1024, ev_CgroupVersion = ''v2'',
       ev_GoVersion = ''go1'', ev_ContainerdVer = ''2.0'', ev_RuncVersion = '''', ev_HarnessGitCommit = ''0123456789abcdef'', ev_ClockTicksHz = 100, ev_InsideVM = True\<rparr>,
     rp_StartedAt = ''now'', rp_Config = configure ''stamp'' (default_flags\<lparr>fg_runtimes := ''<b>''\<rparr>),
     rp_Scenarios = [\<lparr>sr_Scenario = ''container'', sr_Runtime = ''<b>'', sr_Variant = '''', sr_Parallel = 1, sr_ScaleCount = 0, sr_Iterations = 3, sr_Errors = 0,
       sr_WallSeconds = 2, sr_ThroughputOpsPerSec = 1, sr_Ops = [], sr_CPUSeconds = Map.empty, sr_SystemCPUSeconds = 1, sr_HarnessCPUSeconds = 0, sr_AttribCPUSeconds = 1,
       sr_SystemUtilPct = 50, sr_ShimCgroupCPUSecond = 0, sr_MemPeakPss = Map.empty, sr_MemMeanPss = Map.empty, sr_ShimVars = None, sr_ShimGoHeapBytes = 0, sr_Series = []\<rparr>]\<rparr>"

theorem page_well_formed_witness:
  "plain_numbers demo_plotting \<and> textual ''h1 { margin:0; }'' \<and> textual ''go();''
   \<and> (\<exists>page. writeHTML demo_plotting ''h1 { margin:0; }'' ''go();'' demo_report = Some page \<and> well_formed page)"
proof -
  have 1: "plain_numbers demo_plotting" by (simp add: plain_numbers_def demo_plotting_def)
  have 2: "textual ''h1 { margin:0; }''" "textual ''go();''" by (simp_all add: textual_def)
  have 3: "rp_Config demo_report = configure ''stamp'' (default_flags\<lparr>fg_runtimes := ''<b>''\<rparr>)" by (simp add: demo_report_def)
  show ?thesis using page_well_formed [OF 1 2 3] 1 2 by simp
qed

end
