(* ===== verification/BenchRun.thy ===== *)
theory BenchRun
  imports Page
begin

text \<open>
  A whole run of the benchmark (\<open>run\<close> of \<open>contrib/bench/main.go\<close>, \<open>newDriver\<close>, and \<open>writeOutputs\<close> of \<open>report.go\<close>): connect, remove leftovers, every scenario on every
  runtime with a clean-up after each, and the files of the report.
\<close>

subsection \<open>Files\<close>

datatype wop = WMkdirAll string | WCreate string | WWrite string string | WClose string

record 'w outputs =
  ot_world :: 'w
  ot_log :: "(wop \<times> err option) list"

type_synonym ('w, 'a) wgo = "('w outputs, 'a) state"

text \<open>The outside: the file system, and the encoder of \<open>encoding/json\<close>, which may refuse a value.\<close>

record ('w, 'f) wenv =
  we_do :: "wop \<Rightarrow> 'w \<Rightarrow> err option \<times> 'w"
  we_report :: "'f Report \<Rightarrow> string result"
  we_env :: "Env \<Rightarrow> string result"

definition wdo :: "('w, 'f) wenv \<Rightarrow> wop \<Rightarrow> ('w, err option) wgo" where
  "wdo x k = State (\<lambda>s. case we_do x k (ot_world s) of (e, w) \<Rightarrow> (e, s\<lparr>ot_world := w, ot_log := ot_log s @ [(k, e)]\<rparr>))"

text \<open>A file made, filled and closed: the shape of \<open>writeJSON\<close>, of both CSV writers, and of \<open>os.WriteFile\<close>.\<close>

definition write_file :: "('w, 'f) wenv \<Rightarrow> string \<Rightarrow> string result \<Rightarrow> ('w, err option) wgo" where
  "write_file x path data = do {
     e \<leftarrow> wdo x (WCreate path);
     if e \<noteq> None then return_go e
     else do {
       e \<leftarrow> (case data of Inl e \<Rightarrow> return_go (Some e) | Inr s \<Rightarrow> wdo x (WWrite path s));
       _ \<leftarrow> wdo x (WClose path);
       return_go e } }"

definition writeJSON :: "('w, 'f) wenv \<Rightarrow> string \<Rightarrow> string result \<Rightarrow> ('w, err option) wgo" where
  "writeJSON x path v = write_file x path v"

fun write_files :: "('w, 'f) wenv \<Rightarrow> (string \<times> string result) list \<Rightarrow> ('w, err option) wgo" where
  "write_files x [] = return_go None"
| "write_files x ((path, data) # fs) = do { e \<leftarrow> write_file x path data; if e \<noteq> None then return_go e else write_files x fs }"

text \<open>\<open>None\<close> is a panic of the page's charts, which comes after the other files were written.\<close>

definition writeOutputs :: "('w, 'f) wenv \<Rightarrow> 'f plotting \<Rightarrow> string \<Rightarrow> string \<Rightarrow> bench_config \<Rightarrow> 'f Report \<Rightarrow> ('w, err option option) wgo" where
  "writeOutputs x p css js cfg r = do {
     e \<leftarrow> wdo x (WMkdirAll (bc_Out cfg));
     if e \<noteq> None then return_go (Some e)
     else do {
       e \<leftarrow> writeJSON x (path_Join [bc_Out cfg, ''results.json'']) (we_report x r);
       if e \<noteq> None then return_go (Some e)
       else do {
         e \<leftarrow> writeJSON x (path_Join [bc_Out cfg, ''env.json'']) (we_env x (rp_Env r));
         if e \<noteq> None then return_go (Some e)
         else do {
           e \<leftarrow> write_files x [(path_Join [bc_Out cfg, ''latency.csv''], Inr (writeLatencyCSV p r)), (path_Join [bc_Out cfg, ''resources.csv''], Inr (writeResourceCSV p r))];
           if e \<noteq> None then return_go (Some e)
           else (case writeHTML p css js r of
                   None \<Rightarrow> return_go None
                 | Some page \<Rightarrow> do { e \<leftarrow> write_file x (path_Join [bc_Out cfg, ''report.html'']) (Inr page); return_go (Some e) }) } } } }"

subsection \<open>A run\<close>

record ('w, 'f) renv =
  re_sc :: "('w, 'f) scenv"
  re_files :: "('w, 'f) wenv"
  re_plot :: "'f plotting"
  re_css :: string
  re_js :: string
  re_New :: "string \<Rightarrow> string \<Rightarrow> 'w \<Rightarrow> err option \<times> 'w"
  re_Pull :: "string \<Rightarrow> 'w \<Rightarrow> err option \<times> 'w"
  re_Close :: "'w \<Rightarrow> err option \<times> 'w"
  re_machine :: "'w \<Rightarrow> machine \<times> 'w"
  re_Now :: "'w \<Rightarrow> string \<times> 'w"

definition newDriver :: "('w, 'f) renv \<Rightarrow> bench_config \<Rightarrow> ('w, err option) bgo" where
  "newDriver x cfg = do {
     e \<leftarrow> ask (re_New x (bc_Address cfg) (bc_Namespace cfg));
     if e \<noteq> None then return_go e else ask (re_Pull x (bc_Image cfg)) }"

text \<open>Every scenario on every runtime, with the clean-up of the namespace after each.\<close>

fun run_cells :: "('w, 'f) scenv \<Rightarrow> bench_config \<Rightarrow> (string \<times> string) list \<Rightarrow> ('w, 'f ScenarioResult list option) bgo" where
  "run_cells x cfg [] = return_go (Some [])"
| "run_cells x cfg ((rt, sc) # ps) = do {
     results \<leftarrow> runScenario x cfg rt sc;
     case results of
       None \<Rightarrow> return_go None
     | Some results \<Rightarrow> do {
         cleanupNamespace (sc_bench x);
         rest \<leftarrow> run_cells x cfg ps;
         return_go (map_option ((@) results) rest) } }"

definition grid :: "bench_config \<Rightarrow> (string \<times> string) list" where
  "grid cfg = concat (map (\<lambda>rt. map (Pair rt) (bc_Scenarios cfg)) (bc_Runtimes cfg))"

definition outputs_of :: "('w, 'f) renv \<Rightarrow> bench_config \<Rightarrow> 'f Report \<Rightarrow> ('w, err option option) bgo" where
  "outputs_of x cfg r = ask (\<lambda>w. case run_state (writeOutputs (re_files x) (re_plot x) (re_css x) (re_js x) cfg r) \<lparr>ot_world = w, ot_log = []\<rparr> of (e, s) \<Rightarrow> (e, ot_world s))"

definition bench_run :: "('w, 'f) renv \<Rightarrow> string \<Rightarrow> bench_flags \<Rightarrow> ('w, err option option) bgo" where
  "bench_run x stamp fg = (let cfg = configure stamp fg in do {
     e \<leftarrow> newDriver x cfg;
     if e \<noteq> None then return_go (Some e)
     else do {
       cleanupNamespace (sc_bench (re_sc x));
       h \<leftarrow> ask (re_machine x);
       started \<leftarrow> ask (re_Now x);
       results \<leftarrow> run_cells (re_sc x) cfg (grid cfg);
       case results of
         None \<Rightarrow> return_go None
       | Some results \<Rightarrow> do {
           e \<leftarrow> outputs_of x cfg \<lparr>rp_Env = gatherEnv h, rp_StartedAt = started, rp_Config = cfg, rp_Scenarios = results\<rparr>;
           _ \<leftarrow> ask (re_Close x);
           return_go e } } })"

subsection \<open>Files are closed\<close>

text \<open>Every file that was made is closed before anything else is made, and a run of the writers stops at the first error.\<close>

fun closed_files :: "(wop \<times> err option) list \<Rightarrow> string option \<Rightarrow> bool" where
  "closed_files [] cur \<longleftrightarrow> cur = None"
| "closed_files ((WMkdirAll d, e) # cs) cur \<longleftrightarrow> cur = None \<and> closed_files cs None"
| "closed_files ((WCreate f, e) # cs) cur \<longleftrightarrow> cur = None \<and> closed_files cs (if e = None then Some f else None)"
| "closed_files ((WWrite f s, e) # cs) cur \<longleftrightarrow> cur = Some f \<and> closed_files cs cur"
| "closed_files ((WClose f, e) # cs) cur \<longleftrightarrow> cur = Some f \<and> closed_files cs None"

lemma closed_files_append: "closed_files cs cur \<Longrightarrow> closed_files ds None \<Longrightarrow> closed_files (cs @ ds) cur"
  by (induction cs cur rule: closed_files.induct) auto

definition made :: "(wop \<times> err option) list \<Rightarrow> string list" where
  "made cs = List.map_filter (\<lambda>(k, e). case k of WCreate f \<Rightarrow> Some f | _ \<Rightarrow> None) cs"

lemma made_simps [simp]: "made [] = []" "made ((WCreate f, e) # cs) = f # made cs" "made ((WMkdirAll d, e) # cs) = made cs"
  "made ((WWrite f s, e) # cs) = made cs" "made ((WClose f, e) # cs) = made cs" "made (cs @ ds) = made cs @ made ds"
  by (simp_all add: made_def map_filter_def)

lemma logs_wdo [hp_rules]: "(\<And>e. Q e [(k, e)]) \<Longrightarrow> logs ot_log (wdo x k) Q"
  by (auto simp: logs_def wdo_def wp_def split: prod.splits)

lemma logs_write_file: "logs ot_log (write_file x path data) (\<lambda>r cs. closed_files cs None \<and> made cs = [path])"
  unfolding write_file_def by (intro hp_rules) auto

lemma logs_write_files: "logs ot_log (write_files x fs) (\<lambda>r cs. closed_files cs None \<and> (r = None \<longrightarrow> made cs = map fst fs))"
proof (induction x fs rule: write_files.induct)
  case (2 x path data fs)
  show ?case unfolding write_files.simps
    by (rule logs_bind, rule logs_mono [OF logs_write_file], rule logs_if)
      (auto intro!: logs_return logs_mono [OF 2] simp: closed_files_append)
qed (simp add: logs_return)

definition output_names :: "bench_config \<Rightarrow> string list" where
  "output_names cfg = map (\<lambda>f. path_Join [bc_Out cfg, f]) [''results.json'', ''env.json'', ''latency.csv'', ''resources.csv'', ''report.html'']"

lemma logs_writeOutputs:
  "logs ot_log (writeOutputs x p css js cfg r) (\<lambda>e cs. closed_files cs None \<and> (e = Some None \<longrightarrow> made cs = output_names cfg) \<and> (e = None \<longrightarrow> writeHTML p css js r = None))"
  unfolding writeOutputs_def writeJSON_def
  by (intro hp_rules logs_mono [OF logs_write_file] logs_mono [OF logs_write_files])
    (auto simp: output_names_def closed_files_append)

subsection \<open>A run gives everything back\<close>

lemma logs_cleanupNamespace: "logs bd_log (cleanupNamespace x) (\<lambda>_ cs. spares cs \<and> sweeps cs)"
  unfolding cleanupNamespace_def
  by (intro hp_rules logs_mono [OF logs_cleanup_each]) (auto simp: spares_def sweeps_def)

text \<open>The part of the log of one scenario and the clean-up after it.\<close>

definition clean_part :: "(bop \<times> err option) list \<times> (bop \<times> err option) list \<Rightarrow> bool" where
  "clean_part part = (case part of (a, b) \<Rightarrow> track_all a {} = Some {} \<and> spares b \<and> sweeps b)"

definition flat :: "((bop \<times> err option) list \<times> (bop \<times> err option) list) list \<Rightarrow> (bop \<times> err option) list" where
  "flat parts = concat (map (\<lambda>(a, b). a @ b) parts)"

lemma flat_remains: "list_all clean_part parts \<Longrightarrow> remains (flat parts) (stranded bs) = stranded (bs @ flat parts)"
proof (induction parts arbitrary: bs)
  case (Cons c parts)
  obtain a b where c: "c = (a, b)" by (cases c)
  then have ab: "track_all a {} = Some {}" "sweeps b" using Cons.prems by (simp_all add: clean_part_def)
  then have "remains (a @ b) (stranded bs) = stranded (bs @ a @ b)"
    using track_all_remains [of a "{}" "{}" bs] sweeps_remains [of b "bs @ a"] by (simp add: remains_append)
  then show ?case using Cons.IH [of "bs @ a @ b"] Cons.prems by (simp add: c flat_def remains_append)
qed (simp add: flat_def remains_def)

lemma logs_runScenario:
  fixes x :: "('w, 'f) scenv"
  assumes "measurable x cfg" "bc_Parallel cfg \<noteq> []"
  shows "logs bd_log (runScenario x cfg rt sc) (\<lambda>r cs. r \<noteq> None \<and> track_all cs {} = Some {})"
  unfolding logs_def
proof
  fix s :: "'w driver"
  let ?R = "(bd_log s, {})"
  have "restores ?R {} (runScenario x cfg rt sc) (\<lambda>r. r \<noteq> None)" by (rule restores_runScenario) (use assms in auto)
  moreover have "fresh (bd_seq s) {}" by (simp add: fresh_def occupied_def)
  moreover have "view ?R s = (Some {}, bd_seq s)" by (simp add: view_some)
  ultimately have "via (view ?R) (view ?R s) (runScenario x cfg rt sc) (\<lambda>r b. \<exists>k\<ge>bd_seq s. b = (Some {}, k) \<and> r \<noteq> None)"
    by (simp only: restores_def)
  then show "wp (runScenario x cfg rt sc) (\<lambda>r s'. \<exists>cs. bd_log s' = bd_log s @ cs \<and> r \<noteq> None \<and> track_all cs {} = Some {}) s"
    unfolding via_def by (auto simp: view_some elim!: wp_mono allE [of _ s])
qed

lemma logs_run_cells:
  fixes x :: "('w, 'f) scenv"
  assumes "measurable x cfg" "bc_Parallel cfg \<noteq> []"
  shows "logs bd_log (run_cells x cfg ps) (\<lambda>r cs. r \<noteq> None \<and> (\<exists>parts. cs = flat parts \<and> length parts = length ps \<and> list_all clean_part parts))"
proof (induction ps)
  case (Cons c ps)
  obtain rt sc where c: "c = (rt, sc)" by (cases c)
  show ?case unfolding c run_cells.simps
  proof (rule logs_bind, rule logs_mono [OF logs_runScenario [OF assms]], elim conjE, rule logs_option, simp, rule logs_bind,
      rule logs_mono [OF logs_cleanupNamespace], rule logs_bind, rule logs_mono [OF Cons], elim conjE exE, rule logs_return)
    fix a b cs :: "(bop \<times> err option) list" and rest :: "'f ScenarioResult list option" and v parts
    assume "track_all a {} = Some {}" "spares b" "sweeps b" "rest \<noteq> None" "cs = flat parts" "length parts = length ps" "list_all clean_part parts"
    then show "map_option ((@) v) rest \<noteq> None \<and> (\<exists>parts. a @ b @ cs @ [] = flat parts \<and> length parts = length ((rt, sc) # ps) \<and> list_all clean_part parts)"
      by (intro conjI exI [of _ "(a, b) # parts"]) (auto simp: flat_def clean_part_def)
  qed
qed (auto intro!: logs_return exI [of _ "[]"] simp: flat_def)

lemma outputs_of_value:
  assumes "plain_numbers (re_plot x)" "bc_Parallel (rp_Config r) \<noteq> []"
  shows "logs bd_log (outputs_of x cfg r) (\<lambda>e cs. cs = [] \<and> e \<noteq> None)"
proof -
  have h: "writeHTML (re_plot x) (re_css x) (re_js x) r \<noteq> None" using writeHTML_page [OF assms, of "re_css x" "re_js x"] by auto
  have "e \<noteq> None" if "run_state (writeOutputs (re_files x) (re_plot x) (re_css x) (re_js x) cfg r) \<lparr>ot_world = w, ot_log = []\<rparr> = (e, s')" for w e s'
    using logs_run [OF logs_writeOutputs, of "re_files x" "re_plot x" "re_css x" "re_js x" cfg r "\<lparr>ot_world = w, ot_log = []\<rparr>"] that h by auto
  then show ?thesis unfolding outputs_of_def logs_def ask_def wp_def by (auto split: prod.splits)
qed

definition run_log :: "bench_config \<Rightarrow> err option option \<Rightarrow> (bop \<times> err option) list \<Rightarrow> bool" where
  "run_log cfg r cs \<longleftrightarrow> (\<exists>pre parts. cs = pre @ flat parts \<and> spares pre \<and> sweeps pre \<and> list_all clean_part parts
     \<and> (length parts = length (bc_Runtimes cfg) * length (bc_Scenarios cfg) \<or> parts = [] \<and> (\<exists>e. r = Some (Some e))))"

lemma grid_length: "length (grid cfg) = length (bc_Runtimes cfg) * length (bc_Scenarios cfg)"
  by (simp add: grid_def length_concat comp_def sum_list_triv)

lemma logs_bench_run:
  assumes "measurable (re_sc x) (configure stamp fg)" "plain_numbers (re_plot x)"
  shows "logs bd_log (bench_run x stamp fg) (\<lambda>r cs. r \<noteq> None \<and> run_log (configure stamp fg) r cs)"
proof -
  let ?cfg = "configure stamp fg"
  have par: "bc_Parallel ?cfg \<noteq> []" using configure_parallel [of stamp fg] by simp
  have new: "logs bd_log (newDriver x ?cfg) (\<lambda>e cs. cs = [])"
    unfolding newDriver_def by (intro hp_rules) simp_all
  have full: "run_log ?cfg r (pre @ flat parts)" if "spares pre" "sweeps pre" "list_all clean_part parts" "length parts = length (grid ?cfg)" for r pre parts
    unfolding run_log_def using that grid_length [of ?cfg] by (intro exI [of _ pre] exI [of _ parts]) simp
  have failed: "run_log ?cfg (Some (Some e)) []" for e
    unfolding run_log_def by (intro exI [of _ "[]"]) (simp add: flat_def spares_def sweeps_def)
  show ?thesis unfolding bench_run_def Let_def
    by (rule logs_bind, rule logs_mono [OF new], intro hp_rules logs_mono [OF logs_cleanupNamespace] logs_mono [OF logs_run_cells [OF assms(1) par]] logs_mono [OF outputs_of_value [OF assms(2)]])
      (use par in \<open>auto simp: failed full\<close>)
qed

lemma run_log_remains: "run_log cfg r cs \<Longrightarrow> remains cs {} = stranded cs"
  unfolding run_log_def using sweeps_remains [of _ "[]"] flat_remains by (auto simp: remains_append)


definition demo_run :: "(nat, int) renv" where
  "demo_run = \<lparr>re_sc = demo_scenv, re_files = \<lparr>we_do = (\<lambda>k w. (None, w)), we_report = (\<lambda>r. Inr ''{}''), we_env = (\<lambda>e. Inr ''{}'')\<rparr>, re_plot = demo_plotting,
     re_css = '''', re_js = '''', re_New = (\<lambda>a n w. (None, w)), re_Pull = (\<lambda>i w. (None, w)), re_Close = (\<lambda>w. (None, w)),
     re_machine = (\<lambda>w. (\<lparr>mc_proc = demo_proc 0 ''1'' ''2'', mc_GOARCH = ''amd64'', mc_NumCPU = 8, mc_GoVersion = ''go1'', mc_Stat = (\<lambda>p. True), mc_LookPath = (\<lambda>p. None),
       mc_Output = (\<lambda>p a. ('''', True)), mc_Hostname = ''host'', mc_Version = None, mc_BuildSettings = None\<rparr>, w)), re_Now = (\<lambda>w. (''now'', w))\<rparr>"


end
