(* ===== verification/CheckExec.thy ===== *)
theory CheckExec
  imports Bench
begin

text \<open>
  The exec checker of \<open>contrib/checkexec\<close>: a client that runs a container with the shim, kills an exec in it right after its start and waits for it. Its calls are
  those of theory \<open>Bench\<close>, and so is the reading of its log.
\<close>

subsection \<open>The program\<close>

definition check_args :: "string list \<Rightarrow> string list option" where
  "check_args argv =
     (if length argv > 1
      then (case tl argv of
              [] # rest \<Rightarrow> None
            | (c # cs) # rest \<Rightarrow> Some ((if c \<noteq> CHR ''/'' then CHR ''/'' # c # cs else c # cs) # rest)
            | [] \<Rightarrow> None)
      else Some [''/bin/sh''])"

text \<open>What of the client library has no part in what the program holds: the connection, a container of an earlier run, the image.\<close>

record ('w, 'f) cenv =
  ce_bench :: "('w, 'f) benv"
  ce_New :: "'w \<Rightarrow> err option \<times> 'w"
  ce_LoadContainer :: "string \<Rightarrow> 'w \<Rightarrow> bool \<times> 'w"
  ce_DeleteLoaded :: "string \<Rightarrow> 'w \<Rightarrow> err option \<times> 'w"
  ce_Pull :: "string \<Rightarrow> 'w \<Rightarrow> err option \<times> 'w"

text \<open>How \<open>do\<close> ends: a panic of its arguments, a receive that nothing ends, or a return.\<close>

datatype ending = Panics | Blocks | Returns "err option"

abbreviation check_task :: target where "check_task \<equiv> TaskOf ''test''"
abbreviation check_exec :: target where "check_exec \<equiv> ExecOf ''test'' ''test-exec''"

text \<open>
  A receive from the channel of a wait, with no other case and no time-out: whether a status arrived. The log keeps one that never does as a failed call, after which
  the program does nothing more.
\<close>

definition receive :: "('w, 'f) cenv \<Rightarrow> target \<Rightarrow> ('w, bool) bgo" where
  "receive x p = do {
     e \<leftarrow> bdo (ce_bench x) (BAwaitExit p);
     if e \<noteq> None then return_go False else do { _ \<leftarrow> ask (be_exit (ce_bench x) p); return_go True } }"

text \<open>
  The body from the exec's start; after a failed wait the channel is nil, and the receive from it blocks. The result of a deferred function says whether it came to its end.
\<close>

definition exec_body :: "('w, 'f) cenv \<Rightarrow> ('w, ending) bgo" where
  "exec_body x = do {
     e \<leftarrow> bdo (ce_bench x) (BStart check_exec);
     if e \<noteq> None then return_go (Returns e)
     else do {
       _ \<leftarrow> bdo (ce_bench x) (BKill True check_exec);
       w \<leftarrow> bdo (ce_bench x) (BWait False check_exec);
       if w \<noteq> None then return_go Blocks
       else do { arrived \<leftarrow> receive x check_exec; return_go (if arrived then Returns None else Blocks) } } }"

definition exec_deferred :: "('w, 'f) cenv \<Rightarrow> ('w, bool) bgo" where
  "exec_deferred x = do { _ \<leftarrow> bdo (ce_bench x) (BDelete True check_exec); return_go True }"

definition task_deferred :: "('w, 'f) cenv \<Rightarrow> ('w, bool) bgo" where
  "task_deferred x = do {
     _ \<leftarrow> bdo (ce_bench x) (BKill True check_task);
     w \<leftarrow> bdo (ce_bench x) (BWait False check_task);
     arrived \<leftarrow> (if w = None then receive x check_task else return_go True);
     if \<not> arrived then return_go False
     else do { _ \<leftarrow> bdo (ce_bench x) (BDelete True check_task); return_go True } }"

definition container_deferred :: "('w, 'f) cenv \<Rightarrow> ('w, bool) bgo" where
  "container_deferred x = do { _ \<leftarrow> bdo (ce_bench x) (BContainerDelete True ''test''); return_go True }"

text \<open>A body with a deferred function: it runs when the body returns, and never if the body blocks.\<close>

definition deferring :: "('w, ending) bgo \<Rightarrow> ('w, bool) bgo \<Rightarrow> ('w, ending) bgo" where
  "deferring body d = do {
     r \<leftarrow> body;
     if r = Blocks then return_go Blocks else do { ended \<leftarrow> d; return_go (if ended then r else Blocks) } }"

definition with_exec :: "('w, 'f) cenv \<Rightarrow> string list \<Rightarrow> ('w, ending) bgo" where
  "with_exec x args = do {
     e \<leftarrow> bdo (ce_bench x) (BNewExec ''test'' ''test-exec'' False args);
     if e \<noteq> None then return_go (Returns e) else deferring (exec_body x) (exec_deferred x) }"

definition with_check_task :: "('w, 'f) cenv \<Rightarrow> string list \<Rightarrow> ('w, ending) bgo" where
  "with_check_task x args = do {
     e \<leftarrow> bdo (ce_bench x) (BNewTask ''test'' False);
     if e \<noteq> None then return_go (Returns e) else deferring (with_exec x args) (task_deferred x) }"

definition with_container :: "('w, 'f) cenv \<Rightarrow> string list \<Rightarrow> ('w, ending) bgo" where
  "with_container x args = do {
     e \<leftarrow> bdo (ce_bench x) (BNewContainer ''io.containerd.systemd.v1'' ''test'' False [''/bin/top'']);
     if e \<noteq> None then return_go (Returns e) else deferring (with_check_task x args) (container_deferred x) }"

definition check_do :: "('w, 'f) cenv \<Rightarrow> string list \<Rightarrow> ('w, ending) bgo" where
  "check_do x argv =
     (case check_args argv of
        None \<Rightarrow> return_go Panics
      | Some args \<Rightarrow> do {
          e \<leftarrow> ask (ce_New x);
          if e \<noteq> None then return_go (Returns e)
          else do {
            found \<leftarrow> ask (ce_LoadContainer x ''test'');
            _ \<leftarrow> (if found then ask (ce_DeleteLoaded x ''test'') else return_go None);
            e \<leftarrow> ask (ce_Pull x ''docker.io/library/busybox:latest'');
            if e \<noteq> None then return_go (Returns e) else with_container x args } })"

text \<open>\<open>main\<close> panics with every error of \<open>do\<close>, whose deferred functions have then run.\<close>

definition check_main :: "('w, 'f) cenv \<Rightarrow> string list \<Rightarrow> ('w, ending) bgo" where
  "check_main x argv = do {
     r \<leftarrow> check_do x argv;
     return_go (case r of Returns (Some e) \<Rightarrow> Panics | _ \<Rightarrow> r) }"

subsection \<open>Everything is dealt with, or the program hangs\<close>

lemma check_args_none: "check_args argv = None \<longleftrightarrow> (\<exists>prog rest. argv = prog # [] # rest)"
  by (cases argv; cases "tl argv"; cases "hd (tl argv)") (auto simp: check_args_def)

definition rooted :: "string list \<Rightarrow> bool" where
  "rooted args = (case args of (c # cs) # rest \<Rightarrow> c = CHR ''/'' | _ \<Rightarrow> False)"

lemma check_args_rooted: "check_args argv = Some args \<Longrightarrow> rooted args"
  by (cases argv; cases "tl argv"; cases "hd (tl argv)") (auto simp: check_args_def rooted_def split: if_splits)

definition exec_calls_rooted :: "(bop \<times> err option) list \<Rightarrow> bool" where
  "exec_calls_rooted = list_all (\<lambda>(k, e). case k of BNewExec i j tty args \<Rightarrow> rooted args | _ \<Rightarrow> True)"

text \<open>
  The process a hung program waits for: its last call is a receive that never got a status, or the wait for the exec failed, which leaves a nil channel. Then what it
  still answers for: all three while it waits for the exec, task and container while it waits for the task.
\<close>

definition waiting_for :: "(bop \<times> err option) list \<Rightarrow> target option" where
  "waiting_for cs = (if cs = [] then None else case last cs of
      (BAwaitExit p, Some e) \<Rightarrow> Some p
    | (BWait d p, Some e) \<Rightarrow> (if p = check_exec then Some p else None)
    | _ \<Rightarrow> None)"

definition kept :: "target option \<Rightarrow> res set" where
  "kept w = (case w of
      None \<Rightarrow> {}
    | Some (TaskOf i) \<Rightarrow> {RProc check_task, RContainer ''test''}
    | Some (ExecOf i j) \<Rightarrow> {RProc check_exec, RProc check_task, RContainer ''test''})"

text \<open>A call whose failure \<open>do\<close> returns.\<close>

fun fatal :: "bop \<times> err option \<Rightarrow> bool" where
  "fatal (BNewContainer _ _ _ _, e) = (e \<noteq> None)"
| "fatal (BNewTask _ _, e) = (e \<noteq> None)"
| "fatal (BNewExec _ _ _ _, e) = (e \<noteq> None)"
| "fatal (BStart _, e) = (e \<noteq> None)"
| "fatal _ = False"

lemma logs_deferring:
  assumes "logs l body (\<lambda>r cs. if r = Blocks then Q Blocks cs else logs l d (\<lambda>ended cs'. Q (if ended then r else Blocks) (cs @ cs')))"
  shows "logs l (deferring body d) Q"
  unfolding deferring_def
  by (intro logs_bind logs_mono [OF assms] logs_if logs_return) (auto elim!: logs_mono intro!: logs_return)

lemma logs_receive [hp_rules]:
  "(\<And>e. Q False [(BAwaitExit p, Some e)]) \<Longrightarrow> Q True [(BAwaitExit p, None)] \<Longrightarrow> logs bd_log (receive x p) Q"
  unfolding receive_def by (intro hp_rules) auto

lemma occupied_empty [simp]: "\<not> occupied {} i" "\<not> in_use {} p"
  by (auto simp: occupied_def in_use_def split: target.splits)

lemma logs_with_container:
  assumes "rooted args"
  shows "logs bd_log (with_container x args) (\<lambda>r cs. (r = Blocks \<longleftrightarrow> waiting_for cs \<noteq> None) \<and> r \<noteq> Panics \<and> exec_calls_rooted cs
    \<and> track_all cs {} = Some (kept (waiting_for cs)) \<and> cs \<noteq> [] \<and> (r \<noteq> Blocks \<longrightarrow> (r = Returns None \<longleftrightarrow> \<not> list_ex fatal cs)))"
  unfolding with_container_def with_check_task_def with_exec_def exec_body_def exec_deferred_def task_deferred_def container_deferred_def
  by (intro hp_rules logs_deferring)
    (use assms in \<open>auto simp: waiting_for_def kept_def exec_calls_rooted_def hold_defs intro!: hp_rules split: if_splits\<close>)

lemma logs_check_main:
  "logs bd_log (check_main x argv) (\<lambda>r cs. (r = Blocks \<longleftrightarrow> waiting_for cs \<noteq> None) \<and> exec_calls_rooted cs
    \<and> track_all cs {} = Some (kept (waiting_for cs)) \<and> (r \<noteq> Blocks \<longrightarrow> r = (if cs = [] \<or> list_ex fatal cs then Panics else Returns None))
    \<and> (check_args argv = None \<longrightarrow> cs = []))"
  unfolding check_main_def check_do_def
  by (intro hp_rules logs_mono [OF logs_with_container])
    (auto simp: waiting_for_def kept_def exec_calls_rooted_def dest: check_args_rooted split: ending.splits option.splits)

text \<open>
  C39: The exec checker, run with any arguments and whatever containerd and the processes do. Every exec it asks for has a rooted command. It hangs exactly when the wait
  for the exec it killed fails, or when a status it receives without a time-out never arrives; it then still has exec, task and container to deal with, or task and
  container when the status was the task's. Otherwise it panics when it came to no call for a container (an empty first argument, no connection, no image) or when making
  container, task or exec or starting the exec failed, and else returns; in both cases each of the three it made was deleted, or that was tried once, inner before
  outer. What is still there is exactly what it hangs on and what a delete failed for.
\<close>

theorem check_exec_ends:
  "case run_state (check_main x argv) s of (r, s') \<Rightarrow> \<exists>cs.
      bd_log s' = bd_log s @ cs \<and> exec_calls_rooted cs
    \<and> (r = Blocks \<longleftrightarrow> waiting_for cs \<noteq> None)
    \<and> (r \<noteq> Blocks \<longrightarrow> r = (if cs = [] \<or> list_ex fatal cs then Panics else Returns None))
    \<and> ((\<exists>prog rest. argv = prog # [] # rest) \<longrightarrow> cs = [] \<and> r = Panics)
    \<and> track_all cs {} = Some (kept (waiting_for cs))
    \<and> remains cs {} = kept (waiting_for cs) \<union> stranded cs"
proof -
  obtain r s' where run: "run_state (check_main x argv) s = (r, s')" by fastforce
  obtain cs where cs: "bd_log s' = bd_log s @ cs" "r = Blocks \<longleftrightarrow> waiting_for cs \<noteq> None" "exec_calls_rooted cs"
    "track_all cs {} = Some (kept (waiting_for cs))" "r \<noteq> Blocks \<longrightarrow> r = (if cs = [] \<or> list_ex fatal cs then Panics else Returns None)"
    "check_args argv = None \<longrightarrow> cs = []"
    using logs_run [OF logs_check_main, of x argv s] run by auto
  have "remains cs {} = kept (waiting_for cs) \<union> stranded cs" using track_all_remains [OF cs(4), of "[]"] by simp
  then show ?thesis unfolding run prod.case using cs
    by (intro exI [of _ cs]) (auto simp: check_args_none waiting_for_def)
qed

text \<open>The outside of an example, where no status of the task arrives and the exec cannot be deleted.\<close>

definition demo_check :: "(nat, int) cenv" where
  "demo_check = \<lparr>ce_bench = demo_bench\<lparr>be_do := (\<lambda>k w. (case k of BAwaitExit (TaskOf _) \<Rightarrow> Some ErrCanceled | BDelete _ (ExecOf _ _) \<Rightarrow> Some ErrCanceled | _ \<Rightarrow> None, w + 1))\<rparr>,
     ce_New = (\<lambda>w. (None, w)), ce_LoadContainer = (\<lambda>i w. (True, w)), ce_DeleteLoaded = (\<lambda>i w. (None, w)), ce_Pull = (\<lambda>i w. (None, w))\<rparr>"

theorem check_exec_ends_witness:
  "case run_state (check_main demo_check [''checkexec'', ''ls'']) \<lparr>bd_world = 0, bd_seq = 0, bd_log = []\<rparr> of (r, s') \<Rightarrow>
     r = Blocks \<and> waiting_for (bd_log s') = Some check_task \<and> remains (bd_log s') {} = kept (Some check_task) \<union> stranded (bd_log s')"
proof -
  let ?s = "\<lparr>bd_world = 0, bd_seq = 0, bd_log = []\<rparr> :: nat driver"
  obtain r s' where run: "run_state (check_main demo_check [''checkexec'', ''ls'']) ?s = (r, s')" by fastforce
  have "waiting_for (bd_log (snd (run_state (check_main demo_check [''checkexec'', ''ls'']) ?s))) = Some check_task"
    by (simp add: check_main_def check_do_def check_args_def with_container_def with_check_task_def with_exec_def exec_body_def exec_deferred_def task_deferred_def
        container_deferred_def deferring_def receive_def bdo_def ask_def demo_check_def demo_bench_def waiting_for_def)
  then have w: "waiting_for (bd_log s') = Some check_task" by (simp add: run)
  from check_exec_ends [where x = demo_check and argv = "[''checkexec'', ''ls'']" and s = ?s, unfolded run prod.case] obtain cs
    where "bd_log s' = bd_log ?s @ cs" "r = Blocks \<longleftrightarrow> waiting_for cs \<noteq> None" "remains cs {} = kept (waiting_for cs) \<union> stranded cs" by blast
  then show ?thesis unfolding run prod.case using w by simp
qed

end
