(* ===== verification/Spec2Isabelle.thy ===== *)
theory Spec2Isabelle
  imports Reactor Handover Commands Conform Watch Shutdown Serving Telemetry BenchRun CheckExec
begin

text \<open>
  A model of \<open>containerd-shim-systemd-v1\<close>, a containerd runtime shim that runs every container and every exec as a transient
  systemd unit, and the theorems that make it correct.

  \<^bold>\<open>The program.\<close> containerd talks to one long-running service (\<open>manager.go\<close>, \<open>service.go\<close>, \<open>service_v2.go\<close>). Its
  handlers create, start, signal, resize, wait for and delete processes (\<open>create.go\<close>, \<open>start.go\<close>, \<open>process.go\<close>, \<open>pty.go\<close>,
  \<open>wait.go\<close>, \<open>delete.go\<close>, \<open>state.go\<close>). Every process has a lifecycle phase (\<open>phase.go\<close>), a merged observation of its state
  (\<open>state.go\<close>) and an outbox that keeps its events in order (\<open>events.go\<close>). Exits are learned from systemd: a reactor
  decodes unit signals, queues the units and reconciles them (\<open>unitevents.go\<close>, \<open>unitsignals.go\<close>, \<open>unitworkqueue.go\<close>).
  Inside the unit the same binary runs again as a helper (\<open>createCmd\<close> of \<open>create.go\<close>, with \<open>mount.go\<close>) that starts runc and
  hands the workload over to systemd. \<open>main.go\<close> parses the command lines of all of them. Beside the shim stands a benchmark
  (\<open>contrib/bench\<close>), a client of containerd that drives it, samples what it costs and writes a report, and a small test program (\<open>contrib/checkexec\<close>).

  \<^bold>\<open>Theories, in import order.\<close>
  \<^item> \<open>Shim_Prelude\<close>, \<open>Go_Strings\<close>: machine integers, times, errors, results, list facts; the parts of \<open>strconv\<close>,
    \<open>strings\<close> and \<open>path\<close> the source uses.
  \<^item> \<open>Phase\<close>, \<open>PState\<close>, \<open>Outbox\<close>, \<open>Process\<close>: phases and their table; observations, their merge and the decoding of
    systemd's properties; the event outbox, over a locale \<open>publisher\<close> interpreted by the service's channel; a process and all its
    transitions as a step relation, with the invariants of its reachable states.
  \<^item> \<open>WorkQueue\<close>: the queue, its contract as the locale \<open>work_queue\<close>, its transition system with producers, timers
    and workers.
  \<^item> \<open>World\<close>, \<open>Logic\<close>: the shared state \<open>shim\<close>, the outside \<open>env\<close>, the monad of the handlers, and the calculus: weakest
    preconditions, which calls a program makes and in which order (\<open>only\<close>, \<open>trace\<close>, and \<open>logs\<close> for any state with a log), how a program
    changes its state as a view shows it (\<open>via\<close>), and rely/guarantee (\<open>guar\<close>, locale \<open>guarantee\<close>).
  \<^item> \<open>Registry\<close>, \<open>Units\<close>: the two process tables as index locales with their interpretations; names, paths, properties
    and references of units.
  \<^item> \<open>Tasks\<close>, \<open>Tty\<close>, \<open>Delete\<close>, \<open>Start\<close>, \<open>Create\<close>, \<open>Handlers\<close>: the methods of processes and the
    handlers, every branch and every deferred clean-up, in the order the code runs them.
  \<^item> \<open>Reactor\<close>: the informer, the workers, retries and resync as a transition system over the queue and the shared state.
  \<^item> \<open>Watch\<close>: the goroutines of the reactor as programs, with their connection to systemd, and that they refine it.
  \<^item> \<open>Machine\<close>, \<open>Shutdown\<close>: executable transition systems as locales (\<open>machine\<close>, \<open>ranked_machine\<close>, also used by \<open>Batch\<close>); senders, forwarder and the
    end of \<open>serve\<close> as one of them.
  \<^item> \<open>Api\<close>: the service as one interface, the requests of version 3 and the adapter for version 2.
  \<^item> \<open>Conform\<close>: the typing of the tables, as a guarantee of every request and of the reactor (locale \<open>registry_guarantee\<close>).
  \<^item> \<open>ReExec\<close>, \<open>Cli\<close>, \<open>Host\<close>, \<open>Handover\<close>, \<open>Commands\<close>: the helper with its own outside \<open>henv\<close>; the command line;
    mounting, bootstrap, runtime information and installation; the state file between helper and shim; the delete
    command.
  \<^item> \<open>Serving\<close>: signals, the message bus for unit references, log format, tracing set-up, and the serve command from its start to its end, with what is
    open read off its log. \<open>Telemetry\<close>: the tracing interceptors around the service with the spans they record.
  \<^item> \<open>Bench\<close>, \<open>Batch\<close>, \<open>Sampler\<close>: the benchmark's driver over its own outside \<open>benv\<close>, with what it still answers for (\<open>track\<close>) and what is still there (\<open>remains\<close>) read off its log; its
    worker pool as a transition system; its sampler.
  \<^item> \<open>Stats\<close>, \<open>Scenarios\<close>: summaries of latencies and counters; configuration, measurement and the scenarios, with the calculus \<open>restores\<close> for programs that
    give back what they took.
  \<^item> \<open>Markup\<close>, \<open>Charts\<close>, \<open>Report\<close>, \<open>Page\<close>: formatting, escaping and a scanner for balanced markup; charts as SVG; lookups, CSV tables and a reader for
    them; the page.
  \<^item> \<open>BenchRun\<close>, \<open>CheckExec\<close>: whole runs of the benchmark with their files; the exec checker, over the calls of \<open>Bench\<close>.

  \<^bold>\<open>How the model reads the code.\<close> A handler is a program over \<open>shim\<close>. The parameter \<open>env\<close> is systemd, runc, the file system, the
  clock and the other goroutines: a call to the outside is recorded in \<open>sh_calls\<close> and may change the whole shared state, and every
  acquisition of a lock is preceded by such a change, so a theorem without further hypotheses covers every interleaving at
  the granularity of locks. \<open>rely R x\<close> restricts what the others do to steps in \<open>R\<close>; \<open>guar R m\<close> says that the program
  itself keeps to \<open>R\<close>, so that guarantees of all parts justify the rely of each: \<open>service_keeps_lifecycle\<close> below closes that
  circle for the order on lifecycles. Errors are values of \<open>err\<close>. A Go panic is the error \<open>Panic\<close> where no deferred
  function looks at the returned error, and the value \<open>None\<close> where one does, since it then does not run its clean-up. Loops that
  wait for the outside take fuel, one unit per wake-up, poll or retry, and return \<open>None\<close> while they are still waiting; the
  termination theorems state when they return: a wait whose process has ended returns at its first look, a create returns
  with one unit of fuel, and the helper polls the pid file at most 502 times. The loops of the reactor run as long as the shim does; what is shown of
  them holds of their unfinished runs too. A single call to the outside, a wait for a job of systemd among them, is taken to return: a run in which one never does has no
  result here, and a theorem about results says nothing of it. Only \<open>CheckExec\<close> has the receive that never ends as a result of its own.

  \<^bold>\<open>What is shown.\<close> Exits: they are published once, in an order containerd can follow, none is lost by the reactor, the helper
  accounts for every exit status it consumes, and the shim finds it; a shutdown publishes every accepted event. Lifecycle: starts are admitted once and claims handed
  back; a deleted process is never started; a start that races with a delete leaves nothing behind. Resources: every failed create and
  every delete hands the unit's reference back as its last call, and registrations are undone. The queue loses no update, is
  exclusive, and shuts down; the reactor refines it. Decoders agree with each other, encoders with decoders:
  exit codes, resize requests (by the handler of \<open>pty.c\<close>, modulo its 16 bits), unit command lines and the installed unit file are read back as they were meant. Both API versions are
  the same service. The keys of the tables lead to the processes they name. The serve command closes what it opened, but for what its theorem lists: a debug server,
  and on failing paths connections, publisher, reactor or exporter. A run of the benchmark never panics, deals with all it takes, and leaves what a delete of last
  resort failed for; it keeps to its parallelism and charges each process what it used; its tables read back column by column, and its page is balanced markup whatever
  the names in it. The exec checker deals with all it takes unless it hangs in a wait.

  \<^bold>\<open>Not modelled.\<close> The texts of log and debug output and of most error messages, and the mapping of errors to gRPC codes: none changes the state of a task.
  The ttrpc server, exporters and propagators of traces, the debug HTTP server and the HTTP request for the shim's counters are single calls to the outside.
  Protobuf, JSON, typeurl, runc, go-systemd and cgroups are libraries: their codecs and calls are parameters of the
  definitions, with round trips as named hypotheses where a theorem needs them; so are \<open>strconv\<close>'s and \<open>fmt\<close>'s conversions of a \<open>float64\<close>. Generated code (\<open>options/\<close>), of the C
  program behind the tty socket (\<open>pty.c\<close>) all but its handler of a request, and the style sheet and script of the report, which are constant texts. Where the benchmark computes with floating point
  numbers, their type and operations are a parameter; what is needed of IEEE arithmetic is the named hypothesis \<open>float_laws\<close>. The operations of a batch appear in the
  order in which the workers took the mutex, each with what the others do as part of its outside; that the pool runs each exactly once is shown in \<open>Batch\<close>. The counter of ids does not wrap.
\<close>

section \<open>The whole service\<close>

lemma lo_Service_TTRPC:
  assumes "rely lifecycle_le x"
  shows "guar lifecycle_le (serve_v3 (Service_TTRPC x sv js pid c ns n) r)"
    "guar lifecycle_le (taskV2Adapter (Service_TTRPC x sv js pid c ns n) r2)"
proof -
  note rules = lo.guar_answers lo_Service_Create [OF assms] lo_Service_Exec [OF assms] lo_Service_Start [OF assms]
    lo_Service_Delete [OF assms] lo_Service_Wait [OF assms] lo_simple_handlers [OF assms] lo.guar_return
    Service_TTRPC_def Service_CloseIO_def Service_Shutdown_def
  show "guar lifecycle_le (serve_v3 (Service_TTRPC x sv js pid c ns n) r)" by (cases r) (simp_all add: rules)
  show "guar lifecycle_le (taskV2Adapter (Service_TTRPC x sv js pid c ns n) r2)" by (cases r2) (simp_all add: rules)
qed

text \<open>
  C9: no goroutine undoes a process's history. As long as the others do not, no request of either API version, in any
  branch of its handler, and no step of the event reactor makes an exited process run again,
  takes back the deletion of one or its announcement, or frees a process other requests hold.
\<close>

theorem service_keeps_lifecycle:
  assumes "rely lifecycle_le x"
  shows "guar lifecycle_le (serve_v3 (Service_TTRPC x sv js pid c ns n) r)
    \<and> guar lifecycle_le (taskV2Adapter (Service_TTRPC x sv js pid c ns n) r2)
    \<and> guar lifecycle_le (enqueueIfExit x u) \<and> guar lifecycle_le (reconcileUnit x c unit)"
  using lo_Service_TTRPC [OF assms] lo_reactor [OF assms] by blast

theorem service_keeps_lifecycle_witness:
  "lifecycle_le (demo_shim exited_process (blank_process ''ns''))
     (snd (run_state (serve_v3 (Service_TTRPC calm_env demo_conf (\<lambda>_. Inr '''') 1 ReqCtx (Inr ''ns'') 1) (V3Delete ''c'' ''''))
        (demo_shim exited_process (blank_process ''ns''))))"
proof -
  have "guar lifecycle_le (serve_v3 (Service_TTRPC (calm_env :: unit env) demo_conf (\<lambda>_. Inr '''') 1 ReqCtx (Inr ''ns'') 1) (V3Delete ''c'' ''''))"
    by (rule service_keeps_lifecycle [OF calm_rely, THEN conjunct1])
  then show ?thesis by (simp add: guar_def)
qed

end
